(* ===== verification/Go_Prelude.thy ===== *)
theory Go_Prelude
  imports Main "HOL-Library.Multiset" "HOL-Library.Product_Lexorder"
begin

text \<open>
  What every component of the development shares: the parts of the Go language and of its
  standard library that the repository uses.

  \<^item> machine integers: \<open>int\<close> and \<open>int64\<close> are 64 bits wide in the code; they are
    \<open>int\<close> here, and every operation that can leave the range goes through \<open>wrap64\<close>;
  \<^item> \<open>strings\<close>: trimming, splitting, joining, case folding. A Go string is a sequence of
    bytes, a HOL \<open>string\<close> a list of 8-bit characters; the functions agree with Go's on ASCII
    text (Unicode white space and Unicode case mappings are not modelled);
  \<^item> \<open>errors\<close>: sentinel values, \<open>errors.New\<close>, \<open>fmt.Errorf\<close> with \<open>%w\<close> and
    \<open>errors.Is\<close>;
  \<^item> \<open>context\<close>: only which deadline a context carries;
  \<^item> outcomes: a call returns, or it panics (send on a closed channel, a second \<open>close\<close>,
    a negative shift count).
\<close>

section \<open>Collections of facts\<close>

named_theorems go_defs \<open>definitions of small Go library functions, for unfolding\<close>
named_theorems go_outcome \<open>facts on returning and panicking calls\<close>

section \<open>Machine integers\<close>

definition wrap64 :: "int \<Rightarrow> int" where
  "wrap64 x = (x + 2 ^ 63) mod 2 ^ 64 - 2 ^ 63"

definition max_int64 :: int where
  "max_int64 = 2 ^ 63 - 1"

text \<open>A shift \<open>1 << n\<close> of an \<open>int\<close>: bits are lost at the top; a negative count panics.\<close>

definition go_shl1 :: "int \<Rightarrow> int option" where
  "go_shl1 n = (if n < 0 then None else Some (wrap64 (2 ^ nat n)))"

text \<open>Go's integer division truncates towards zero.\<close>

definition go_quot :: "int \<Rightarrow> int \<Rightarrow> int" where
  "go_quot a b = wrap64 (sgn a * sgn b * (\<bar>a\<bar> div \<bar>b\<bar>))"

section \<open>Time\<close>

text \<open>\<open>utf8.RuneCountInString\<close> on valid UTF-8: the bytes that do not continue a character.\<close>

definition rune_count :: "string \<Rightarrow> nat" where
  "rune_count s = length (filter (\<lambda>c. let n = (of_char c :: nat) in n < 128 \<or> 192 \<le> n) s)"

text \<open>A \<open>time.Duration\<close> is an \<open>int64\<close> of nanoseconds, an instant is its distance from the epoch.\<close>

type_synonym duration = int
type_synonym instant = int

definition nanosecond :: duration where "nanosecond = 1"
definition millisecond :: duration where "millisecond = 1000000"
definition second :: duration where "second = 1000000000"
definition minute :: duration where "minute = 60 * second"
definition hour :: duration where "hour = 60 * minute"

text \<open>\<open>time.Duration(n) * unit\<close>\<close>

definition duration_of :: "int \<Rightarrow> duration \<Rightarrow> duration" where
  "duration_of n u = wrap64 (n * u)"

lemmas time_units = nanosecond_def millisecond_def second_def minute_def hour_def

section \<open>Strings\<close>

definition is_space :: "char \<Rightarrow> bool" where
  "is_space c = (let n = (of_char c :: nat) in n = 32 \<or> (9 \<le> n \<and> n \<le> 13))"

definition lower_char :: "char \<Rightarrow> char" where
  "lower_char c = (let n = (of_char c :: nat) in if 65 \<le> n \<and> n \<le> 90 then char_of (n + 32) else c)"

definition to_lower :: "string \<Rightarrow> string" where
  "to_lower s = map lower_char s"

definition equal_fold :: "string \<Rightarrow> string \<Rightarrow> bool" where
  "equal_fold s t = (to_lower s = to_lower t)"

definition trim_where :: "(char \<Rightarrow> bool) \<Rightarrow> string \<Rightarrow> string" where
  "trim_where P s = rev (dropWhile P (rev (dropWhile P s)))"

definition trim_space :: "string \<Rightarrow> string" where
  "trim_space s = trim_where is_space s"

definition trim_cutset :: "string \<Rightarrow> string \<Rightarrow> string" where
  "trim_cutset s cutset = trim_where (\<lambda>c. c \<in> set cutset) s"

definition has_prefix :: "string \<Rightarrow> string \<Rightarrow> bool" where
  "has_prefix s p = (take (length p) s = p)"

definition has_suffix :: "string \<Rightarrow> string \<Rightarrow> bool" where
  "has_suffix s p = (length p \<le> length s \<and> drop (length s - length p) s = p)"

definition trim_prefix :: "string \<Rightarrow> string \<Rightarrow> string" where
  "trim_prefix s p = (if has_prefix s p then drop (length p) s else s)"

definition trim_suffix :: "string \<Rightarrow> string \<Rightarrow> string" where
  "trim_suffix s p = (if has_suffix s p then take (length s - length p) s else s)"

text \<open>\<open>strings.Split(s, c)\<close> and \<open>strings.SplitN(s, c, 2)\<close> for a one-byte separator.\<close>

fun split_on :: "char \<Rightarrow> string \<Rightarrow> string list" where
  "split_on c [] = [[]]"
| "split_on c (x # xs) =
     (if x = c then [] # split_on c xs
      else case split_on c xs of [] \<Rightarrow> [[x]] | p # ps \<Rightarrow> (x # p) # ps)"

definition split_2 :: "char \<Rightarrow> string \<Rightarrow> string list" where
  "split_2 c s =
     (let p = takeWhile (\<lambda>x. x \<noteq> c) s in
      if p = s then [s] else [p, drop (Suc (length p)) s])"

fun join :: "string \<Rightarrow> string list \<Rightarrow> string" where
  "join sep [] = []"
| "join sep [x] = x"
| "join sep (x # y # ys) = x @ sep @ join sep (y # ys)"

text \<open>Decimal printing (\<open>%d\<close>) of an \<open>int\<close>.\<close>

fun digits_of :: "nat \<Rightarrow> string" where
  "digits_of n =
     (if n < 10 then [char_of (48 + n)] else digits_of (n div 10) @ [char_of (48 + n mod 10)])"

declare digits_of.simps [simp del]

definition itoa :: "int \<Rightarrow> string" where
  "itoa n = (if n < 0 then ''-'' @ digits_of (nat (- n)) else digits_of (nat n))"

section \<open>Errors\<close>

text \<open>
  The sentinel errors of the repository (\<open>internal/domain/errors.go\<close>, \<open>pkg/queue/queue.go\<close>,
  \<open>pkg/jwt/jwt.go\<close>), the sentinels of the libraries it compares against with
  \<open>errors.Is\<close>, \<open>errors.New\<close> and \<open>fmt.Errorf\<close> around one \<open>%w\<close>.
\<close>

datatype err =
    ErrNotFound | ErrAlreadyExists | ErrInvalidInput | ErrInternalServer
  | ErrInvalidCredentials | ErrUnauthorized
  | ErrHandlerNotFound | ErrQueueClosed
  | ErrInvalidToken | ErrExpiredToken
  | GormErrRecordNotFound | RedisNil | JwtErrTokenExpired | CtxErr
  | ErrNew string
  | Errorf string err string

fun error_text :: "err \<Rightarrow> string" where
  "error_text ErrNotFound = ''record not found''"
| "error_text ErrAlreadyExists = ''record already exists''"
| "error_text ErrInvalidInput = ''invalid input data''"
| "error_text ErrInternalServer = ''internal server error''"
| "error_text ErrInvalidCredentials = ''invalid email or password''"
| "error_text ErrUnauthorized = ''unauthorized''"
| "error_text ErrHandlerNotFound = ''queue: handler not registered for job''"
| "error_text ErrQueueClosed = ''queue: queue has been closed''"
| "error_text ErrInvalidToken = ''invalid or malformed token''"
| "error_text ErrExpiredToken = ''token has expired''"
| "error_text GormErrRecordNotFound = ''record not found''"
| "error_text RedisNil = ''redis: nil''"
| "error_text JwtErrTokenExpired = ''token is expired''"
| "error_text CtxErr = ''context canceled''"
| "error_text (ErrNew s) = s"
| "error_text (Errorf pre e post) = pre @ error_text e @ post"

fun errors_is :: "err \<Rightarrow> err \<Rightarrow> bool" where
  "errors_is (Errorf pre e post) t = (Errorf pre e post = t \<or> errors_is e t)"
| "errors_is e t = (e = t)"

section \<open>Contexts and outcomes\<close>

datatype go_context = Background | RequestContext | WithTimeout go_context duration

datatype 'a outcome = Ret 'a | Panic string

fun bind_outcome :: "'a outcome \<Rightarrow> ('a \<Rightarrow> 'b outcome) \<Rightarrow> 'b outcome" where
  "bind_outcome (Ret x) f = f x"
| "bind_outcome (Panic m) f = Panic m"

fun returns :: "'a outcome \<Rightarrow> bool" where
  "returns (Ret x) = True"
| "returns (Panic m) = False"

section \<open>Sets of goroutines\<close>

text \<open>The goroutines that sleep are a list; the one that wakes up leaves it.\<close>

definition remove_at :: "nat \<Rightarrow> 'a list \<Rightarrow> 'a list" where
  "remove_at i xs = take i xs @ drop (Suc i) xs"

section \<open>Lemmas on integers\<close>

lemma wrap64_bounds: "- (2 ^ 63) \<le> wrap64 x \<and> wrap64 x < 2 ^ 63"
proof -
  have "0 \<le> (x + 2 ^ 63) mod 2 ^ 64" "(x + 2 ^ 63) mod 2 ^ 64 < 2 ^ 64" by simp_all
  then show ?thesis unfolding wrap64_def by simp
qed

lemma wrap64_id [simp]: "- (2 ^ 63) \<le> x \<Longrightarrow> x < 2 ^ 63 \<Longrightarrow> wrap64 x = x"
  unfolding wrap64_def by (subst mod_pos_pos_trivial) auto

lemma wrap64_idem [simp]: "wrap64 (wrap64 x) = wrap64 x"
  using wrap64_bounds [of x] by (intro wrap64_id) simp_all

lemma wrap64_shift: "wrap64 (x + 2 ^ 64) = wrap64 x"
proof -
  have "x + 2 ^ 64 + 2 ^ 63 = (x + 2 ^ 63) + 2 ^ 64" by simp
  then show ?thesis unfolding wrap64_def by (simp only: mod_add_self2)
qed

lemma go_shl1_small: "0 \<le> n \<Longrightarrow> n < 63 \<Longrightarrow> go_shl1 n = Some (2 ^ nat n)"
proof -
  assume "0 \<le> n" "n < 63"
  then have "nat n < 63" by simp
  then have "(2::int) ^ nat n < 2 ^ 63" by (rule power_strict_increasing) simp
  moreover have "- (2 ^ 63) \<le> (2::int) ^ nat n"
    by (rule order_trans [of _ 0]) simp_all
  ultimately have "wrap64 (2 ^ nat n) = 2 ^ nat n" by (rule wrap64_id [rotated])
  with \<open>0 \<le> n\<close> show ?thesis by (simp add: go_shl1_def)
qed

lemma go_shl1_nonneg: "0 \<le> n \<Longrightarrow> \<exists>v. go_shl1 n = Some v"
  by (simp add: go_shl1_def)

lemma go_quot_pos:
  assumes "0 \<le> a" "a < 2 ^ 63" "0 < b"
  shows "go_quot a b = a div b"
proof -
  have "a div b \<le> a" using assms by (simp add: div_le_dividend zdiv_mono2 [of a 1 b, simplified])
  moreover have "0 \<le> a div b" using assms by (simp add: pos_imp_zdiv_nonneg_iff)
  ultimately have "wrap64 (a div b) = a div b"
    using assms by (intro wrap64_id) auto
  moreover have "sgn a * sgn b * (\<bar>a\<bar> div \<bar>b\<bar>) = a div b"
    using assms by (cases "a = 0") simp_all
  ultimately show ?thesis by (simp add: go_quot_def)
qed

section \<open>Lemmas on strings\<close>

lemma dropWhile_id_iff: "dropWhile P xs = xs \<longleftrightarrow> xs = [] \<or> \<not> P (hd xs)"
proof (cases xs)
  case (Cons x ys)
  have "length (dropWhile P ys) \<noteq> length (x # ys)"
    using length_dropWhile_le [of P ys] by simp
  then have "dropWhile P ys \<noteq> x # ys" by metis
  with Cons show ?thesis by simp
qed simp

lemma in_dropWhile: "c \<in> set (dropWhile P xs) \<Longrightarrow> c \<in> set xs"
  by (drule set_dropWhileD) simp

lemma dropWhile_all_iff: "(\<forall>c \<in> set (dropWhile P s). P c) \<longleftrightarrow> (\<forall>c \<in> set s. P c)"
  by (induction s) auto

lemma trim_where_empty_iff: "trim_where P s = [] \<longleftrightarrow> (\<forall>c \<in> set s. P c)"
proof -
  have "(\<forall>c \<in> set (dropWhile P s). P c) \<longleftrightarrow> (\<forall>c \<in> set s. P c)"
    by (rule dropWhile_all_iff)
  then show ?thesis
    unfolding trim_where_def by (simp only: rev_is_Nil_conv dropWhile_eq_Nil_conv set_rev)
qed

lemma trim_where_last: "trim_where P s \<noteq> [] \<Longrightarrow> \<not> P (last (trim_where P s))"
  unfolding trim_where_def by (metis hd_dropWhile last_rev rev_is_Nil_conv)

lemma suffix_free_dropWhile_rev:
  "xs \<noteq> [] \<Longrightarrow> \<not> P (hd xs) \<Longrightarrow> rev (dropWhile P (rev xs)) \<noteq> [] \<and> hd (rev (dropWhile P (rev xs))) = hd xs"
proof (cases xs)
  case (Cons x ys)
  assume "\<not> P (hd xs)"
  with Cons have "dropWhile P (rev ys @ [x]) = dropWhile P (rev ys) @ [x]"
    by (induction "rev ys" arbitrary: ys) (auto simp: dropWhile_append3 dropWhile_append)
  with Cons show ?thesis by simp
qed simp

lemma trim_where_first: "trim_where P s \<noteq> [] \<Longrightarrow> \<not> P (hd (trim_where P s))"
proof -
  assume ne: "trim_where P s \<noteq> []"
  have "dropWhile P s \<noteq> []"
  proof
    assume "dropWhile P s = []"
    then have "trim_where P s = []" by (simp only: trim_where_def) simp
    with ne show False ..
  qed
  moreover from this have "\<not> P (hd (dropWhile P s))" by (rule hd_dropWhile)
  ultimately show ?thesis
    unfolding trim_where_def using suffix_free_dropWhile_rev by metis
qed

lemma trim_where_idem: "trim_where P (trim_where P s) = trim_where P s"
proof (cases "trim_where P s = []")
  case True
  show ?thesis unfolding True by (simp add: trim_where_def)
next
  case False
  let ?t = "trim_where P s"
  have "dropWhile P ?t = ?t"
    using trim_where_first [OF False] by (simp add: dropWhile_id_iff)
  moreover have "dropWhile P (rev ?t) = rev ?t"
    using trim_where_last [OF False] False by (simp add: dropWhile_id_iff hd_rev)
  ultimately show ?thesis unfolding trim_where_def [of P ?t] by simp
qed

lemma set_trim_where: "set (trim_where P s) \<subseteq> set s"
  unfolding trim_where_def by (auto dest!: in_dropWhile)

lemma trim_space_idem [simp]: "trim_space (trim_space s) = trim_space s"
  by (simp add: trim_space_def trim_where_idem)

lemma trim_space_Nil [simp]: "trim_space [] = []"
  by (simp add: trim_space_def trim_where_def)

lemma split_on_nonempty [simp]: "split_on c s \<noteq> []"
  by (induction s) (auto split: list.splits)

lemma join_Cons: "ys \<noteq> [] \<Longrightarrow> join sep (x # ys) = x @ sep @ join sep ys"
  by (cases ys) auto

lemma join_Cons_cons: "join sep ((x # p) # ps) = x # join sep (p # ps)"
  by (cases ps) auto

lemma join_split_on: "join [c] (split_on c s) = s"
proof (induction s)
  case (Cons x xs)
  obtain p ps where ps: "split_on c xs = p # ps"
    by (metis neq_Nil_conv split_on_nonempty)
  with Cons show ?case
    by (auto simp: join_Cons join_Cons_cons)
qed simp

lemma split_on_parts: "p \<in> set (split_on c s) \<Longrightarrow> c \<notin> set p"
proof (induction s arbitrary: p)
  case (Cons x xs)
  obtain q qs where qs: "split_on c xs = q # qs"
    by (metis neq_Nil_conv split_on_nonempty)
  from Cons.prems qs show ?case
    using Cons.IH by (auto split: if_splits)
qed simp

lemma split_on_single: "c \<notin> set s \<Longrightarrow> split_on c s = [s]"
  by (induction s) auto

lemma split_on_append:
  "c \<notin> set s \<Longrightarrow> split_on c (s @ c # t) = s # split_on c t"
  by (induction s) (auto split: list.splits)

lemma split_2_length: "length (split_2 c s) = 2 \<longleftrightarrow> c \<in> set s"
  by (auto simp: split_2_def Let_def takeWhile_eq_all_conv)

lemma split_2_sep: "c \<notin> set s \<Longrightarrow> split_2 c (s @ c # t) = [s, t]"
proof -
  assume "c \<notin> set s"
  then have "takeWhile (\<lambda>x. x \<noteq> c) (s @ c # t) = s"
    by (induction s) auto
  then show ?thesis by (simp add: split_2_def)
qed

lemma lower_char_idem [simp]: "lower_char (lower_char c) = lower_char c"
proof (cases "65 \<le> (of_char c :: nat) \<and> (of_char c :: nat) \<le> 90")
  case True
  then have "(of_char (char_of ((of_char c :: nat) + 32)) :: nat) = of_char c + 32"
    by (simp add: of_char_of)
  with True show ?thesis by (simp add: lower_char_def Let_def)
next
  case False
  then have "lower_char c = c" by (simp only: lower_char_def Let_def if_False)
  then show ?thesis by simp
qed

lemma to_lower_idem [simp]: "to_lower (to_lower s) = to_lower s"
  by (simp add: to_lower_def)

lemma to_lower_Nil_iff [simp]: "to_lower s = [] \<longleftrightarrow> s = []"
  by (simp add: to_lower_def)

section \<open>Lemmas on errors and outcomes\<close>

lemma errors_is_refl [simp]: "errors_is e e"
  by (cases e) auto

lemma errors_is_wrap [simp]: "errors_is e t \<Longrightarrow> errors_is (Errorf pre e post) t"
  by simp

lemma ex_bool_simps [simp]: "\<exists>b. \<not> b" "\<exists>b. b"
  by (rule exI [of _ False], simp) (rule exI [of _ True], simp)

lemma single_map_eq [simp]: "[i \<mapsto> a] = [i \<mapsto> b] \<longleftrightarrow> a = b"
  by (metis fun_upd_same option.inject)

lemma single_map_eq_if [simp]: "[i \<mapsto> a] = (\<lambda>x. if x = i then Some b else None) \<longleftrightarrow> a = b"
  by (auto simp: fun_eq_iff)

lemma returns_iff: "returns r \<longleftrightarrow> (\<exists>x. r = Ret x)"
  by (cases r) auto

lemma bind_outcome_Ret_iff [simp]: "bind_outcome r f = Ret y \<longleftrightarrow> (\<exists>x. r = Ret x \<and> f x = Ret y)"
  by (cases r) auto

lemma returns_bind [simp]: "returns (bind_outcome r f) \<longleftrightarrow> (\<exists>x. r = Ret x \<and> returns (f x))"
  by (cases r) auto

end
