(* ===== verification/Domain.thy ===== *)
theory Domain
  imports Go_Prelude
begin

text \<open>
  The domain layer, \<open>internal/domain\<close>: the user entity with its request and response DTOs,
  the persistent job record, the payload of the welcome mail, and the repository contract
  \<open>UserRepository\<close> as a record of operations over an abstract repository state. The error
  sentinels of \<open>errors.go\<close> are constructors of \<open>err\<close> in \<open>Go_Prelude\<close>.

  The struct tags of the DTOs (\<open>binding:"required,min=2,max=100"\<close>) are the predicates
  \<open>create_user_request_ok\<close> and the like; \<open>email\<close> is a check of the validator library and
  is an argument.
\<close>

section \<open>Users\<close>

record user =
  user_ID :: string
  user_Name :: string
  user_Email :: string
  user_Password :: string
  user_CreatedAt :: instant
  user_UpdatedAt :: instant

record create_user_request =
  cur_Name :: string
  cur_Email :: string
  cur_Password :: string

record update_user_request =
  uur_Name :: string
  uur_Email :: string

record login_request =
  lr_Email :: string
  lr_Password :: string

record user_response =
  ur_ID :: string
  ur_Name :: string
  ur_Email :: string
  ur_CreatedAt :: instant
  ur_UpdatedAt :: instant

record login_response =
  lresp_Token :: string
  lresp_User :: user_response

definition ToResponse :: "user \<Rightarrow> user_response" where
  "ToResponse u =
     \<lparr>ur_ID = user_ID u, ur_Name = user_Name u, ur_Email = user_Email u,
      ur_CreatedAt = user_CreatedAt u, ur_UpdatedAt = user_UpdatedAt u\<rparr>"

text \<open>
  The \<open>binding\<close> tags. \<open>omitempty\<close> skips the checks of an empty field; \<open>min\<close> and \<open>max\<close> of a
  string count its characters, not its bytes.
\<close>

definition create_user_request_ok :: "(string \<Rightarrow> bool) \<Rightarrow> create_user_request \<Rightarrow> bool" where
  "create_user_request_ok is_email r \<longleftrightarrow>
     2 \<le> rune_count (cur_Name r) \<and> rune_count (cur_Name r) \<le> 100 \<and>
     cur_Email r \<noteq> [] \<and> is_email (cur_Email r) \<and>
     6 \<le> rune_count (cur_Password r)"

definition update_user_request_ok :: "(string \<Rightarrow> bool) \<Rightarrow> update_user_request \<Rightarrow> bool" where
  "update_user_request_ok is_email r \<longleftrightarrow>
     (uur_Name r = [] \<or> 2 \<le> rune_count (uur_Name r) \<and> rune_count (uur_Name r) \<le> 100) \<and>
     (uur_Email r = [] \<or> is_email (uur_Email r))"

definition login_request_ok :: "(string \<Rightarrow> bool) \<Rightarrow> login_request \<Rightarrow> bool" where
  "login_request_ok is_email r \<longleftrightarrow>
     lr_Email r \<noteq> [] \<and> is_email (lr_Email r) \<and> lr_Password r \<noteq> []"

section \<open>Jobs\<close>

record job_record =
  job_ID :: nat
  job_Queue :: string
  job_Name :: string
  job_Payload :: string
  job_Attempts :: int
  job_MaxAttempts :: int
  job_ReservedAt :: "instant option"
  job_AvailableAt :: instant
  job_Status :: string
  job_LastError :: string
  job_CreatedAt :: instant
  job_UpdatedAt :: instant

definition TableName :: string where
  "TableName = ''jobs''"

definition JobWelcomeEmail :: string where
  "JobWelcomeEmail = ''email:welcome''"

record welcome_email_payload =
  wep_UserID :: string
  wep_Email :: string
  wep_UserName :: string

datatype entity = UserEntity | JobRecordEntity

definition Entities :: "entity list" where
  "Entities = [UserEntity, JobRecordEntity]"

section \<open>The repository contract\<close>

text \<open>
  \<open>domain.UserRepository\<close> over a repository state. The readers return an error or a user
  (in Go a pointer that is non-nil exactly when the error is nil).
\<close>

record 'r user_repository_ops =
  repo_Create :: "'r \<Rightarrow> user \<Rightarrow> 'r \<times> err option"
  repo_FindByID :: "'r \<Rightarrow> string \<Rightarrow> err + user"
  repo_FindByEmail :: "'r \<Rightarrow> string \<Rightarrow> err + user"
  repo_FindAll :: "'r \<Rightarrow> int \<Rightarrow> int \<Rightarrow> err + (user list \<times> int)"
  repo_Update :: "'r \<Rightarrow> user \<Rightarrow> 'r \<times> err option"
  repo_Delete :: "'r \<Rightarrow> string \<Rightarrow> 'r \<times> err option"

section \<open>Lemmas\<close>

lemma ToResponse_simps [simp]:
  "ur_ID (ToResponse u) = user_ID u"
  "ur_Name (ToResponse u) = user_Name u"
  "ur_Email (ToResponse u) = user_Email u"
  "ur_CreatedAt (ToResponse u) = user_CreatedAt u"
  "ur_UpdatedAt (ToResponse u) = user_UpdatedAt u"
  by (simp_all add: ToResponse_def)

lemma ToResponse_password: "ToResponse (u\<lparr>user_Password := p\<rparr>) = ToResponse u"
  by (simp add: ToResponse_def)

end
