(* ===== verification/Queue_Core.thy ===== *)
theory Queue_Core
  imports Domain
begin

text \<open>
  \<open>pkg/queue/queue.go\<close>: the handler registry, the marshalling of payloads, the execution of
  one job, and the contract \<open>Queue\<close> every driver implements. A handler is a function of the
  context, the payload and the world it acts on (mail server, database, counters of a test);
  the world's type \<open>'w\<close> is a parameter throughout. It returns an error or none, or panics: no
  driver recovers, so the panic goes up to whoever called \<open>ExecuteJob\<close>, with what the handler did to
  the world until then. \<open>json.Marshal\<close> of the payload type is the
  argument \<open>marshal\<close>. Log output is not modelled.

  \<open>driver_sync.go\<close> is modelled here too: it is \<open>ExecuteJob\<close> behind \<open>MarshalPayload\<close>.
\<close>

section \<open>The handler registry\<close>

type_synonym 'w handler = "go_context \<Rightarrow> string \<Rightarrow> 'w \<Rightarrow> 'w \<times> err option outcome"

record 'w registry =
  handlers :: "string \<rightharpoonup> 'w handler"

definition NewRegistry :: "'w registry" where
  "NewRegistry = \<lparr>handlers = Map.empty\<rparr>"

definition Register :: "'w registry \<Rightarrow> string \<Rightarrow> 'w handler \<Rightarrow> 'w registry" where
  "Register r name h = r\<lparr>handlers := (handlers r)(name \<mapsto> h)\<rparr>"

definition Get :: "'w registry \<Rightarrow> string \<Rightarrow> 'w handler option" where
  "Get r name = handlers r name"

text \<open>Constructors replace a nil registry by a fresh one.\<close>

definition registry_or_new :: "'w registry option \<Rightarrow> 'w registry" where
  "registry_or_new reg = (case reg of None \<Rightarrow> NewRegistry | Some r \<Rightarrow> r)"

section \<open>Payloads and execution\<close>

datatype 'v payload = NilPayload | Bytes string | Str string | Val 'v

definition MarshalPayload :: "('v \<Rightarrow> err + string) \<Rightarrow> 'v payload \<Rightarrow> err + string" where
  "MarshalPayload marshal p =
     (case p of
        NilPayload \<Rightarrow> Inr ''{}''
      | Bytes v \<Rightarrow> Inr v
      | Str v \<Rightarrow> Inr v
      | Val v \<Rightarrow> (case marshal v of
            Inl e \<Rightarrow> Inl (Errorf ''queue: failed to marshal payload: '' e [])
          | Inr raw \<Rightarrow> Inr raw))"

definition ExecuteJob ::
  "go_context \<Rightarrow> 'w registry \<Rightarrow> string \<Rightarrow> string \<Rightarrow> 'w \<Rightarrow> 'w \<times> err option outcome" where
  "ExecuteJob ctx reg jobName raw w =
     (case Get reg jobName of
        None \<Rightarrow> (w, Ret (Some (Errorf [] ErrHandlerNotFound ('': '' @ jobName))))
      | Some h \<Rightarrow> h ctx raw w)"

text \<open>No handler of the registry panics, whatever it is called with.\<close>

definition no_panics :: "'w registry \<Rightarrow> bool" where
  "no_panics reg \<longleftrightarrow> (\<forall>ctx n raw w. returns (snd (ExecuteJob ctx reg n raw w)))"

text \<open>The deadline every worker gives the handler it calls.\<close>

definition job_context :: go_context where
  "job_context = WithTimeout Background (60 * second)"

section \<open>The synchronous driver\<close>

record 'w sync_driver =
  sync_registry :: "'w registry"

definition NewSyncDriver :: "'w registry option \<Rightarrow> 'w sync_driver" where
  "NewSyncDriver reg = \<lparr>sync_registry = registry_or_new reg\<rparr>"

definition sync_Dispatch ::
  "('v \<Rightarrow> err + string) \<Rightarrow> 'w sync_driver \<Rightarrow> go_context \<Rightarrow> string \<Rightarrow> 'v payload \<Rightarrow> 'w \<Rightarrow>
   'w \<times> err option outcome" where
  "sync_Dispatch marshal s ctx name p w =
     (case MarshalPayload marshal p of
        Inl e \<Rightarrow> (w, Ret (Some e))
      | Inr raw \<Rightarrow> ExecuteJob ctx (sync_registry s) name raw w)"

text \<open>
  A positive delay waits for the timer or for the caller's context, whichever is first;
  \<open>cancelled\<close> says that the context won.
\<close>

definition sync_DispatchDelayed ::
  "('v \<Rightarrow> err + string) \<Rightarrow> 'w sync_driver \<Rightarrow> go_context \<Rightarrow> string \<Rightarrow> 'v payload \<Rightarrow> duration \<Rightarrow>
   bool \<Rightarrow> 'w \<Rightarrow> 'w \<times> err option outcome" where
  "sync_DispatchDelayed marshal s ctx name p delay cancelled w =
     (if delay > 0 \<and> cancelled then (w, Ret (Some CtxErr))
      else sync_Dispatch marshal s ctx name p w)"

definition sync_RegisterHandler :: "'w sync_driver \<Rightarrow> string \<Rightarrow> 'w handler \<Rightarrow> 'w sync_driver" where
  "sync_RegisterHandler s name h = s\<lparr>sync_registry := Register (sync_registry s) name h\<rparr>"

definition sync_Close :: "'w sync_driver \<Rightarrow> 'w sync_driver \<times> err option" where
  "sync_Close s = (s, None)"

definition sync_Start :: "'w sync_driver \<Rightarrow> 'w sync_driver \<times> err option" where
  "sync_Start s = (s, None)"

definition sync_Stop :: "'w sync_driver \<Rightarrow> duration \<Rightarrow> 'w sync_driver \<times> err option" where
  "sync_Stop s timeout = (s, None)"

section \<open>The contract of a queue driver\<close>

text \<open>
  What a caller of \<open>Queue\<close> relies on, whichever driver the factory chose: dispatching never
  changes which handlers are registered, registering adds exactly one, and a payload that
  cannot be marshalled is refused with an error and leaves the queue as it was. The state
  \<open>'q\<close> holds the driver and everything it works on.
\<close>

locale queue_driver =
  fixes registry_of :: "'q \<Rightarrow> 'w registry"
    and dispatch :: "'q \<Rightarrow> go_context \<Rightarrow> string \<Rightarrow> 'v payload \<Rightarrow> ('q \<times> err option) outcome"
    and register :: "'q \<Rightarrow> string \<Rightarrow> 'w handler \<Rightarrow> 'q"
    and marshal :: "'v \<Rightarrow> err + string"
  assumes register_registry: "registry_of (register q name h) = Register (registry_of q) name h"
    and dispatch_registry: "dispatch q ctx name p = Ret (q', e) \<Longrightarrow> registry_of q' = registry_of q"
    and dispatch_marshal_error:
      "MarshalPayload marshal p = Inl me \<Longrightarrow> \<exists>e'. dispatch q ctx name p = Ret (q, Some e')"

section \<open>Lemmas\<close>

lemma Get_New [simp]: "Get NewRegistry name = None"
  by (simp add: Get_def NewRegistry_def)

lemma Get_Register [simp]:
  "Get (Register r n h) name = (if name = n then Some h else Get r name)"
  by (simp add: Get_def Register_def)

lemma registry_or_new_simps [simp]:
  "registry_or_new None = NewRegistry" "registry_or_new (Some r) = r"
  by (simp_all add: registry_or_new_def)

lemma ExecuteJob_unregistered:
  "Get reg n = None \<Longrightarrow> ExecuteJob ctx reg n raw w = (w, Ret (Some (Errorf [] ErrHandlerNotFound ('': '' @ n))))"
  by (simp add: ExecuteJob_def)

lemma no_panicsD: "no_panics reg \<Longrightarrow> \<exists>w' res. ExecuteJob ctx reg n raw w = (w', Ret res)"
  unfolding no_panics_def by (metis prod.collapse returns.elims(2))

lemma ExecuteJob_registered: "Get reg n = Some h \<Longrightarrow> ExecuteJob ctx reg n raw w = h ctx raw w"
  by (simp add: ExecuteJob_def)

context queue_driver
begin

lemma registered_is_found: "Get (registry_of (register q name h)) name = Some h"
  by (simp add: register_registry)

lemma register_keeps: "n \<noteq> name \<Longrightarrow> Get (registry_of (register q name h)) n = Get (registry_of q) n"
  by (simp add: register_registry)

text \<open>A handler registered once is found by every later execution, whatever was dispatched since.\<close>

lemma dispatch_keeps_handler:
  "dispatch q ctx name p = Ret (q', e) \<Longrightarrow> Get (registry_of q') n = Get (registry_of q) n"
  by (simp add: dispatch_registry)

lemma dispatched_job_runs:
  assumes "dispatch (register q name h) ctx name p = Ret (q', e)"
  shows "ExecuteJob c (registry_of q') name raw w = h c raw w"
  using assms by (simp add: ExecuteJob_registered dispatch_keeps_handler registered_is_found)

end

section \<open>The synchronous driver implements the contract\<close>

text \<open>The driver's state is the driver itself with the world its handlers act on.\<close>

definition sync_queue_dispatch ::
  "('v \<Rightarrow> err + string) \<Rightarrow> 'w sync_driver \<times> 'w \<Rightarrow> go_context \<Rightarrow> string \<Rightarrow> 'v payload \<Rightarrow>
   (('w sync_driver \<times> 'w) \<times> err option) outcome" where
  "sync_queue_dispatch marshal q ctx name p =
     (let (w', r) = sync_Dispatch marshal (fst q) ctx name p (snd q) in
      bind_outcome r (\<lambda>e. Ret ((fst q, w'), e)))"

interpretation sync_queue:
  queue_driver "\<lambda>q. sync_registry (fst q)" "sync_queue_dispatch marshal"
    "\<lambda>q name h. (sync_RegisterHandler (fst q) name h, snd q)" marshal
  for marshal :: "'v \<Rightarrow> err + string"
  by unfold_locales
    (auto simp: sync_RegisterHandler_def sync_queue_dispatch_def sync_Dispatch_def
      split: prod.splits)

lemma sync_dispatch_cases:
  "sync_Dispatch marshal s ctx name p w =
     (case MarshalPayload marshal p of
        Inl e \<Rightarrow> (w, Ret (Some e))
      | Inr raw \<Rightarrow>
          (case Get (sync_registry s) name of
             None \<Rightarrow> (w, Ret (Some (Errorf [] ErrHandlerNotFound ('': '' @ name))))
           | Some h \<Rightarrow> h ctx raw w))"
  by (simp add: sync_Dispatch_def ExecuteJob_def split: sum.splits)

end
