(* ===== verification/Job_Store.thy ===== *)
theory Job_Store
  imports Domain
begin

text \<open>
  The SQL table \<open>jobs\<close> as \<open>pkg/queue/driver_database.go\<close> uses it through GORM. GORM and the
  database are not part of the repository: \<open>job_db\<close> is a record of the calls the driver makes,
  an argument of every definition of the driver, over an abstract database state \<open>'d\<close>. The
  locale \<open>job_store\<close> states the documented behaviour of these calls on the contents of the
  table (\<open>table d i\<close> is the row with primary key \<open>i\<close>):

  \<^item> \<open>Create\<close> inserts the record under a new auto-increment key;
  \<^item> \<open>Where(..).Order(..).Limit(1).Find\<close> returns a row that satisfies the condition and has
    the least sort key of those that do, or no row if none does;
  \<^item> \<open>Save\<close> writes all fields under the record's key, inserting the row if it is missing;
  \<^item> \<open>Transaction\<close> runs its body and commits, or leaves the database unchanged;
  \<^item> \<open>Delete\<close> and \<open>Updates\<close> by key change that row only.
  Every call may fail with an error, and then changes nothing.

  \<open>reliable_job_store\<close> adds that no call fails. \<open>mem_job_db\<close> is a table in memory that
  meets both contracts, so that they can hold; the witnesses of the driver's properties run on it.
\<close>

section \<open>The calls\<close>

record 'd job_db =
  jdb_Create :: "go_context \<Rightarrow> 'd \<Rightarrow> job_record \<Rightarrow> 'd \<times> (err + nat)"
  jdb_Find :: "'d \<Rightarrow> (job_record \<Rightarrow> bool) \<Rightarrow> (job_record \<Rightarrow> instant \<times> nat) \<Rightarrow> err + job_record option"
  jdb_Save :: "'d \<Rightarrow> job_record \<Rightarrow> 'd \<times> err option"
  jdb_Transaction :: "('d \<Rightarrow> err + ('d \<times> job_record)) \<Rightarrow> 'd \<Rightarrow> 'd \<times> (err + job_record)"
  jdb_Delete :: "'d \<Rightarrow> nat \<Rightarrow> 'd \<times> err option"
  jdb_Updates :: "'d \<Rightarrow> nat \<Rightarrow> (job_record \<Rightarrow> job_record) \<Rightarrow> 'd \<times> err option"

section \<open>The contract\<close>

locale job_store =
  fixes D :: "'d job_db"
    and table :: "'d \<Rightarrow> nat \<rightharpoonup> job_record"
  assumes table_key: "table d i = Some j \<Longrightarrow> job_ID j = i"
    and table_finite: "finite (dom (table d))"
    and create_ok: "jdb_Create D c d j = (d', Inr i) \<Longrightarrow>
      table d i = None \<and> table d' = (table d)(i \<mapsto> j\<lparr>job_ID := i\<rparr>)"
    and create_err: "jdb_Create D c d j = (d', Inl ce) \<Longrightarrow> table d' = table d"
    and find_some: "jdb_Find D d P key = Inr (Some j) \<Longrightarrow>
      table d (job_ID j) = Some j \<and> P j \<and>
      (\<forall>i k. table d i = Some k \<longrightarrow> P k \<longrightarrow> key j \<le> key k)"
    and find_none: "jdb_Find D d P key = Inr None \<Longrightarrow> table d i = Some k \<Longrightarrow> \<not> P k"
    and save_ok: "jdb_Save D d j = (d', None) \<Longrightarrow> table d' = (table d)(job_ID j \<mapsto> j)"
    and transaction: "jdb_Transaction D f d = (d', r) \<Longrightarrow>
      (\<exists>j. f d = Inr (d', j) \<and> r = Inr j) \<or> (\<exists>te. d' = d \<and> r = Inl te)"
    and delete_ok: "jdb_Delete D d i = (d', None) \<Longrightarrow> table d' = (table d)(i := None)"
    and delete_err: "jdb_Delete D d i = (d', Some de) \<Longrightarrow> table d' = table d"
    and updates_ok: "jdb_Updates D d i g = (d', None) \<Longrightarrow> (\<And>k. job_ID (g k) = job_ID k) \<Longrightarrow>
      table d' = (table d)(i := map_option g (table d i))"
    and updates_err: "jdb_Updates D d i g = (d', Some ue) \<Longrightarrow> table d' = table d"

locale reliable_job_store = job_store +
  assumes create_up: "\<exists>d' i. jdb_Create D c d j = (d', Inr i)"
    and find_up: "\<exists>r. jdb_Find D d P key = Inr r"
    and save_up: "\<exists>d'. jdb_Save D d j = (d', None)"
    and transaction_up: "f d = Inr (d', j) \<Longrightarrow> jdb_Transaction D f d = (d', Inr j)"
    and delete_up: "\<exists>d'. jdb_Delete D d i = (d', None)"
    and updates_up: "\<exists>d'. jdb_Updates D d i g = (d', None)"

section \<open>A table in memory\<close>

text \<open>Rows are kept in a map below the next free key; a row's key is its place.\<close>

record mem_table =
  mt_next :: nat
  mt_rows :: "nat \<rightharpoonup> job_record"

definition mem_rows :: "mem_table \<Rightarrow> nat \<rightharpoonup> job_record" where
  "mem_rows t i = (if i < mt_next t then map_option (\<lambda>j. j\<lparr>job_ID := i\<rparr>) (mt_rows t i) else None)"

fun least_by :: "('a \<Rightarrow> bool) \<Rightarrow> ('a \<Rightarrow> 'k::linorder) \<Rightarrow> 'a list \<Rightarrow> 'a option" where
  "least_by P key [] = None"
| "least_by P key (x # xs) =
     (case least_by P key xs of
        None \<Rightarrow> if P x then Some x else None
      | Some y \<Rightarrow> if P x \<and> key x \<le> key y then Some x else Some y)"

definition mem_list :: "mem_table \<Rightarrow> job_record list" where
  "mem_list t = List.map_filter (mem_rows t) [0..<mt_next t]"

definition mem_put :: "mem_table \<Rightarrow> nat \<Rightarrow> job_record option \<Rightarrow> mem_table" where
  "mem_put t i r = \<lparr>mt_next = max (mt_next t) (Suc i), mt_rows = (mem_rows t)(i := r)\<rparr>"

definition mem_job_db :: "mem_table job_db" where
  "mem_job_db =
     \<lparr>jdb_Create = (\<lambda>c t j. (mem_put t (mt_next t) (Some j), Inr (mt_next t))),
      jdb_Find = (\<lambda>t P key. Inr (least_by P key (mem_list t))),
      jdb_Save = (\<lambda>t j. (mem_put t (job_ID j) (Some j), None)),
      jdb_Transaction = (\<lambda>f t. case f t of Inl e \<Rightarrow> (t, Inl e) | Inr (t', j) \<Rightarrow> (t', Inr j)),
      jdb_Delete = (\<lambda>t i. (mem_put t i None, None)),
      jdb_Updates = (\<lambda>t i g. (mem_put t i (map_option g (mem_rows t i)), None))\<rparr>"

definition mem_empty :: mem_table where
  "mem_empty = \<lparr>mt_next = 1, mt_rows = Map.empty\<rparr>"

section \<open>Lemmas\<close>

lemma least_by_Some:
  "least_by P key xs = Some x \<Longrightarrow> x \<in> set xs \<and> P x \<and> (\<forall>y \<in> set xs. P y \<longrightarrow> key x \<le> key y)"
proof (induction xs arbitrary: x)
  case (Cons y ys)
  show ?case
  proof (cases "least_by P key ys")
    case None
    then have "\<forall>z \<in> set ys. \<not> P z"
    proof (induction ys)
      case (Cons z zs)
      then show ?case by (auto split: option.splits if_splits)
    qed simp
    with None Cons.prems show ?thesis by (auto split: if_splits)
  next
    case (Some z)
    with Cons.IH have "z \<in> set ys \<and> P z \<and> (\<forall>y \<in> set ys. P y \<longrightarrow> key z \<le> key y)" by simp
    with Some Cons.prems show ?thesis by (auto split: if_splits)
  qed
qed simp

lemma least_by_None: "least_by P key xs = None \<longleftrightarrow> (\<forall>x \<in> set xs. \<not> P x)"
  by (induction xs) (auto split: option.splits)

lemma mem_rows_dom: "mem_rows t i = Some j \<Longrightarrow> i < mt_next t \<and> job_ID j = i"
  by (auto simp: mem_rows_def split: if_splits)

lemma mem_list_set: "set (mem_list t) = ran (mem_rows t)"
proof -
  have "set (mem_list t) = {j. \<exists>i < mt_next t. mem_rows t i = Some j}"
    by (auto simp: mem_list_def List.map_filter_def) force
  also have "\<dots> = ran (mem_rows t)"
    by (auto simp: ran_def dest: mem_rows_dom)
  finally show ?thesis .
qed

lemma mem_rows_put:
  assumes "\<And>j. r = Some j \<Longrightarrow> job_ID j = i"
  shows "mem_rows (mem_put t i r) = (mem_rows t)(i := r)"
proof
  fix k
  have same: "map_option (\<lambda>j. j\<lparr>job_ID := k\<rparr>) (mem_rows t k) = mem_rows t k"
    by (cases "mem_rows t k") (auto dest: mem_rows_dom)
  have new: "map_option (\<lambda>j. j\<lparr>job_ID := i\<rparr>) r = r"
    using assms by (cases r) auto
  have put: "mem_rows (mem_put t i r) k =
      (if k < max (mt_next t) (Suc i)
       then map_option (\<lambda>j. j\<lparr>job_ID := k\<rparr>) (((mem_rows t)(i := r)) k) else None)"
    by (subst mem_rows_def) (simp add: mem_put_def)
  have above: "mem_rows t k = None" if "\<not> k < mt_next t"
    using that by (simp add: mem_rows_def)
  show "mem_rows (mem_put t i r) k = ((mem_rows t)(i := r)) k"
    unfolding put using same new above by (cases "k = i") auto
qed

lemma mem_rows_put_new:
  "mem_rows (mem_put t i (Some j)) = (mem_rows t)(i \<mapsto> j\<lparr>job_ID := i\<rparr>)"
proof -
  have "mem_rows (mem_put t i (Some j)) = mem_rows (mem_put t i (Some (j\<lparr>job_ID := i\<rparr>)))"
    by (rule ext) (simp add: mem_rows_def mem_put_def)
  also have "\<dots> = (mem_rows t)(i \<mapsto> j\<lparr>job_ID := i\<rparr>)"
    by (rule mem_rows_put) simp
  finally show ?thesis .
qed

lemma mem_rows_empty [simp]: "mem_rows mem_empty = Map.empty"
  by (rule ext) (simp add: mem_rows_def mem_empty_def)

interpretation mem: reliable_job_store mem_job_db mem_rows
proof unfold_locales
  fix d
  show "finite (dom (mem_rows d))"
    by (rule finite_subset [of _ "{0..<mt_next d}"]) (auto dest: mem_rows_dom)
next
  fix d P key j
  assume "jdb_Find mem_job_db d P key = Inr (Some j)"
  then have "least_by P key (mem_list d) = Some j" by (simp add: mem_job_db_def)
  from least_by_Some [OF this]
  show "mem_rows d (job_ID j) = Some j \<and> P j \<and>
      (\<forall>i k. mem_rows d i = Some k \<longrightarrow> P k \<longrightarrow> key j \<le> key k)"
    by (auto simp: mem_list_set ran_def dest: mem_rows_dom)
next
  fix d P key i k
  assume "jdb_Find mem_job_db d P key = Inr None" "mem_rows d i = Some k"
  then show "\<not> P k"
    by (auto simp: mem_job_db_def least_by_None mem_list_set ran_def)
next
  fix d i and g :: "job_record \<Rightarrow> job_record" and d'
  assume "jdb_Updates mem_job_db d i g = (d', None)" "\<And>k. job_ID (g k) = job_ID k"
  then show "mem_rows d' = (mem_rows d)(i := map_option g (mem_rows d i))"
    by (auto simp: mem_job_db_def intro!: mem_rows_put dest: mem_rows_dom)
next
  fix d i d'
  assume "jdb_Delete mem_job_db d i = (d', None)"
  then show "mem_rows d' = (mem_rows d)(i := None)"
    by (auto simp: mem_job_db_def intro!: mem_rows_put)
next
  fix c d j d' i
  assume "jdb_Create mem_job_db c d j = (d', Inr i)"
  then show "mem_rows d i = None \<and> mem_rows d' = (mem_rows d)(i \<mapsto> j\<lparr>job_ID := i\<rparr>)"
    by (auto simp: mem_job_db_def mem_rows_put_new) (simp add: mem_rows_def)
next
  fix d j d'
  assume "jdb_Save mem_job_db d j = (d', None)"
  then show "mem_rows d' = (mem_rows d)(job_ID j \<mapsto> j)"
    by (auto simp: mem_job_db_def intro!: mem_rows_put)
qed (auto simp: mem_job_db_def split: sum.splits prod.splits dest: mem_rows_dom)

end
