(* ===== verification/Lifecycle.thy ===== *)
theory Lifecycle
  imports Go_Prelude
begin

text \<open>
  The contract \<open>Start\<close>/\<open>Stop\<close> that the database, Redis and memory drivers of
  \<open>pkg/queue\<close> and the pool of \<open>pkg/worker\<close> share: a \<open>running\<close> flag under a mutex,
  a \<open>quit\<close> channel that \<open>Stop\<close> closes, and a wait group that \<open>Stop\<close> waits for up to a
  timeout. \<open>stop b\<close> is a call of \<open>Stop\<close> in which the workers finish before the timeout
  exactly when \<open>b\<close> holds. Closing a closed channel panics, as in Go.
\<close>

locale worker_lifecycle =
  fixes running :: "'s \<Rightarrow> bool"
    and quit_closed :: "'s \<Rightarrow> bool"
    and start :: "'s \<Rightarrow> 's \<times> err option"
    and stop :: "bool \<Rightarrow> 's \<Rightarrow> ('s \<times> err option) outcome"
  assumes start_running: "running s \<Longrightarrow> start s = (s, None)"
    and start_idle: "\<not> running s \<Longrightarrow>
      running (fst (start s)) \<and> quit_closed (fst (start s)) = quit_closed s \<and> snd (start s) = None"
    and stop_idle: "\<not> running s \<Longrightarrow> stop b s = Ret (s, None)"
    and stop_running: "running s \<Longrightarrow> \<not> quit_closed s \<Longrightarrow>
      \<exists>s' e. stop b s = Ret (s', e) \<and> \<not> running s' \<and> quit_closed s'"
    and stop_closed: "running s \<Longrightarrow> quit_closed s \<Longrightarrow> \<exists>m. stop b s = Panic m"
begin

lemma start_runs: "running (fst (start s))"
  by (cases "running s") (simp_all add: start_running start_idle)

lemma start_no_error: "snd (start s) = None"
  by (cases "running s") (simp_all add: start_running start_idle)

lemma start_idem: "start (fst (start s)) = (fst (start s), None)"
  by (rule start_running) (rule start_runs)

lemma start_quit: "quit_closed (fst (start s)) = quit_closed s"
  by (cases "running s") (simp_all add: start_running start_idle)

text \<open>A stop that returned leaves nothing running; a second stop is a no-op.\<close>

lemma stop_not_running: "stop b s = Ret (s', e) \<Longrightarrow> \<not> running s'"
proof (cases "running s")
  case True
  assume ret: "stop b s = Ret (s', e)"
  show ?thesis
  proof (cases "quit_closed s")
    case True
    with \<open>running s\<close> ret show ?thesis using stop_closed [of s b] by auto
  next
    case False
    with \<open>running s\<close> ret show ?thesis using stop_running [of s b] by auto
  qed
next
  case False
  assume "stop b s = Ret (s', e)"
  with False show ?thesis using stop_idle [of s b] by auto
qed

lemma stop_twice: "stop b s = Ret (s', e) \<Longrightarrow> stop b' s' = Ret (s', None)"
  by (rule stop_idle) (rule stop_not_running)

text \<open>\<open>Stop\<close> panics exactly on a running instance whose \<open>quit\<close> is closed already.\<close>

lemma stop_returns_iff: "returns (stop b s) \<longleftrightarrow> \<not> (running s \<and> quit_closed s)"
proof (cases "running s")
  case True
  then show ?thesis
    using stop_running [of s b] stop_closed [of s b] by (cases "quit_closed s") auto
next
  case False
  then show ?thesis by (simp add: stop_idle)
qed

text \<open>No call of the interface re-opens \<open>quit\<close>: an instance cannot be restarted and stopped again.\<close>

lemma restart_stop_panics:
  assumes "running s" "\<not> quit_closed s" "stop b s = Ret (s', e)"
  shows "running (fst (start s'))" "quit_closed (fst (start s'))"
    "\<not> returns (stop b' (fst (start s')))"
proof -
  have "quit_closed s'"
    using stop_running [OF assms(1,2), of b] assms(3) by auto
  then show "quit_closed (fst (start s'))" by (simp add: start_quit)
  then show "\<not> returns (stop b' (fst (start s')))" by (simp add: stop_returns_iff start_runs)
  show "running (fst (start s'))" by (rule start_runs)
qed

lemma stopped_restart_panics:
  assumes "running s" "stop b s = Ret (s', e)"
  shows "snd (start s') = None \<and> running (fst (start s')) \<and> \<not> returns (stop b' (fst (start s')))"
proof -
  have "\<not> quit_closed s" using assms stop_returns_iff [of b s] by simp
  from restart_stop_panics [OF assms(1) this assms(2)] show ?thesis by (simp add: start_no_error)
qed

end

end
