(* ===== verification/Database_Driver.thy ===== *)
theory Database_Driver
  imports Queue_Core Job_Store Lifecycle
begin

text \<open>
  \<open>pkg/queue/driver_database.go\<close>: the persistent queue on the SQL table \<open>jobs\<close>. The calls
  into GORM are the record \<open>D\<close> of \<open>Job_Store\<close>; each \<open>time.Now().UTC()\<close> of the code is an
  argument. \<open>claim\<close> is the transaction of \<open>processNextJob\<close>, \<open>settle\<close> what it does with the
  claimed row after the handler returned; \<open>processNextJob\<close> composes them as the code does.
  \<open>workerLoop\<close> runs over a list of polls, each with what the worker sees in that turn: whether
  \<open>quit\<close> is closed, and the two clock readings.

  Lemmas: the claim takes the earliest due row and reserves it; the three ways a claimed row is
  settled; what a panic leaves; the table invariant; the exact retry delays and where they overflow; a
  bound on the number of executions; the life of a job whose handler always fails, or always panics.
\<close>

section \<open>The driver\<close>

record database_config =
  dc_QueueName :: string
  dc_Concurrency :: int
  dc_MaxAttempts :: int
  dc_PollInterval :: duration

record 'w database_driver =
  dd_queueName :: string
  dd_concurrency :: int
  dd_maxAttempts :: int
  dd_pollInterval :: duration
  dd_registry :: "'w registry"
  dd_quit :: bool \<comment> \<open>the channel is closed\<close>
  dd_wg :: nat
  dd_running :: bool

definition NewDatabaseDriver :: "database_config \<Rightarrow> 'w registry option \<Rightarrow> 'w database_driver" where
  "NewDatabaseDriver cfg reg =
     \<lparr>dd_queueName = (if dc_QueueName cfg = [] then ''default'' else dc_QueueName cfg),
      dd_concurrency = (if dc_Concurrency cfg \<le> 0 then 5 else dc_Concurrency cfg),
      dd_maxAttempts = (if dc_MaxAttempts cfg \<le> 0 then 3 else dc_MaxAttempts cfg),
      dd_pollInterval = (if dc_PollInterval cfg \<le> 0 then 1000 * millisecond else dc_PollInterval cfg),
      dd_registry = registry_or_new reg,
      dd_quit = False, dd_wg = 0, dd_running = False\<rparr>"

section \<open>Dispatching\<close>

definition new_job_record :: "'w database_driver \<Rightarrow> string \<Rightarrow> string \<Rightarrow> duration \<Rightarrow> instant \<Rightarrow> job_record" where
  "new_job_record drv name raw delay now =
     \<lparr>job_ID = 0, job_Queue = dd_queueName drv, job_Name = name, job_Payload = raw,
      job_Attempts = 0, job_MaxAttempts = dd_maxAttempts drv,
      job_ReservedAt = None,
      job_AvailableAt = (if delay > 0 then now + delay else now),
      job_Status = ''pending'', job_LastError = [],
      job_CreatedAt = now, job_UpdatedAt = now\<rparr>"

definition database_DispatchDelayed ::
  "'d job_db \<Rightarrow> ('v \<Rightarrow> err + string) \<Rightarrow> 'w database_driver \<Rightarrow> go_context \<Rightarrow> string \<Rightarrow> 'v payload \<Rightarrow>
   duration \<Rightarrow> instant \<Rightarrow> 'd \<Rightarrow> 'd \<times> err option" where
  "database_DispatchDelayed D marshal drv ctx name p delay now d =
     (case MarshalPayload marshal p of
        Inl e \<Rightarrow> (d, Some e)
      | Inr raw \<Rightarrow>
          (case jdb_Create D ctx d (new_job_record drv name raw delay now) of
             (d', Inl e) \<Rightarrow> (d', Some (Errorf ''queue: failed to insert database job: '' e []))
           | (d', Inr i) \<Rightarrow> (d', None)))"

definition database_Dispatch ::
  "'d job_db \<Rightarrow> ('v \<Rightarrow> err + string) \<Rightarrow> 'w database_driver \<Rightarrow> go_context \<Rightarrow> string \<Rightarrow> 'v payload \<Rightarrow>
   instant \<Rightarrow> 'd \<Rightarrow> 'd \<times> err option" where
  "database_Dispatch D marshal drv ctx name p now d =
     database_DispatchDelayed D marshal drv ctx name p 0 now d"

definition database_RegisterHandler ::
  "'w database_driver \<Rightarrow> string \<Rightarrow> 'w handler \<Rightarrow> 'w database_driver" where
  "database_RegisterHandler drv name h = drv\<lparr>dd_registry := Register (dd_registry drv) name h\<rparr>"

section \<open>Claiming a job\<close>

text \<open>The condition of the query; in SQL a comparison with a null \<open>reserved_at\<close> does not hold.\<close>

definition eligible :: "string \<Rightarrow> instant \<Rightarrow> job_record \<Rightarrow> bool" where
  "eligible q now j \<longleftrightarrow>
     job_Queue j = q \<and>
     (job_Status j = ''pending'' \<and> job_AvailableAt j \<le> now \<or>
      job_Status j = ''processing'' \<and>
        (case job_ReservedAt j of None \<Rightarrow> False | Some r \<Rightarrow> r < now - 10 * minute))"

text \<open>\<open>Order("available_at ASC, id ASC")\<close>\<close>

definition claim_key :: "job_record \<Rightarrow> instant \<times> nat" where
  "claim_key j = (job_AvailableAt j, job_ID j)"

definition reserve :: "instant \<Rightarrow> job_record \<Rightarrow> job_record" where
  "reserve now j =
     j\<lparr>job_Status := ''processing'', job_Attempts := wrap64 (job_Attempts j + 1),
       job_ReservedAt := Some now, job_UpdatedAt := now\<rparr>"

definition claim_body ::
  "'d job_db \<Rightarrow> string \<Rightarrow> instant \<Rightarrow> 'd \<Rightarrow> err + ('d \<times> job_record)" where
  "claim_body D q now d =
     (case jdb_Find D d (eligible q now) claim_key of
        Inl e \<Rightarrow> Inl e
      | Inr None \<Rightarrow> Inl GormErrRecordNotFound
      | Inr (Some j) \<Rightarrow>
          (case jdb_Save D d (reserve now j) of
             (d', Some e) \<Rightarrow> Inl e
           | (d', None) \<Rightarrow> Inr (d', reserve now j)))"

definition claim :: "'d job_db \<Rightarrow> string \<Rightarrow> instant \<Rightarrow> 'd \<Rightarrow> 'd \<times> (err + job_record)" where
  "claim D q now d = jdb_Transaction D (claim_body D q now) d"

section \<open>Settling a claimed job\<close>

text \<open>\<open>time.Duration(int(1 << attempts) * 2) * time.Second\<close>; a negative shift count panics.\<close>

definition retry_delay :: "int \<Rightarrow> duration option" where
  "retry_delay attempts = map_option (\<lambda>v. duration_of (wrap64 (v * 2)) second) (go_shl1 attempts)"

definition retry_fields :: "instant \<Rightarrow> err \<Rightarrow> instant \<Rightarrow> job_record \<Rightarrow> job_record" where
  "retry_fields availableAt e now j =
     j\<lparr>job_Status := ''pending'', job_AvailableAt := availableAt, job_ReservedAt := None,
       job_LastError := error_text e, job_UpdatedAt := now\<rparr>"

definition failed_fields :: "err \<Rightarrow> instant \<Rightarrow> job_record \<Rightarrow> job_record" where
  "failed_fields e now j =
     j\<lparr>job_Status := ''failed'', job_LastError := error_text e, job_UpdatedAt := now\<rparr>"

definition settle ::
  "'d job_db \<Rightarrow> instant \<Rightarrow> 'd \<Rightarrow> job_record \<Rightarrow> err option \<Rightarrow> 'd outcome" where
  "settle D now d job execErr =
     (case execErr of
        None \<Rightarrow> Ret (fst (jdb_Delete D d (job_ID job)))
      | Some e \<Rightarrow>
          if job_Attempts job < job_MaxAttempts job then
            (case retry_delay (job_Attempts job) of
               None \<Rightarrow> Panic ''negative shift amount''
             | Some delay \<Rightarrow>
                 Ret (fst (jdb_Updates D d (job_ID job) (retry_fields (now + delay) e now))))
          else Ret (fst (jdb_Updates D d (job_ID job) (failed_fields e now))))"

text \<open>
  The result: the database and the world, then whether a job was processed and the error, or the panic.
  A panic is not recovered, and the state it comes with is what is there at that moment.
\<close>

definition processNextJob ::
  "'d job_db \<Rightarrow> 'w database_driver \<Rightarrow> instant \<Rightarrow> instant \<Rightarrow> 'd \<times> 'w \<Rightarrow>
   ('d \<times> 'w) \<times> (bool \<times> err option) outcome" where
  "processNextJob D drv now1 now2 s =
     (case claim D (dd_queueName drv) now1 (fst s) of
        (d1, Inl e) \<Rightarrow> ((d1, snd s), Ret (False, Some e))
      | (d1, Inr job) \<Rightarrow>
          (case ExecuteJob job_context (dd_registry drv) (job_Name job) (job_Payload job) (snd s) of
             (w', Panic msg) \<Rightarrow> ((d1, w'), Panic msg)
           | (w', Ret execErr) \<Rightarrow>
               (case settle D now2 d1 job execErr of
                  Panic msg \<Rightarrow> ((d1, w'), Panic msg)
                | Ret d2 \<Rightarrow> ((d2, w'), Ret (True, None)))))"

section \<open>The worker loop\<close>

record poll =
  poll_quit :: bool \<comment> \<open>the first \<open>select\<close> finds \<open>quit\<close> closed\<close>
  poll_now1 :: instant
  poll_now2 :: instant
  poll_backoff_quit :: bool \<comment> \<open>\<open>quit\<close> wins over the poll interval\<close>

text \<open>The result: the state, how many jobs were processed, and whether the worker returned, or its panic.\<close>

fun database_workerLoop ::
  "'d job_db \<Rightarrow> 'w database_driver \<Rightarrow> poll list \<Rightarrow> 'd \<times> 'w \<Rightarrow> ('d \<times> 'w) \<times> nat \<times> bool outcome" where
  "database_workerLoop D drv [] s = (s, 0, Ret False)"
| "database_workerLoop D drv (p # ps) s =
     (if poll_quit p then (s, 0, Ret True)
      else case processNextJob D drv (poll_now1 p) (poll_now2 p) s of
        (s', Panic msg) \<Rightarrow> (s', 0, Panic msg)
      | (s', Ret (processed, e)) \<Rightarrow>
          if processed then (case database_workerLoop D drv ps s' of (s'', n, r) \<Rightarrow> (s'', Suc n, r))
          else if poll_backoff_quit p then (s', 0, Ret True)
          else database_workerLoop D drv ps s')"

section \<open>Start and stop\<close>

definition database_Start :: "'w database_driver \<Rightarrow> 'w database_driver \<times> err option" where
  "database_Start drv =
     (if dd_running drv then (drv, None)
      else (drv\<lparr>dd_running := True, dd_wg := dd_wg drv + nat (dd_concurrency drv)\<rparr>, None))"

definition database_Stop ::
  "bool \<Rightarrow> 'w database_driver \<Rightarrow> ('w database_driver \<times> err option) outcome" where
  "database_Stop done drv =
     (if \<not> dd_running drv then Ret (drv, None)
      else if dd_quit drv then Panic ''close of closed channel''
      else let drv' = drv\<lparr>dd_running := False, dd_quit := True\<rparr> in
        if done then Ret (drv'\<lparr>dd_wg := 0\<rparr>, None)
        else Ret (drv', Some (ErrNew ''queue: worker pool shutdown timed out'')))"

definition database_Close ::
  "bool \<Rightarrow> 'w database_driver \<Rightarrow> ('w database_driver \<times> err option) outcome" where
  "database_Close done drv = database_Stop done drv"

section \<open>Invariant and potential of the table\<close>

definition job_ok :: "job_record \<Rightarrow> bool" where
  "job_ok j \<longleftrightarrow>
     0 \<le> job_Attempts j \<and> 1 \<le> job_MaxAttempts j \<and> job_MaxAttempts j < 2 ^ 63 \<and>
     (job_Status j = ''pending'' \<and> job_Attempts j < job_MaxAttempts j \<and> job_ReservedAt j = None \<or>
      job_Status j = ''processing'' \<and> 1 \<le> job_Attempts j \<and> job_ReservedAt j \<noteq> None \<or>
      job_Status j = ''failed'' \<and> job_MaxAttempts j \<le> job_Attempts j \<and> job_ReservedAt j \<noteq> None)"

text \<open>No row was claimed more than \<open>n\<close> times.\<close>

definition job_table_ok :: "int \<Rightarrow> (nat \<rightharpoonup> job_record) \<Rightarrow> bool" where
  "job_table_ok n t \<longleftrightarrow> (\<forall>i j. t i = Some j \<longrightarrow> job_ok j \<and> job_Attempts j \<le> n)"

definition job_potential :: "job_record \<Rightarrow> nat" where
  "job_potential j =
     (if job_Status j = ''failed'' then 0 else nat (max 1 (job_MaxAttempts j - job_Attempts j)))"

definition table_potential :: "(nat \<rightharpoonup> job_record) \<Rightarrow> nat" where
  "table_potential t = (\<Sum>i \<in> dom t. job_potential (the (t i)))"

text \<open>
  A schedule of polls under which a job that was attempted \<open>a\<close> times and becomes available at
  \<open>avail\<close> is due at every poll, given that each execution fails.
\<close>

fun due_polls :: "int \<Rightarrow> instant \<Rightarrow> poll list \<Rightarrow> bool" where
  "due_polls a avail [] = True"
| "due_polls a avail (p # ps) =
     (\<not> poll_quit p \<and> avail \<le> poll_now1 p \<and>
      due_polls (a + 1) (poll_now2 p + the (retry_delay (a + 1))) ps)"

text \<open>
  Processes that each run one turn of a worker at the given instants, one after the other on one database:
  the state in the end and the result of each turn.
\<close>

fun worker_lives ::
  "'d job_db \<Rightarrow> 'w database_driver \<Rightarrow> (instant \<times> instant) list \<Rightarrow> 'd \<times> 'w \<Rightarrow>
   ('d \<times> 'w) \<times> (bool \<times> err option) outcome list" where
  "worker_lives D drv [] s = (s, [])"
| "worker_lives D drv ((now1, now2) # lives) s =
     (case processNextJob D drv now1 now2 s of
        (s', r) \<Rightarrow> (case worker_lives D drv lives s' of (s'', rs) \<Rightarrow> (s'', r # rs)))"

text \<open>At none of the given instants any row but the row \<open>i\<close> is due.\<close>

definition only_due :: "(nat \<rightharpoonup> job_record) \<Rightarrow> string \<Rightarrow> instant list \<Rightarrow> nat \<Rightarrow> bool" where
  "only_due t q ts i \<longleftrightarrow> (\<forall>now \<in> set ts. \<forall>k l. t k = Some l \<longrightarrow> eligible q now l \<longrightarrow> k = i)"

text \<open>The row of a job that failed once more.\<close>

definition after_failure :: "instant \<Rightarrow> instant \<Rightarrow> err \<Rightarrow> job_record \<Rightarrow> job_record" where
  "after_failure now1 now2 e j =
     (if job_Attempts j + 1 < job_MaxAttempts j
      then retry_fields (now2 + the (retry_delay (job_Attempts j + 1))) e now2 (reserve now1 j)
      else failed_fields e now2 (reserve now1 j))"

text \<open>Instants that are more than ten minutes apart.\<close>

fun stale_apart :: "instant \<Rightarrow> instant list \<Rightarrow> bool" where
  "stale_apart t [] = True"
| "stale_apart t (u # us) = (t + 10 * minute < u \<and> stale_apart u us)"

section \<open>Lemmas\<close>

lemma reserve_simps [simp]:
  "job_ID (reserve now j) = job_ID j"
  "job_Status (reserve now j) = ''processing''"
  "job_Attempts (reserve now j) = wrap64 (job_Attempts j + 1)"
  "job_MaxAttempts (reserve now j) = job_MaxAttempts j"
  "job_ReservedAt (reserve now j) = Some now"
  "job_Name (reserve now j) = job_Name j"
  "job_Payload (reserve now j) = job_Payload j"
  "job_Queue (reserve now j) = job_Queue j"
  by (simp_all add: reserve_def)

lemma retry_fields_simps [simp]:
  "job_ID (retry_fields a e now j) = job_ID j"
  "job_Status (retry_fields a e now j) = ''pending''"
  "job_Attempts (retry_fields a e now j) = job_Attempts j"
  "job_MaxAttempts (retry_fields a e now j) = job_MaxAttempts j"
  "job_ReservedAt (retry_fields a e now j) = None"
  "job_AvailableAt (retry_fields a e now j) = a"
  "job_Name (retry_fields a e now j) = job_Name j"
  "job_Payload (retry_fields a e now j) = job_Payload j"
  "job_Queue (retry_fields a e now j) = job_Queue j"
  by (simp_all add: retry_fields_def)

lemma failed_fields_simps [simp]:
  "job_ID (failed_fields e now j) = job_ID j"
  "job_Status (failed_fields e now j) = ''failed''"
  "job_Attempts (failed_fields e now j) = job_Attempts j"
  "job_MaxAttempts (failed_fields e now j) = job_MaxAttempts j"
  "job_ReservedAt (failed_fields e now j) = job_ReservedAt j"
  "job_Name (failed_fields e now j) = job_Name j"
  "job_Payload (failed_fields e now j) = job_Payload j"
  "job_Queue (failed_fields e now j) = job_Queue j"
  by (simp_all add: failed_fields_def)

lemma eligible_statusD: "eligible q now j \<Longrightarrow> job_Status j \<noteq> ''failed''"
  by (auto simp: eligible_def)

lemma eligible_pending [simp]:
  "job_Status j = ''pending'' \<Longrightarrow> eligible q now j \<longleftrightarrow> job_Queue j = q \<and> job_AvailableAt j \<le> now"
  by (auto simp: eligible_def)

text \<open>A row reserved at \<open>t\<close> is out of reach until ten minutes later.\<close>

lemma eligible_reserved:
  "job_Status j = ''processing'' \<Longrightarrow> job_ReservedAt j = Some t \<Longrightarrow>
   eligible q now j \<longleftrightarrow> job_Queue j = q \<and> t + 10 * minute < now"
  by (auto simp: eligible_def)

lemma reserved_stale: "u + 10 * minute < now \<Longrightarrow> job_Queue j = q \<Longrightarrow> eligible q now (reserve u j)"
  by (simp add: eligible_reserved)

lemma retry_delay_exact:
  assumes "1 \<le> a" "a \<le> 32"
  shows "retry_delay a = Some (2 ^ (nat a + 1) * second)"
proof -
  have shl: "go_shl1 a = Some (2 ^ nat a)" using assms by (intro go_shl1_small) auto
  have "nat a + 1 \<le> 33" using assms by simp
  then have le: "(2::int) ^ (nat a + 1) \<le> 2 ^ 33" by (rule power_increasing) simp
  have pos: "0 \<le> (2::int) ^ (nat a + 1)" by simp
  have "2 ^ nat a * 2 = (2::int) ^ (nat a + 1)" by simp
  moreover have "wrap64 (2 ^ (nat a + 1)) = 2 ^ (nat a + 1)"
  proof (rule wrap64_id)
    show "- (2 ^ 63) \<le> (2::int) ^ (nat a + 1)" by (rule order_trans [OF _ pos]) simp
    show "(2::int) ^ (nat a + 1) < 2 ^ 63" by (rule order_le_less_trans [OF le]) simp
  qed
  ultimately have two: "wrap64 (2 ^ nat a * 2) = 2 ^ (nat a + 1)" by (simp only:)
  have dur: "wrap64 (2 ^ (nat a + 1) * second) = 2 ^ (nat a + 1) * second"
  proof (rule wrap64_id)
    have "0 \<le> 2 ^ (nat a + 1) * second" using pos by (simp add: second_def)
    then show "- (2 ^ 63) \<le> 2 ^ (nat a + 1) * second" by (rule order_trans [rotated]) simp
    have "2 ^ (nat a + 1) * second \<le> 2 ^ 33 * second"
      using le by (rule mult_right_mono) (simp add: second_def)
    then show "2 ^ (nat a + 1) * second < 2 ^ 63"
      by (rule order_le_less_trans) (simp add: second_def)
  qed
  show ?thesis
    unfolding retry_delay_def shl duration_of_def option.map two dur by (rule refl)
qed

lemma retry_delay_some: "0 \<le> a \<Longrightarrow> \<exists>delay. retry_delay a = Some delay"
  using go_shl1_nonneg by (auto simp: retry_delay_def)

lemma settle_returns: "0 \<le> job_Attempts job \<Longrightarrow> \<exists>d'. settle D now d job execErr = Ret d'"
  using retry_delay_some [of "job_Attempts job"]
  by (auto simp: settle_def split: option.splits)

lemma job_ok_reserve:
  "job_ok j \<Longrightarrow> wrap64 (job_Attempts j + 1) = job_Attempts j + 1 \<Longrightarrow> job_ok (reserve now j)"
  unfolding job_ok_def by simp

lemma job_ok_retry:
  "job_ok j \<Longrightarrow> job_Attempts j < job_MaxAttempts j \<Longrightarrow> job_ok (retry_fields a e now j)"
  unfolding job_ok_def by simp

lemma job_ok_failed:
  "job_ok j \<Longrightarrow> job_MaxAttempts j \<le> job_Attempts j \<Longrightarrow> job_ReservedAt j \<noteq> None \<Longrightarrow>
   job_ok (failed_fields e now j)"
  unfolding job_ok_def by simp

lemma table_potential_upd:
  assumes fin: "finite (dom t)" and i: "t i = Some j"
  shows "table_potential (t(i := r)) + job_potential j =
    table_potential t + (case r of None \<Rightarrow> 0 | Some k \<Rightarrow> job_potential k)"
proof -
  let ?rest = "\<Sum>l \<in> dom t - {i}. job_potential (the (t l))"
  from i have dom: "i \<in> dom t" by auto
  have old: "table_potential t = job_potential j + ?rest"
    unfolding table_potential_def
    using sum.remove [OF fin dom, of "\<lambda>l. job_potential (the (t l))"] i by simp
  have same: "(\<Sum>l \<in> dom t - {i}. job_potential (the ((t(i := r)) l))) = ?rest"
    by (rule sum.cong) auto
  have "table_potential (t(i := r)) = (case r of None \<Rightarrow> 0 | Some k \<Rightarrow> job_potential k) + ?rest"
  proof (cases r)
    case None
    then have "dom (t(i := r)) = dom t - {i}" by auto
    with None same show ?thesis unfolding table_potential_def by simp
  next
    case (Some k)
    then have "dom (t(i := r)) = insert i (dom t - {i})" by auto
    moreover have new: "i \<notin> dom t - {i}" "finite (dom t - {i})" using fin by auto
    ultimately have "table_potential (t(i := r)) =
        job_potential (the ((t(i := r)) i)) +
        (\<Sum>l \<in> dom t - {i}. job_potential (the ((t(i := r)) l)))"
      unfolding table_potential_def by (simp only: sum.insert [OF new(2,1)])
    with Some same show ?thesis by simp
  qed
  with old show ?thesis by simp
qed

context job_store
begin

lemma claim_cases:
  assumes "claim D q now d = (d', r)"
  shows "(\<exists>j. r = Inr (reserve now j) \<and> table d (job_ID j) = Some j \<and> eligible q now j \<and>
            (\<forall>i k. table d i = Some k \<longrightarrow> eligible q now k \<longrightarrow> claim_key j \<le> claim_key k) \<and>
            table d' = (table d)(job_ID j \<mapsto> reserve now j)) \<or>
         (\<exists>e. r = Inl e \<and> d' = d)"
  using transaction [OF assms [unfolded claim_def]]
proof (elim disjE exE conjE)
  fix job
  assume body: "claim_body D q now d = Inr (d', job)" and r: "r = Inr job"
  then obtain j where find: "jdb_Find D d (eligible q now) claim_key = Inr (Some j)"
    by (auto simp: claim_body_def split: sum.splits option.splits)
  with body have "jdb_Save D d (reserve now j) = (d', None)" and "job = reserve now j"
    by (auto simp: claim_body_def split: prod.splits option.splits)
  with r find_some [OF find] save_ok show ?thesis by auto
qed auto

lemma claim_okE:
  assumes "claim D q now d = (d', Inr job)"
  obtains j where "job = reserve now j" "table d (job_ID j) = Some j" "eligible q now j"
    "\<And>i k. table d i = Some k \<Longrightarrow> eligible q now k \<Longrightarrow> claim_key j \<le> claim_key k"
    "table d' = (table d)(job_ID j \<mapsto> reserve now j)"
  using claim_cases [OF assms] by auto

lemma claim_err: "claim D q now d = (d', Inl e) \<Longrightarrow> d' = d"
  using claim_cases [of q now d d' "Inl e"] by auto

lemma delete_cases: "table (fst (jdb_Delete D d i)) \<in> {table d, (table d)(i := None)}"
  using delete_ok [of d i "fst (jdb_Delete D d i)"] delete_err [of d i "fst (jdb_Delete D d i)"]
  by (cases "jdb_Delete D d i"; cases "snd (jdb_Delete D d i)") auto

lemma updates_cases:
  assumes "\<And>k. job_ID (g k) = job_ID k"
  shows "table (fst (jdb_Updates D d i g)) \<in> {table d, (table d)(i := map_option g (table d i))}"
  using updates_ok [of d i g "fst (jdb_Updates D d i g)"] updates_err [of d i g "fst (jdb_Updates D d i g)"] assms
  by (cases "jdb_Updates D d i g"; cases "snd (jdb_Updates D d i g)") auto

text \<open>
  What settling can leave in the table: the row as it was (the write failed, which the code
  ignores), no row, a row waiting for its next attempt, or a failed row.
\<close>

lemma settle_cases:
  assumes "settle D now d job execErr = Ret d'"
  shows "table d' = table d \<or>
     execErr = None \<and> table d' = (table d)(job_ID job := None) \<or>
     (\<exists>e delay. execErr = Some e \<and> job_Attempts job < job_MaxAttempts job \<and>
        retry_delay (job_Attempts job) = Some delay \<and>
        table d' = (table d)(job_ID job := map_option (retry_fields (now + delay) e now) (table d (job_ID job)))) \<or>
     (\<exists>e. execErr = Some e \<and> \<not> job_Attempts job < job_MaxAttempts job \<and>
        table d' = (table d)(job_ID job := map_option (failed_fields e now) (table d (job_ID job))))"
proof (cases execErr)
  case None
  with assms show ?thesis using delete_cases [of d "job_ID job"] by (auto simp: settle_def)
next
  case (Some e)
  show ?thesis
  proof (cases "job_Attempts job < job_MaxAttempts job")
    case True
    with Some assms obtain delay where "retry_delay (job_Attempts job) = Some delay"
      "d' = fst (jdb_Updates D d (job_ID job) (retry_fields (now + delay) e now))"
      by (auto simp: settle_def split: option.splits)
    with Some True show ?thesis
      using updates_cases [of "retry_fields (now + delay) e now" d "job_ID job"] by auto
  next
    case False
    with Some assms show ?thesis
      using updates_cases [of "failed_fields e now" d "job_ID job"] by (auto simp: settle_def)
  qed
qed

lemma process_notE:
  assumes "processNextJob D drv now1 now2 s = (s', Ret (False, e))"
  shows "s' = s"
  using assms claim_err
  by (cases s) (auto simp: processNextJob_def split: prod.splits sum.splits outcome.splits)

lemma process_jobE:
  assumes "processNextJob D drv now1 now2 (d, w) = ((d', w'), Ret (True, e))"
  obtains j d1 execErr where "table d (job_ID j) = Some j" "eligible (dd_queueName drv) now1 j"
    "\<And>i k. table d i = Some k \<Longrightarrow> eligible (dd_queueName drv) now1 k \<Longrightarrow> claim_key j \<le> claim_key k"
    "table d1 = (table d)(job_ID j \<mapsto> reserve now1 j)"
    "ExecuteJob job_context (dd_registry drv) (job_Name j) (job_Payload j) w = (w', Ret execErr)"
    "settle D now2 d1 (reserve now1 j) execErr = Ret d'" "e = None"
proof -
  from assms obtain d1 job execErr where
    cl: "claim D (dd_queueName drv) now1 d = (d1, Inr job)" and
    ex: "ExecuteJob job_context (dd_registry drv) (job_Name job) (job_Payload job) w = (w', Ret execErr)" and
    st: "settle D now2 d1 job execErr = Ret d'" and e: "e = None"
    by (auto simp: processNextJob_def split: prod.splits sum.splits outcome.splits)
  from cl show ?thesis
    by (rule claim_okE) (use that ex st e in auto)
qed

text \<open>The table after a job was processed, in terms of the row that was claimed.\<close>

lemma process_table:
  assumes "processNextJob D drv now1 now2 (d, w) = ((d', w'), Ret (True, e))"
  obtains j r where "table d (job_ID j) = Some j" "eligible (dd_queueName drv) now1 j"
    "table d' = (table d)(job_ID j := r)"
    "r \<in> {None, Some (reserve now1 j)} \<or>
     (\<exists>a x. r = Some (retry_fields a x now2 (reserve now1 j)) \<and>
        wrap64 (job_Attempts j + 1) < job_MaxAttempts j) \<or>
     (\<exists>x. r = Some (failed_fields x now2 (reserve now1 j)) \<and>
        job_MaxAttempts j \<le> wrap64 (job_Attempts j + 1))"
  using assms
proof (rule process_jobE)
  fix j d1 execErr
  assume j: "table d (job_ID j) = Some j" "eligible (dd_queueName drv) now1 j"
    and d1: "table d1 = (table d)(job_ID j \<mapsto> reserve now1 j)"
    and st: "settle D now2 d1 (reserve now1 j) execErr = Ret d'"
  from settle_cases [OF st] show ?thesis
  proof (elim disjE exE conjE)
    assume "table d' = table d1"
    with d1 show ?thesis by (intro that [OF j, of "Some (reserve now1 j)"]) simp_all
  next
    assume "table d' = (table d1)(job_ID (reserve now1 j) := None)"
    with d1 show ?thesis by (intro that [OF j, of None]) simp_all
  next
    fix e delay
    assume "job_Attempts (reserve now1 j) < job_MaxAttempts (reserve now1 j)"
      "table d' = (table d1)(job_ID (reserve now1 j) :=
         map_option (retry_fields (now2 + delay) e now2) (table d1 (job_ID (reserve now1 j))))"
    with d1 show ?thesis
      by (intro that [OF j, of "Some (retry_fields (now2 + delay) e now2 (reserve now1 j))"]) auto
  next
    fix e
    assume "\<not> job_Attempts (reserve now1 j) < job_MaxAttempts (reserve now1 j)"
      "table d' = (table d1)(job_ID (reserve now1 j) :=
         map_option (failed_fields e now2) (table d1 (job_ID (reserve now1 j))))"
    with d1 show ?thesis
      by (intro that [OF j, of "Some (failed_fields e now2 (reserve now1 j))"]) auto
  qed
qed

subsection \<open>The table invariant\<close>

lemma process_table_ok:
  assumes "processNextJob D drv now1 now2 (d, w) = ((d', w'), Ret (b, e))"
    and ok: "job_table_ok n (table d)" and n: "n < max_int64"
  shows "job_table_ok (n + 1) (table d')"
proof (cases b)
  case True
  with assms(1) have "processNextJob D drv now1 now2 (d, w) = ((d', w'), Ret (True, e))" by simp
  then show ?thesis
  proof (rule process_table)
    fix j r
    assume j: "table d (job_ID j) = Some j" "eligible (dd_queueName drv) now1 j"
      and d': "table d' = (table d)(job_ID j := r)"
      and r: "r \<in> {None, Some (reserve now1 j)} \<or>
       (\<exists>a x. r = Some (retry_fields a x now2 (reserve now1 j)) \<and>
          wrap64 (job_Attempts j + 1) < job_MaxAttempts j) \<or>
       (\<exists>x. r = Some (failed_fields x now2 (reserve now1 j)) \<and>
          job_MaxAttempts j \<le> wrap64 (job_Attempts j + 1))"
    from ok j have jok: "job_ok j" "job_Attempts j \<le> n" by (auto simp: job_table_ok_def)
    then have w: "wrap64 (job_Attempts j + 1) = job_Attempts j + 1"
      using n by (intro wrap64_id) (auto simp: job_ok_def max_int64_def)
    have new: "job_ok k \<and> job_Attempts k \<le> n + 1" if "r = Some k" for k
    proof -
      have res: "job_ok (reserve now1 j)" by (rule job_ok_reserve [OF jok(1) w])
      have "job_ok k \<and> job_Attempts k = job_Attempts (reserve now1 j)"
        using r that res by (elim disjE exE conjE) (auto intro: job_ok_retry job_ok_failed)
      then show ?thesis using w jok(2) by simp
    qed
    have "job_ok k \<and> job_Attempts k \<le> n + 1" if "table d' i = Some k" for i k
    proof (cases "i = job_ID j")
      case True
      with that d' have "r = Some k" by simp
      then show ?thesis by (rule new)
    next
      case False
      with that d' have "table d i = Some k" by simp
      with ok have "job_ok k" "job_Attempts k \<le> n" by (auto simp: job_table_ok_def)
      then show ?thesis by simp
    qed
    then show ?thesis by (simp add: job_table_ok_def)
  qed
next
  case False
  with assms(1) have "processNextJob D drv now1 now2 (d, w) = ((d', w'), Ret (False, e))" by simp
  then have "(d', w') = (d, w)" by (rule process_notE)
  with ok show ?thesis by (force simp: job_table_ok_def)
qed

lemma dispatch_table:
  assumes "database_DispatchDelayed D marshal drv ctx name p delay now d = (d', r)"
  shows "table d' = table d \<and> r \<noteq> None \<or>
    (\<exists>raw i. MarshalPayload marshal p = Inr raw \<and> r = None \<and> table d i = None \<and>
       table d' = (table d)(i \<mapsto> (new_job_record drv name raw delay now)\<lparr>job_ID := i\<rparr>))"
proof (cases "MarshalPayload marshal p")
  case (Inl me)
  with assms show ?thesis by (auto simp: database_DispatchDelayed_def)
next
  case (Inr raw)
  show ?thesis
  proof (cases "jdb_Create D ctx d (new_job_record drv name raw delay now)")
    case (Pair d1 res)
    show ?thesis
    proof (cases res)
      case (Inl ce)
      with Inr Pair assms create_err [of ctx d _ d1 ce] show ?thesis
        by (auto simp: database_DispatchDelayed_def)
    next
      case (Inr i)
      with \<open>MarshalPayload marshal p = Inr raw\<close> Pair assms create_ok [of ctx d _ d1 i] show ?thesis
        by (auto simp: database_DispatchDelayed_def)
    qed
  qed
qed

lemma new_job_ok:
  assumes "1 \<le> dd_maxAttempts drv" "dd_maxAttempts drv < 2 ^ 63"
  shows "job_ok ((new_job_record drv name raw delay now)\<lparr>job_ID := i\<rparr>)"
  using assms by (simp add: new_job_record_def job_ok_def)

lemma dispatch_table_ok:
  assumes disp: "database_DispatchDelayed D marshal drv ctx name p delay now d = (d', r)"
    and ok: "job_table_ok n (table d)" and n: "0 \<le> n"
    and max: "1 \<le> dd_maxAttempts drv" "dd_maxAttempts drv < 2 ^ 63"
  shows "job_table_ok n (table d')"
  using dispatch_table [OF disp]
proof (elim disjE exE conjE)
  fix raw i
  assume d': "table d' = (table d)(i \<mapsto> (new_job_record drv name raw delay now)\<lparr>job_ID := i\<rparr>)"
  have "job_Attempts ((new_job_record drv name raw delay now)\<lparr>job_ID := i\<rparr>) \<le> n"
    using n by (simp add: new_job_record_def)
  with new_job_ok [OF max] ok d' show ?thesis by (simp add: job_table_ok_def)
qed (use ok in simp)

text \<open>A panic: the claim is committed, and nothing else has happened to the table.\<close>

lemma process_panicE:
  assumes "processNextJob D drv now1 now2 (d, w) = ((d', w'), Panic msg)"
  obtains j where "table d (job_ID j) = Some j" "eligible (dd_queueName drv) now1 j"
    "table d' = (table d)(job_ID j \<mapsto> reserve now1 j)"
    "ExecuteJob job_context (dd_registry drv) (job_Name j) (job_Payload j) w = (w', Panic msg) \<or>
     job_Attempts (reserve now1 j) < 0"
proof -
  from assms obtain job where cl: "claim D (dd_queueName drv) now1 d = (d', Inr job)"
    and p: "ExecuteJob job_context (dd_registry drv) (job_Name job) (job_Payload job) w = (w', Panic msg) \<or>
      (\<exists>x. settle D now2 d' job x = Panic msg)"
    by (auto simp: processNextJob_def split: prod.splits sum.splits outcome.splits)
  from p have "ExecuteJob job_context (dd_registry drv) (job_Name job) (job_Payload job) w = (w', Panic msg) \<or>
      job_Attempts job < 0"
    using settle_returns [of job D now2 d'] by (metis not_le outcome.distinct(1))
  with cl show ?thesis by (elim claim_okE) (use that in auto)
qed

lemma process_returns:
  assumes ok: "job_table_ok n (table d)" and n: "n < max_int64"
  shows "(\<exists>s' r. processNextJob D drv now1 now2 (d, w) = (s', Ret r)) \<or>
    (\<exists>d' w' j msg. processNextJob D drv now1 now2 (d, w) = ((d', w'), Panic msg) \<and> table d (job_ID j) = Some j \<and>
       table d' = (table d)(job_ID j \<mapsto> reserve now1 j) \<and> job_table_ok (n + 1) (table d') \<and>
       ExecuteJob job_context (dd_registry drv) (job_Name j) (job_Payload j) w = (w', Panic msg))"
proof (cases "processNextJob D drv now1 now2 (d, w)")
  case (Pair s' r)
  show ?thesis
  proof (cases r)
    case (Panic msg)
    obtain d' w' where s': "s' = (d', w')" by (cases s')
    with Pair Panic obtain j where j: "table d (job_ID j) = Some j"
        "table d' = (table d)(job_ID j \<mapsto> reserve now1 j)"
      and x: "ExecuteJob job_context (dd_registry drv) (job_Name j) (job_Payload j) w = (w', Panic msg) \<or>
        job_Attempts (reserve now1 j) < 0"
      by (auto elim: process_panicE)
    from ok j(1) have jok: "job_ok j" "job_Attempts j \<le> n" by (auto simp: job_table_ok_def)
    then have w: "wrap64 (job_Attempts j + 1) = job_Attempts j + 1"
      using n by (intro wrap64_id) (auto simp: job_ok_def max_int64_def)
    with jok x have "ExecuteJob job_context (dd_registry drv) (job_Name j) (job_Payload j) w = (w', Panic msg)"
      by (simp add: job_ok_def)
    moreover have "job_ok k \<and> job_Attempts k \<le> n + 1" if "table d' i = Some k" for i k
      using that ok jok w job_ok_reserve [OF jok(1) w, of now1]
      by (fastforce simp: j(2) job_table_ok_def split: if_splits)
    then have "job_table_ok (n + 1) (table d')" by (simp add: job_table_ok_def)
    ultimately show ?thesis using Pair Panic s' j by blast
  qed (use Pair in blast)
qed

end

section \<open>A store without failures\<close>

context reliable_job_store
begin

lemma claim_due:
  assumes "table d i = Some k" "eligible q now k"
  obtains d' j where "claim D q now d = (d', Inr (reserve now j))"
    "table d (job_ID j) = Some j" "eligible q now j"
    "table d' = (table d)(job_ID j \<mapsto> reserve now j)"
proof -
  obtain r where r: "jdb_Find D d (eligible q now) claim_key = Inr r" using find_up by blast
  with assms find_none [of d "eligible q now" claim_key] obtain j where j: "r = Some j"
    by (cases r) auto
  obtain d1 where "jdb_Save D d (reserve now j) = (d1, None)" using save_up by blast
  with r j have "claim_body D q now d = Inr (d1, reserve now j)" by (simp add: claim_body_def)
  then have "claim D q now d = (d1, Inr (reserve now j))"
    unfolding claim_def by (rule transaction_up)
  with claim_cases [OF this] show ?thesis using that by (auto simp: reserve_def)
qed

lemma claim_none:
  assumes "\<And>i k. table d i = Some k \<Longrightarrow> \<not> eligible q now k"
  shows "\<exists>e. claim D q now d = (d, Inl e)"
proof (cases "claim D q now d")
  case (Pair d' r)
  with claim_cases [OF this] assms show ?thesis by fastforce
qed

lemma delete_table: "table (fst (jdb_Delete D d i)) = (table d)(i := None)"
  using delete_up [of d i] delete_ok [of d i] by fastforce

lemma updates_table:
  "(\<And>k. job_ID (g k) = job_ID k) \<Longrightarrow>
   table (fst (jdb_Updates D d i g)) = (table d)(i := map_option g (table d i))"
  using updates_up [of d i g] updates_ok [of d i g] by fastforce

lemma settle_table:
  assumes "settle D now d job execErr = Ret d'"
  shows "table d' = (case execErr of
      None \<Rightarrow> (table d)(job_ID job := None)
    | Some e \<Rightarrow>
       if job_Attempts job < job_MaxAttempts job
       then (table d)(job_ID job :=
         map_option (retry_fields (now + the (retry_delay (job_Attempts job))) e now) (table d (job_ID job)))
       else (table d)(job_ID job := map_option (failed_fields e now) (table d (job_ID job))))"
  using assms
  by (auto simp: settle_def delete_table updates_table split: option.splits if_splits)

text \<open>With no failing write a processed row never stays reserved.\<close>

lemma process_table_up:
  assumes "processNextJob D drv now1 now2 (d, w) = ((d', w'), Ret (True, e))"
  obtains j r where "table d (job_ID j) = Some j" "eligible (dd_queueName drv) now1 j"
    "table d' = (table d)(job_ID j := r)"
    "r = None \<or>
     (\<exists>a x. r = Some (retry_fields a x now2 (reserve now1 j)) \<and>
        wrap64 (job_Attempts j + 1) < job_MaxAttempts j) \<or>
     (\<exists>x. r = Some (failed_fields x now2 (reserve now1 j)) \<and>
        job_MaxAttempts j \<le> wrap64 (job_Attempts j + 1))"
  using assms
proof (rule process_jobE)
  fix j d1 execErr
  assume j: "table d (job_ID j) = Some j" "eligible (dd_queueName drv) now1 j"
    and d1: "table d1 = (table d)(job_ID j \<mapsto> reserve now1 j)"
    and st: "settle D now2 d1 (reserve now1 j) execErr = Ret d'"
  from settle_table [OF st] d1 show ?thesis
    by (intro that [of j "table d' (job_ID j)"] j) (auto split: option.splits if_splits)
qed

subsection \<open>The number of executions\<close>

lemma process_potential:
  assumes run: "processNextJob D drv now1 now2 (d, w) = ((d', w'), Ret (True, e))"
    and ok: "job_table_ok n (table d)" and n: "n < max_int64"
  shows "Suc (table_potential (table d')) \<le> table_potential (table d)"
  using run
proof (rule process_table_up)
  fix j r
  assume j: "table d (job_ID j) = Some j" "eligible (dd_queueName drv) now1 j"
    and d': "table d' = (table d)(job_ID j := r)"
    and r: "r = None \<or>
     (\<exists>a x. r = Some (retry_fields a x now2 (reserve now1 j)) \<and>
        wrap64 (job_Attempts j + 1) < job_MaxAttempts j) \<or>
     (\<exists>x. r = Some (failed_fields x now2 (reserve now1 j)) \<and>
        job_MaxAttempts j \<le> wrap64 (job_Attempts j + 1))"
  from ok j have jok: "job_ok j" "job_Attempts j \<le> n" by (auto simp: job_table_ok_def)
  then have w: "wrap64 (job_Attempts j + 1) = job_Attempts j + 1"
    using n by (intro wrap64_id) (auto simp: job_ok_def max_int64_def)
  have "Suc (case r of None \<Rightarrow> 0 | Some k \<Rightarrow> job_potential k) \<le> job_potential j"
    using r w jok eligible_statusD [OF j(2)]
    by (auto simp: job_potential_def)
  with table_potential_upd [OF table_finite j(1), of r] d' show ?thesis by simp
qed

lemma due_potential:
  assumes "table d i = Some j" "eligible q now j"
  shows "1 \<le> table_potential (table d)"
  using table_potential_upd [OF table_finite assms(1), of None] eligible_statusD [OF assms(2)]
  by (simp add: job_potential_def)

text \<open>
  Without new dispatches and without failing writes, the jobs of a table are processed at most
  \<open>table_potential\<close> times in all, however often and whenever the worker polls, and also when a handler
  panics in the end.
\<close>

lemma loop_executions:
  assumes "database_workerLoop D drv ps (d, w) = ((d', w'), k, r)"
    and "job_table_ok n (table d)" and "n + int (length ps) \<le> max_int64"
  shows "case r of
      Ret b \<Rightarrow> k + table_potential (table d') \<le> table_potential (table d)
    | Panic msg \<Rightarrow> k + 1 \<le> table_potential (table d)"
  using assms
proof (induction ps arbitrary: d w k n)
  case (Cons p ps)
  show ?case
  proof (cases "poll_quit p")
    case False
    obtain d1 w1 x where p: "processNextJob D drv (poll_now1 p) (poll_now2 p) (d, w) = ((d1, w1), x)"
      by (metis prod.exhaust)
    show ?thesis
    proof (cases x)
      case (Panic msg)
      obtain j where "table d (job_ID j) = Some j" "eligible (dd_queueName drv) (poll_now1 p) j"
        using p unfolding Panic by (rule process_panicE)
      then have "1 \<le> table_potential (table d)" by (rule due_potential)
      with Panic p False Cons.prems(1) show ?thesis by auto
    next
      case (Ret me)
      then obtain m e where x: "x = Ret (m, e)" by (cases me) simp
      have ok1: "job_table_ok (n + 1) (table d1)"
        using process_table_ok [OF p [unfolded x] Cons.prems(2)] Cons.prems(3) by simp
      show ?thesis
      proof (cases m)
        case True
        with p x False Cons.prems(1) obtain k' where k: "k = Suc k'"
          and rest: "database_workerLoop D drv ps (d1, w1) = ((d', w'), k', r)"
          by (auto split: prod.splits)
        have "Suc (table_potential (table d1)) \<le> table_potential (table d)"
          using process_potential [OF _ Cons.prems(2)] p x True Cons.prems(3) by simp
        with Cons.IH [OF rest ok1] Cons.prems(3) k show ?thesis by (cases r) auto
      next
        case idle: False
        with p x have "processNextJob D drv (poll_now1 p) (poll_now2 p) (d, w) = ((d1, w1), Ret (False, e))"
          by simp
        then have same: "(d1, w1) = (d, w)" by (rule process_notE)
        show ?thesis
        proof (cases "poll_backoff_quit p")
          case True
          with False p x idle same Cons.prems(1) show ?thesis by auto
        next
          case nb: False
          with False p x idle same Cons.prems(1)
          have rest: "database_workerLoop D drv ps (d1, w1) = ((d', w'), k, r)" by simp
          from Cons.IH [OF rest ok1] Cons.prems(3) have "case r of
              Ret b \<Rightarrow> k + table_potential (table d') \<le> table_potential (table d1)
            | Panic msg \<Rightarrow> k + 1 \<le> table_potential (table d1)" by simp
          moreover have "d1 = d" using same by simp
          ultimately show ?thesis by (simp only:)
        qed
      qed
    qed
  qed (use Cons.prems in auto)
qed auto

subsection \<open>A job that is the only one due\<close>

lemma only_due_upd [simp]: "only_due (t(i := r)) q ts i \<longleftrightarrow> only_due t q ts i"
  by (auto simp: only_due_def)

lemma only_due_Cons: "only_due t q (now # ts) i \<longleftrightarrow> only_due t q [now] i \<and> only_due t q ts i"
  by (auto simp: only_due_def)

lemma claim_only:
  assumes j: "table d i = Some j" "eligible q now j" and only: "only_due (table d) q [now] i"
  obtains d1 where "claim D q now d = (d1, Inr (reserve now j))" "table d1 = (table d)(i \<mapsto> reserve now j)"
    "job_ID j = i"
proof -
  obtain d1 j0 where d1: "claim D q now d = (d1, Inr (reserve now j0))"
    "table d (job_ID j0) = Some j0" "eligible q now j0" "table d1 = (table d)(job_ID j0 \<mapsto> reserve now j0)"
    by (rule claim_due [OF j])
  with only have "job_ID j0 = i" by (auto simp: only_due_def)
  with d1 j(1) show ?thesis by (intro that) auto
qed

lemma process_only:
  assumes j: "table d i = Some j" "eligible (dd_queueName drv) now1 j" "only_due (table d) (dd_queueName drv) [now1] i"
    and a: "0 \<le> wrap64 (job_Attempts j + 1)"
    and ex: "ExecuteJob job_context (dd_registry drv) (job_Name j) (job_Payload j) w = (w', Ret res)"
  obtains d1 d' where "table d1 = (table d)(i \<mapsto> reserve now1 j)" "job_ID j = i"
    "settle D now2 d1 (reserve now1 j) res = Ret d'"
    "processNextJob D drv now1 now2 (d, w) = ((d', w'), Ret (True, None))"
proof -
  obtain d1 where d1: "claim D (dd_queueName drv) now1 d = (d1, Inr (reserve now1 j))"
    "table d1 = (table d)(i \<mapsto> reserve now1 j)" "job_ID j = i"
    by (rule claim_only [OF j])
  obtain d' where "settle D now2 d1 (reserve now1 j) res = Ret d'"
    using settle_returns [of "reserve now1 j" D now2 d1 res] a by auto
  with d1 ex show ?thesis by (intro that [of d1 d']) (simp_all add: processNextJob_def)
qed

subsection \<open>A job whose handler always fails\<close>

lemma loop_idle:
  assumes "\<forall>p \<in> set ps. \<forall>k l. table d k = Some l \<longrightarrow> \<not> eligible (dd_queueName drv) (poll_now1 p) l"
  shows "\<exists>b. database_workerLoop D drv ps (d, w) = ((d, w), 0, Ret b)"
  using assms
proof (induction ps)
  case (Cons p ps)
  have "\<exists>e. claim D (dd_queueName drv) (poll_now1 p) d = (d, Inl e)"
    using Cons.prems by (intro claim_none) simp
  then obtain e where "processNextJob D drv (poll_now1 p) (poll_now2 p) (d, w) = ((d, w), Ret (False, Some e))"
    by (auto simp: processNextJob_def)
  with Cons show ?case by auto
qed simp

lemma process_failing:
  assumes j: "table d i = Some j" "job_Queue j = dd_queueName drv" "job_Status j = ''pending''" "job_AvailableAt j \<le> now1"
    and only: "only_due (table d) (dd_queueName drv) [now1] i"
    and a: "0 \<le> job_Attempts j" "job_Attempts j < job_MaxAttempts j" "job_MaxAttempts j < 2 ^ 63"
    and ex: "ExecuteJob job_context (dd_registry drv) (job_Name j) (job_Payload j) w = (w', Ret (Some e))"
  obtains d' where "processNextJob D drv now1 now2 (d, w) = ((d', w'), Ret (True, None))"
    "table d' = (table d)(i \<mapsto> after_failure now1 now2 e j)"
proof -
  have w: "wrap64 (job_Attempts j + 1) = job_Attempts j + 1" using a by (intro wrap64_id) auto
  have el: "eligible (dd_queueName drv) now1 j" using j by simp
  have pos: "0 \<le> wrap64 (job_Attempts j + 1)" using a w by simp
  obtain d1 d' where d1: "table d1 = (table d)(i \<mapsto> reserve now1 j)" "job_ID j = i"
    and st: "settle D now2 d1 (reserve now1 j) (Some e) = Ret d'"
    and run: "processNextJob D drv now1 now2 (d, w) = ((d', w'), Ret (True, None))"
    by (rule process_only [OF j(1) el only pos ex])
  from settle_table [OF st] d1 w have "table d' = (table d)(i \<mapsto> after_failure now1 now2 e j)"
    by (simp add: after_failure_def)
  with run show ?thesis by (rule that)
qed

lemma failing_job_run:
  assumes "table d i = Some j" "job_Queue j = dd_queueName drv" "job_Status j = ''pending''"
    "0 \<le> job_Attempts j" "job_MaxAttempts j < 2 ^ 63"
    "job_Attempts j + int (length ps) = job_MaxAttempts j" "ps \<noteq> []"
    "due_polls (job_Attempts j) (job_AvailableAt j) ps"
    "only_due (table d) (dd_queueName drv) (map poll_now1 (ps @ qs)) i"
    "\<And>w. \<exists>e. snd (ExecuteJob job_context (dd_registry drv) (job_Name j) (job_Payload j) w) = Ret (Some e)"
  shows "\<exists>d' j' b. database_workerLoop D drv (ps @ qs) (d, w) =
      ((d', ((\<lambda>w. fst (ExecuteJob job_context (dd_registry drv) (job_Name j) (job_Payload j) w)) ^^ length ps) w),
       length ps, Ret b) \<and>
    table d' = (table d)(i \<mapsto> j') \<and> job_Status j' = ''failed'' \<and> job_Attempts j' = job_MaxAttempts j"
  using assms
proof (induction ps arbitrary: d w j)
  case (Cons p ps)
  let ?f = "\<lambda>w. fst (ExecuteJob job_context (dd_registry drv) (job_Name j) (job_Payload j) w)"
  have w: "wrap64 (job_Attempts j + 1) = job_Attempts j + 1"
    using Cons.prems(4,5,6) by (intro wrap64_id) auto
  have lt: "job_Attempts j < job_MaxAttempts j" using Cons.prems(6) by simp
  from Cons.prems(8) have due: "\<not> poll_quit p" "job_AvailableAt j \<le> poll_now1 p"
    "due_polls (job_Attempts j + 1) (poll_now2 p + the (retry_delay (job_Attempts j + 1))) ps"
    by simp_all
  have only: "only_due (table d) (dd_queueName drv) [poll_now1 p] i"
    "only_due (table d) (dd_queueName drv) (map poll_now1 (ps @ qs)) i"
    using Cons.prems(9) by (auto simp: only_due_def)
  obtain e where e: "ExecuteJob job_context (dd_registry drv) (job_Name j) (job_Payload j) w = (?f w, Ret (Some e))"
    using Cons.prems(10) by (metis prod.collapse)
  obtain d1 where run: "processNextJob D drv (poll_now1 p) (poll_now2 p) (d, w) = ((d1, ?f w), Ret (True, None))"
    and tab1: "table d1 = (table d)(i \<mapsto> after_failure (poll_now1 p) (poll_now2 p) e j)"
    by (rule process_failing [OF Cons.prems(1-3) due(2) only(1) Cons.prems(4) lt Cons.prems(5) e])
  show ?case
  proof (cases "ps = []")
    case True
    with Cons.prems(6) have j1: "after_failure (poll_now1 p) (poll_now2 p) e j =
        failed_fields e (poll_now2 p) (reserve (poll_now1 p) j)" by (simp add: after_failure_def)
    have "\<exists>b. database_workerLoop D drv qs (d1, ?f w) = ((d1, ?f w), 0, Ret b)"
      by (rule loop_idle) (use only(2) True eligible_statusD in \<open>fastforce simp: tab1 j1 only_due_def split: if_splits\<close>)
    then obtain b where "database_workerLoop D drv ((p # ps) @ qs) (d, w) = ((d1, ?f w), 1, Ret b)"
      using True run due(1) by auto
    with True tab1 j1 w Cons.prems(6) show ?thesis
      by (intro exI [of _ d1] exI [of _ "failed_fields e (poll_now2 p) (reserve (poll_now1 p) j)"] exI [of _ b]) simp
  next
    case False
    then obtain p' ps' where "ps = p' # ps'" by (cases ps) auto
    with Cons.prems(6) have j1: "after_failure (poll_now1 p) (poll_now2 p) e j =
        retry_fields (poll_now2 p + the (retry_delay (job_Attempts j + 1))) e (poll_now2 p) (reserve (poll_now1 p) j)"
      (is "_ = ?j1") by (simp add: after_failure_def)
    have t1: "table d1 i = Some ?j1" using tab1 j1 by simp
    have o1: "only_due (table d1) (dd_queueName drv) (map poll_now1 (ps @ qs)) i"
      unfolding tab1 only_due_upd by (rule only(2))
    have "\<exists>d' j' b. database_workerLoop D drv (ps @ qs) (d1, ?f w) =
        ((d', ((\<lambda>w. fst (ExecuteJob job_context (dd_registry drv) (job_Name ?j1) (job_Payload ?j1) w)) ^^ length ps) (?f w)),
         length ps, Ret b) \<and>
        table d' = (table d1)(i \<mapsto> j') \<and> job_Status j' = ''failed'' \<and> job_Attempts j' = job_MaxAttempts ?j1"
      by (rule Cons.IH [OF t1 _ _ _ _ _ False _ o1])
        (use Cons.prems(2,4-6,10) due(3) w in simp_all)
    then obtain d2 j2 b where rest: "database_workerLoop D drv (ps @ qs) (d1, ?f w) =
        ((d2, (?f ^^ length ps) (?f w)), length ps, Ret b)"
      and j2: "table d2 = (table d)(i \<mapsto> j2)" "job_Status j2 = ''failed''" "job_Attempts j2 = job_MaxAttempts j"
      by (auto simp: tab1)
    have "database_workerLoop D drv ((p # ps) @ qs) (d, w) =
        ((d2, (?f ^^ length (p # ps)) w), length (p # ps), Ret b)"
      by (simp only: append_Cons database_workerLoop.simps due(1) if_False run prod.case outcome.case simp_thms
        if_True rest length_Cons funpow_Suc_right o_apply)
    with j2 show ?thesis by blast
  qed
qed simp

subsection \<open>A job whose handler always panics\<close>

lemma process_panics:
  assumes j: "table d i = Some j" "eligible (dd_queueName drv) now1 j" "only_due (table d) (dd_queueName drv) [now1] i"
    and ex: "ExecuteJob job_context (dd_registry drv) (job_Name j) (job_Payload j) w = (w', Panic msg)"
  obtains d' where "processNextJob D drv now1 now2 (d, w) = ((d', w'), Panic msg)"
    "table d' = (table d)(i \<mapsto> reserve now1 j)"
  by (rule claim_only [OF j]) (use that ex in \<open>simp add: processNextJob_def\<close>)

lemma panicking_lives:
  assumes "table d i = Some j" "job_Queue j = dd_queueName drv" "eligible (dd_queueName drv) u j"
    "stale_apart u (map fst lives)" "only_due (table d) (dd_queueName drv) (u # map fst lives) i"
    "0 \<le> job_Attempts j" "job_Attempts j + int (Suc (length lives)) \<le> max_int64"
    "\<forall>w. snd (ExecuteJob job_context (dd_registry drv) (job_Name j) (job_Payload j) w) = Panic msg"
  shows "\<exists>d' w' k. worker_lives D drv ((u, u') # lives) (d, w) = ((d', w'), replicate (Suc (length lives)) (Panic msg)) \<and>
    table d' = (table d)(i \<mapsto> k) \<and> job_Status k = ''processing'' \<and>
    job_Attempts k = job_Attempts j + int (Suc (length lives)) \<and> job_MaxAttempts k = job_MaxAttempts j"
  using assms
proof (induction lives arbitrary: d w j u u')
  case Nil
  have wr: "wrap64 (job_Attempts j + 1) = job_Attempts j + 1"
    using Nil.prems(6,7) by (intro wrap64_id) (auto simp: max_int64_def)
  obtain w' where "ExecuteJob job_context (dd_registry drv) (job_Name j) (job_Payload j) w = (w', Panic msg)"
    using Nil.prems(8) by (metis prod.collapse)
  then obtain d' where "processNextJob D drv u u' (d, w) = ((d', w'), Panic msg)"
    "table d' = (table d)(i \<mapsto> reserve u j)"
    using process_panics [OF Nil.prems(1,3)] Nil.prems(5) by (metis list.map_disc_iff)
  with wr show ?case by (intro exI [of _ d'] exI [of _ w'] exI [of _ "reserve u j"]) simp
next
  case (Cons l lives)
  obtain v v' where l: "l = (v, v')" by (cases l)
  have wr: "wrap64 (job_Attempts j + 1) = job_Attempts j + 1"
    using Cons.prems(6,7) by (intro wrap64_id) (auto simp: max_int64_def)
  have only: "only_due (table d) (dd_queueName drv) [u] i"
    "only_due (table d) (dd_queueName drv) (v # map fst lives) i"
    using Cons.prems(5) by (auto simp: l only_due_def)
  obtain w1 where "ExecuteJob job_context (dd_registry drv) (job_Name j) (job_Payload j) w = (w1, Panic msg)"
    using Cons.prems(8) by (metis prod.collapse)
  then obtain d1 where d1: "processNextJob D drv u u' (d, w) = ((d1, w1), Panic msg)"
    "table d1 = (table d)(i \<mapsto> reserve u j)"
    using process_panics [OF Cons.prems(1,3) only(1)] by metis
  have t1: "table d1 i = Some (reserve u j)" by (simp add: d1(2))
  have o1: "only_due (table d1) (dd_queueName drv) (v # map fst lives) i"
    unfolding d1(2) only_due_upd by (rule only(2))
  have stale: "u + 10 * minute < v" "stale_apart v (map fst lives)" using Cons.prems(4) by (simp_all add: l)
  have "\<exists>d' w' k. worker_lives D drv ((v, v') # lives) (d1, w1) = ((d', w'), replicate (Suc (length lives)) (Panic msg)) \<and>
      table d' = (table d1)(i \<mapsto> k) \<and> job_Status k = ''processing'' \<and>
      job_Attempts k = job_Attempts (reserve u j) + int (Suc (length lives)) \<and>
      job_MaxAttempts k = job_MaxAttempts (reserve u j)"
    by (rule Cons.IH [OF t1 _ reserved_stale [OF stale(1) Cons.prems(2)] stale(2) o1])
      (use Cons.prems wr in simp_all)
  then obtain d2 w2 k where rest: "worker_lives D drv ((v, v') # lives) (d1, w1) =
      ((d2, w2), replicate (Suc (length lives)) (Panic msg))"
    and k: "table d2 = (table d)(i \<mapsto> k)" "job_Status k = ''processing''"
      "job_Attempts k = job_Attempts j + int (Suc (length (l # lives)))" "job_MaxAttempts k = job_MaxAttempts j"
    using wr by (auto simp: d1(2))
  have "worker_lives D drv ((u, u') # l # lives) (d, w) =
      ((d2, w2), replicate (Suc (length (l # lives))) (Panic msg))"
    by (simp only: worker_lives.simps(2) [of D drv u u'] d1(1) l rest prod.case length_Cons replicate_Suc)
  with k show ?case by blast
qed

end

section \<open>The driver implements the contracts of its callers\<close>

definition database_queue_dispatch ::
  "'d job_db \<Rightarrow> ('v \<Rightarrow> err + string) \<Rightarrow> instant \<Rightarrow> 'w database_driver \<times> 'd \<Rightarrow> go_context \<Rightarrow> string \<Rightarrow>
   'v payload \<Rightarrow> (('w database_driver \<times> 'd) \<times> err option) outcome" where
  "database_queue_dispatch D marshal now q ctx name p =
     (case database_Dispatch D marshal (fst q) ctx name p now (snd q) of
        (d', e) \<Rightarrow> Ret ((fst q, d'), e))"

interpretation database_queue:
  queue_driver "\<lambda>q. dd_registry (fst q)" "database_queue_dispatch D marshal now"
    "\<lambda>q name h. (database_RegisterHandler (fst q) name h, snd q)" marshal
  for D :: "'d job_db" and marshal :: "'v \<Rightarrow> err + string" and now :: instant
  by unfold_locales
    (auto simp: database_RegisterHandler_def database_queue_dispatch_def database_Dispatch_def
      database_DispatchDelayed_def split: prod.splits)

interpretation database_lifecycle: worker_lifecycle dd_running dd_quit database_Start database_Stop
  by unfold_locales (auto simp: database_Start_def database_Stop_def Let_def)

end
