(* ===== verification/Database_Properties.thy ===== *)
theory Database_Properties
  imports Database_Driver
begin

text \<open>
  The properties of the database queue, \<open>pkg/queue/driver_database.go\<close>, over any job store that
  meets the contract of \<open>Job_Store\<close>, each with a witness on the table in memory. The sample
  driver has two handlers that count their executions in the world: one succeeds, one fails.
\<close>

section \<open>A concrete driver\<close>

definition good_handler :: "nat handler" where
  "good_handler c raw w = (Suc w, Ret None)"

definition bad_handler :: "nat handler" where
  "bad_handler c raw w = (Suc w, Ret (Some (ErrNew ''boom'')))"

definition sample_registry :: "nat registry" where
  "sample_registry = Register (Register NewRegistry ''good'' good_handler) ''bad'' bad_handler"

definition sample_driver :: "nat database_driver" where
  "sample_driver =
     NewDatabaseDriver
       \<lparr>dc_QueueName = [], dc_Concurrency = 0, dc_MaxAttempts = 2, dc_PollInterval = 0\<rparr>
       (Some sample_registry)"

definition sample_marshal :: "string \<Rightarrow> err + string" where
  "sample_marshal v = Inr v"

definition sample_job :: "string \<Rightarrow> instant \<Rightarrow> job_record" where
  "sample_job name now = new_job_record sample_driver name ''p'' 0 now"

definition sample_store :: mem_table where
  "sample_store =
     fst (database_Dispatch mem_job_db sample_marshal sample_driver Background ''bad'' (Str ''p'') 100
       (fst (database_Dispatch mem_job_db sample_marshal sample_driver Background ''good'' (Str ''p'') 50
         mem_empty)))"

definition bad_store :: mem_table where
  "bad_store =
     fst (database_Dispatch mem_job_db sample_marshal sample_driver Background ''bad'' (Str ''p'') 100
       mem_empty)"

definition sample_poll :: "instant \<Rightarrow> poll" where
  "sample_poll t = \<lparr>poll_quit = False, poll_now1 = t, poll_now2 = t + 1, poll_backoff_quit = False\<rparr>"

lemma dispatch_mem_rows:
  "mem_rows (fst (database_Dispatch mem_job_db sample_marshal sample_driver c name (Str ''p'') now t)) =
     (mem_rows t)(mt_next t \<mapsto> (sample_job name now)\<lparr>job_ID := mt_next t\<rparr>)"
  by (simp add: database_Dispatch_def database_DispatchDelayed_def MarshalPayload_def mem_job_db_def
      mem_rows_put_new sample_job_def)

lemma bad_store_rows: "mem_rows bad_store = [1 \<mapsto> (sample_job ''bad'' 100)\<lparr>job_ID := 1\<rparr>]"
  unfolding bad_store_def by (simp add: dispatch_mem_rows) (simp add: mem_empty_def)

lemma sample_job_simps [simp]:
  "job_Queue (sample_job name now) = dd_queueName sample_driver"
  "job_Status (sample_job name now) = ''pending''"
  "job_Attempts (sample_job name now) = 0"
  "job_MaxAttempts (sample_job name now) = 2"
  "job_AvailableAt (sample_job name now) = now"
  "job_ReservedAt (sample_job name now) = None"
  "job_Name (sample_job name now) = name"
  by (simp_all add: sample_job_def new_job_record_def sample_driver_def NewDatabaseDriver_def)

lemma bad_handler_fails:
  "snd (ExecuteJob c (dd_registry sample_driver) ''bad'' raw w) = Ret (Some (ErrNew ''boom''))"
  by (simp add: ExecuteJob_def sample_driver_def NewDatabaseDriver_def sample_registry_def bad_handler_def)

lemma bad_store_row: "mem_rows bad_store 1 = Some ((sample_job ''bad'' 100)\<lparr>job_ID := 1\<rparr>)"
  by (simp add: bad_store_rows)

lemma bad_store_only: "only_due (mem_rows bad_store) q ts 1"
  by (simp add: only_due_def bad_store_rows)

lemma bad_store_upd: "(mem_rows bad_store)(1 \<mapsto> j) = [1 \<mapsto> j]"
  by (simp add: bad_store_rows)

lemma bad_store_turn:
  obtains d' w' where
    "processNextJob mem_job_db sample_driver 120 121 (bad_store, 0) = ((d', w'), Ret (True, None))"
proof -
  obtain w' where ex: "ExecuteJob job_context (dd_registry sample_driver) ''bad'' (job_Payload (sample_job ''bad'' 100)) 0 =
      (w', Ret (Some (ErrNew ''boom'')))"
    using bad_handler_fails by (metis prod.collapse)
  have due: "job_AvailableAt ((sample_job ''bad'' 100)\<lparr>job_ID := 1\<rparr>) \<le> 120" by simp
  show ?thesis
    by (rule mem.process_failing [OF bad_store_row _ _ due bad_store_only, of sample_driver])
      (use ex that in simp_all)
qed

section \<open>Properties\<close>

text \<open>
  C7. The transaction of \<open>processNextJob\<close> either leaves the database as it was and returns an
  error, or claims a row that is due: of this queue, pending and available, or reserved more than
  ten minutes ago. No due row has an earlier \<open>available_at\<close>, or the same with a smaller \<open>id\<close>.
  The claimed row is marked as processing with one more attempt, and no other row changes.
\<close>

theorem claim_takes_earliest_due:
  assumes "job_store D table"
  shows "case claim D q now d of
      (d', Inl e) \<Rightarrow> d' = d
    | (d', Inr job) \<Rightarrow>
        (\<exists>j. table d (job_ID j) = Some j \<and> eligible q now j \<and>
          (\<forall>i k. table d i = Some k \<longrightarrow> eligible q now k \<longrightarrow> claim_key j \<le> claim_key k) \<and>
          job = reserve now j \<and> table d' = (table d)(job_ID j \<mapsto> job))"
proof (cases "claim D q now d")
  case (Pair d' r)
  with job_store.claim_cases [OF assms Pair] show ?thesis by fastforce
qed

lemma sample_claim:
  "snd (claim mem_job_db ''default'' 120 sample_store) =
     Inr (reserve 120 ((sample_job ''good'' 50)\<lparr>job_ID := 1\<rparr>))"
  by code_simp

theorem claim_takes_earliest_due_witness:
  "\<exists>d' j. claim mem_job_db ''default'' 120 sample_store = (d', Inr (reserve 120 j)) \<and>
     job_Name j = ''good'' \<and> mem_rows sample_store (job_ID j) = Some j \<and>
     (\<forall>i k. mem_rows sample_store i = Some k \<longrightarrow> eligible ''default'' 120 k \<longrightarrow> claim_key j \<le> claim_key k)"
proof -
  obtain d' where c: "claim mem_job_db ''default'' 120 sample_store =
      (d', Inr (reserve 120 ((sample_job ''good'' 50)\<lparr>job_ID := 1\<rparr>)))"
    using sample_claim by (metis prod.collapse)
  with claim_takes_earliest_due [OF mem.job_store_axioms,
      where q = "''default''" and now = 120 and d = sample_store]
  obtain j where "mem_rows sample_store (job_ID j) = Some j"
    "\<forall>i k. mem_rows sample_store i = Some k \<longrightarrow> eligible ''default'' 120 k \<longrightarrow> claim_key j \<le> claim_key k"
    "reserve 120 ((sample_job ''good'' 50)\<lparr>job_ID := 1\<rparr>) = reserve 120 j"
    by auto
  moreover from this(3) have "job_Name (reserve 120 ((sample_job ''good'' 50)\<lparr>job_ID := 1\<rparr>)) =
      job_Name (reserve 120 j)" by simp
  then have "job_Name j = ''good''" by simp
  ultimately show ?thesis using c by metis
qed

text \<open>
  C6. What becomes of a job that was processed, when the database does not fail: the handler
  registered for its name was run once on its payload; if it succeeded the row is gone; if it
  failed with attempts left the row is pending again, available after the retry delay, with the
  error recorded; and if it failed on the last attempt the row is marked as failed for good.
\<close>

theorem process_settles_row:
  assumes "reliable_job_store D table"
    and "processNextJob D drv now1 now2 (d, w) = ((d', w'), Ret (True, e))"
  shows "\<exists>j execErr. table d (job_ID j) = Some j \<and> eligible (dd_queueName drv) now1 j \<and>
    ExecuteJob job_context (dd_registry drv) (job_Name j) (job_Payload j) w = (w', Ret execErr) \<and>
    table d' = (table d)(job_ID j :=
      (case execErr of
         None \<Rightarrow> None
       | Some x \<Rightarrow>
           Some (if wrap64 (job_Attempts j + 1) < job_MaxAttempts j
             then retry_fields (now2 + the (retry_delay (wrap64 (job_Attempts j + 1)))) x now2 (reserve now1 j)
             else failed_fields x now2 (reserve now1 j))))"
  using assms(2)
proof (rule job_store.process_jobE [OF reliable_job_store.axioms(1) [OF assms(1)]])
  fix j d1 execErr
  assume j: "table d (job_ID j) = Some j" "eligible (dd_queueName drv) now1 j"
    and d1: "table d1 = (table d)(job_ID j \<mapsto> reserve now1 j)"
    and ex: "ExecuteJob job_context (dd_registry drv) (job_Name j) (job_Payload j) w = (w', Ret execErr)"
    and st: "settle D now2 d1 (reserve now1 j) execErr = Ret d'"
  from reliable_job_store.settle_table [OF assms(1) st] d1
  have "table d' = (table d)(job_ID j :=
      (case execErr of
         None \<Rightarrow> None
       | Some x \<Rightarrow>
           Some (if wrap64 (job_Attempts j + 1) < job_MaxAttempts j
             then retry_fields (now2 + the (retry_delay (wrap64 (job_Attempts j + 1)))) x now2 (reserve now1 j)
             else failed_fields x now2 (reserve now1 j))))"
    by (cases execErr) auto
  with j ex show ?thesis by blast
qed

theorem process_settles_row_witness:
  "\<exists>d' w'. processNextJob mem_job_db sample_driver 120 121 (bad_store, 0) = ((d', w'), Ret (True, None)) \<and>
    (\<exists>j execErr. mem_rows bad_store (job_ID j) = Some j \<and> eligible (dd_queueName sample_driver) 120 j \<and>
      ExecuteJob job_context (dd_registry sample_driver) (job_Name j) (job_Payload j) 0 = (w', Ret execErr) \<and>
      mem_rows d' = (mem_rows bad_store)(job_ID j :=
        (case execErr of
           None \<Rightarrow> None
         | Some x \<Rightarrow>
             Some (if wrap64 (job_Attempts j + 1) < job_MaxAttempts j
               then retry_fields (121 + the (retry_delay (wrap64 (job_Attempts j + 1)))) x 121 (reserve 120 j)
               else failed_fields x 121 (reserve 120 j)))))"
proof -
  obtain d' w' where run:
    "processNextJob mem_job_db sample_driver 120 121 (bad_store, 0) = ((d', w'), Ret (True, None))"
    by (rule bad_store_turn)
  from run process_settles_row [OF mem.reliable_job_store_axioms run] show ?thesis by blast
qed

text \<open>
  C24. \<open>processNextJob\<close> keeps the table invariant, whatever the database's calls return, also when it
  panics: attempts are counted, a pending row has attempts left and is not reserved, a row being
  processed was attempted and is reserved, and only a row that used up its attempts is failed. It
  panics only when the handler of a claimed job does, and then the claim is all that has happened to
  the table.
\<close>

theorem process_keeps_table_ok:
  assumes "job_store D table" and "job_table_ok n (table d)" and "n < max_int64"
  shows "case processNextJob D drv now1 now2 (d, w) of
      ((d', w'), Ret r) \<Rightarrow> job_table_ok (n + 1) (table d')
    | ((d', w'), Panic msg) \<Rightarrow> job_table_ok (n + 1) (table d') \<and>
        (\<exists>j. table d (job_ID j) = Some j \<and> table d' = (table d)(job_ID j \<mapsto> reserve now1 j) \<and>
           ExecuteJob job_context (dd_registry drv) (job_Name j) (job_Payload j) w = (w', Panic msg))"
proof (cases "processNextJob D drv now1 now2 (d, w)")
  case (Pair s' r)
  obtain d' w' where s': "s' = (d', w')" by (cases s')
  show ?thesis
  proof (cases r)
    case (Ret x)
    with Pair s' obtain b e where "processNextJob D drv now1 now2 (d, w) = ((d', w'), Ret (b, e))"
      by (cases x) auto
    with job_store.process_table_ok [OF assms(1) this assms(2,3)] show ?thesis by simp
  next
    case (Panic msg)
    with Pair s' job_store.process_returns [OF assms, of drv now1 now2 w] show ?thesis by auto
  qed
qed

lemma sample_table_ok: "job_table_ok 0 (mem_rows bad_store)"
  by (simp add: job_table_ok_def bad_store_rows job_ok_def)

theorem process_keeps_table_ok_witness:
  "case processNextJob mem_job_db sample_driver 120 121 (bad_store, 7) of
      ((d', w'), Ret r) \<Rightarrow> job_table_ok 1 (mem_rows d')
    | ((d', w'), Panic msg) \<Rightarrow> job_table_ok 1 (mem_rows d') \<and>
        (\<exists>j. mem_rows bad_store (job_ID j) = Some j \<and>
           mem_rows d' = (mem_rows bad_store)(job_ID j \<mapsto> reserve 120 j) \<and>
           ExecuteJob job_context (dd_registry sample_driver) (job_Name j) (job_Payload j) 7 = (w', Panic msg))"
proof -
  have "0 < max_int64" by (simp add: max_int64_def)
  from process_keeps_table_ok [OF mem.job_store_axioms sample_table_ok this, of 120 sample_driver 7 121]
  show ?thesis by (simp only: add_0_left)
qed

text \<open>
  Dispatching adds one pending row with no attempts, due at once or after the delay, and
  keeps the table invariant; when the payload cannot be marshalled or the insert fails, an error
  is returned and the table is unchanged.
\<close>

theorem dispatch_inserts_pending:
  assumes "job_store D table" and "job_table_ok n (table d)" and "0 \<le> n"
    and "dc_MaxAttempts cfg < 2 ^ 63"
  shows "case database_DispatchDelayed D marshal (NewDatabaseDriver cfg reg) ctx name p delay now d of
      (d', Some e) \<Rightarrow> table d' = table d
    | (d', None) \<Rightarrow> job_table_ok n (table d') \<and>
        (\<exists>i j. table d i = None \<and> table d' = (table d)(i \<mapsto> j) \<and> job_Name j = name \<and>
           job_Status j = ''pending'' \<and> job_Attempts j = 0 \<and>
           job_AvailableAt j = now + max 0 delay \<and>
           (\<forall>t. eligible (dd_queueName (NewDatabaseDriver cfg reg)) t j \<longleftrightarrow> now + max 0 delay \<le> t))"
proof (cases "database_DispatchDelayed D marshal (NewDatabaseDriver cfg reg) ctx name p delay now d")
  case (Pair d' r)
  have max: "1 \<le> dd_maxAttempts (NewDatabaseDriver cfg reg)"
    "dd_maxAttempts (NewDatabaseDriver cfg reg) < 2 ^ 63"
    using assms(4) by (simp_all add: NewDatabaseDriver_def)
  have ok: "job_table_ok n (table d')"
    by (rule job_store.dispatch_table_ok [OF assms(1) Pair assms(2,3) max])
  show ?thesis
    using job_store.dispatch_table [OF assms(1) Pair]
  proof (elim disjE exE conjE)
    assume "table d' = table d" "r \<noteq> None"
    with Pair show ?thesis by auto
  next
    fix raw i
    let ?j = "(new_job_record (NewDatabaseDriver cfg reg) name raw delay now)\<lparr>job_ID := i\<rparr>"
    assume r: "r = None" and i: "table d i = None" and d': "table d' = (table d)(i \<mapsto> ?j)"
    have "job_Name ?j = name \<and> job_Status ?j = ''pending'' \<and> job_Attempts ?j = 0 \<and>
        job_AvailableAt ?j = now + max 0 delay \<and>
        (\<forall>t. eligible (dd_queueName (NewDatabaseDriver cfg reg)) t ?j \<longleftrightarrow> now + max 0 delay \<le> t)"
      by (simp add: new_job_record_def)
    with i d' have "\<exists>i j. table d i = None \<and> table d' = (table d)(i \<mapsto> j) \<and> job_Name j = name \<and>
        job_Status j = ''pending'' \<and> job_Attempts j = 0 \<and> job_AvailableAt j = now + max 0 delay \<and>
        (\<forall>t. eligible (dd_queueName (NewDatabaseDriver cfg reg)) t j \<longleftrightarrow> now + max 0 delay \<le> t)"
      by blast
    with r ok Pair show ?thesis by simp
  qed
qed

theorem dispatch_inserts_pending_witness:
  "case database_DispatchDelayed mem_job_db sample_marshal
        (NewDatabaseDriver \<lparr>dc_QueueName = [], dc_Concurrency = 1, dc_MaxAttempts = 3, dc_PollInterval = 0\<rparr>
          (Some sample_registry)) Background ''good'' (Str ''x'') 10 200 bad_store of
      (d', Some e) \<Rightarrow> mem_rows d' = mem_rows bad_store
    | (d', None) \<Rightarrow> job_table_ok 0 (mem_rows d') \<and>
        (\<exists>i j. mem_rows bad_store i = None \<and> mem_rows d' = (mem_rows bad_store)(i \<mapsto> j) \<and>
           job_Name j = ''good'' \<and> job_Status j = ''pending'' \<and> job_Attempts j = 0 \<and>
           job_AvailableAt j = 200 + max 0 10 \<and>
           (\<forall>t. eligible (dd_queueName (NewDatabaseDriver
              \<lparr>dc_QueueName = [], dc_Concurrency = 1, dc_MaxAttempts = 3, dc_PollInterval = 0\<rparr>
              (Some sample_registry))) t j \<longleftrightarrow> 200 + max 0 10 \<le> t))"
  by (rule dispatch_inserts_pending [OF mem.job_store_axioms sample_table_ok]) simp_all

text \<open>
  The retry delay after attempt \<open>a\<close> is exactly \<open>2 ^ (a + 1)\<close> seconds, so 4, 8, 16, \<dots>
  seconds, as long as \<open>a \<le> 32\<close>; after attempt 33 the multiplication of \<open>time.Duration\<close> has
  overflowed and the delay is negative: the job is due again at once.
\<close>

theorem retry_delay_doubles_then_overflows:
  "(\<forall>a \<in> {1..32}. retry_delay a = Some (2 ^ (nat a + 1) * second)) \<and>
   retry_delay 1 = Some (4 * second) \<and>
   (\<exists>x. retry_delay 33 = Some x \<and> x < 0)"
proof (intro conjI ballI)
  fix a :: int
  assume "a \<in> {1..32}"
  then show "retry_delay a = Some (2 ^ (nat a + 1) * second)" by (intro retry_delay_exact) auto
next
  show "retry_delay 1 = Some (4 * second)" using retry_delay_exact [of 1] by simp
next
  show "\<exists>x. retry_delay 33 = Some x \<and> x < 0"
    by (simp add: retry_delay_def go_shl1_def duration_of_def wrap64_def second_def)
qed

theorem retry_delay_doubles_then_overflows_witness:
  "retry_delay 3 = Some (16 * second)"
  using retry_delay_doubles_then_overflows by (auto dest!: bspec [of _ _ 3])





text \<open>
  C15. \<open>MaxAttempts\<close> does not bound the executions of a job whose handler panics. The panic is not
  recovered: it ends the worker's turn, and the process with it, after the claim was committed. So
  each life of the process, started more than ten minutes after the last claim, while no other row of
  the queue is due then and the database does not fail, claims the row that the last one left and
  panics again. After any number of lives, below the range of \<open>int\<close>, the row is there as processing, with
  one attempt for each life, since the query does not look at \<open>max_attempts\<close>.
\<close>

theorem crashing_job_reclaimed_past_max:
  assumes "reliable_job_store D table" and "table d i = Some j" and "job_Queue j = dd_queueName drv"
    and "job_Status j = ''pending''" and "job_Attempts j = 0" and "job_AvailableAt j \<le> u"
    and "stale_apart u (map fst lives)" and "only_due (table d) (dd_queueName drv) (u # map fst lives) i"
    and "int (Suc (length lives)) \<le> max_int64"
    and "\<forall>w. snd (ExecuteJob job_context (dd_registry drv) (job_Name j) (job_Payload j) w) = Panic msg"
  shows "\<exists>d' w' k. worker_lives D drv ((u, u') # lives) (d, w) =
      ((d', w'), replicate (Suc (length lives)) (Panic msg)) \<and>
    table d' = (table d)(i \<mapsto> k) \<and> job_Status k = ''processing'' \<and>
    job_Attempts k = int (Suc (length lives)) \<and> job_MaxAttempts k = job_MaxAttempts j"
proof -
  have due: "eligible (dd_queueName drv) u j" using assms(3,4,6) by simp
  from reliable_job_store.panicking_lives [OF assms(1-3) due assms(7,8) _ _ assms(10), of u' w] assms(5,9)
  show ?thesis by simp
qed

definition panic_handler :: "nat handler" where
  "panic_handler c raw w = (Suc w, Panic ''nil map'')"

definition panic_driver :: "nat database_driver" where
  "panic_driver = database_RegisterHandler sample_driver ''bad'' panic_handler"

lemma panic_driver_simps [simp]:
  "dd_queueName panic_driver = dd_queueName sample_driver"
  "ExecuteJob c (dd_registry panic_driver) ''bad'' raw w = (Suc w, Panic ''nil map'')"
  by (simp_all add: panic_driver_def database_RegisterHandler_def ExecuteJob_def panic_handler_def)

theorem crashing_job_reclaimed_past_max_witness:
  "\<exists>d' w' k. worker_lives mem_job_db panic_driver [(120, 0), (hour, 0), (2 * hour, 0), (3 * hour, 0)] (bad_store, 0) =
      ((d', w'), replicate 4 (Panic ''nil map'')) \<and>
    mem_rows d' = [1 \<mapsto> k] \<and> job_Status k = ''processing'' \<and> job_Attempts k = 4 \<and> job_MaxAttempts k = 2"
proof -
  have "stale_apart 120 [hour, 2 * hour, 3 * hour]"
    by (simp add: hour_def minute_def second_def)
  with crashing_job_reclaimed_past_max [OF mem.reliable_job_store_axioms bad_store_row,
      of panic_driver 120 "[(hour, 0), (2 * hour, 0), (3 * hour, 0)]" "''nil map''" 0 0] bad_store_only
  have "\<exists>d' w' k. worker_lives mem_job_db panic_driver [(120, 0), (hour, 0), (2 * hour, 0), (3 * hour, 0)] (bad_store, 0) =
      ((d', w'), replicate (Suc (length [(hour, 0), (2 * hour, 0), (3 * hour, 0 :: instant)])) (Panic ''nil map'')) \<and>
    mem_rows d' = (mem_rows bad_store)(1 \<mapsto> k) \<and> job_Status k = ''processing'' \<and> job_Attempts k = 4 \<and>
    job_MaxAttempts k = 2"
    by (simp add: max_int64_def del: worker_lives.simps replicate.simps)
  moreover have "Suc (length [(hour, 0), (2 * hour, 0), (3 * hour, 0 :: instant)]) = 4" by simp
  ultimately show ?thesis unfolding bad_store_upd by (simp only:)
qed

end
