(* ===== verification/Database_Workers.thy ===== *)
theory Database_Workers
  imports Database_Properties
begin

text \<open>
  Several workers on one \<open>jobs\<close> table, in one process or in many (\<open>cmd/worker\<close>): the steps of
  \<open>processNextJob\<close> interleaved. A worker holds a job from the commit of its claim until it
  settles it. Two machines:

  \<^item> \<open>cluster_step\<close>: the claiming transaction is serialised, as on SQLite, where the pool is
    limited to one connection (\<open>pkg/database\<close>);
  \<^item> \<open>read_committed_step\<close>: the query and the \<open>Save\<close> of the transaction are separate steps, as
    on PostgreSQL and MySQL at their usual isolation levels, since the query takes no row lock.

  The clock is shared. \<open>limit\<close> bounds the time between claim and settlement; the code gives
  handlers a context of 60 seconds, but does not stop one that ignores it.
\<close>

section \<open>The serialised machine\<close>

record 'd cluster =
  cl_now :: instant
  cl_store :: 'd
  cl_busy :: "nat \<rightharpoonup> job_record" \<comment> \<open>the job each worker is executing\<close>

definition cluster_init :: "instant \<Rightarrow> 'd \<Rightarrow> 'd cluster" where
  "cluster_init now d = \<lparr>cl_now = now, cl_store = d, cl_busy = Map.empty\<rparr>"

definition within_limit :: "duration \<Rightarrow> instant \<Rightarrow> job_record \<Rightarrow> bool" where
  "within_limit limit t j = (case job_ReservedAt j of None \<Rightarrow> True | Some r \<Rightarrow> t \<le> r + limit)"

inductive cluster_step ::
  "'d job_db \<Rightarrow> ('v \<Rightarrow> err + string) \<Rightarrow> 'w database_driver \<Rightarrow> duration \<Rightarrow>
   'd cluster \<Rightarrow> 'd cluster \<Rightarrow> bool"
  for D :: "'d job_db" and marshal :: "'v \<Rightarrow> err + string" and drv :: "'w database_driver"
    and limit :: duration where
  tick: "cl_now s \<le> t \<Longrightarrow> (\<And>w j. cl_busy s w = Some j \<Longrightarrow> within_limit limit t j) \<Longrightarrow>
    cluster_step D marshal drv limit s (s\<lparr>cl_now := t\<rparr>)"
| claim: "cl_busy s w = None \<Longrightarrow> claim D (dd_queueName drv) (cl_now s) (cl_store s) = (d', Inr job) \<Longrightarrow>
    cluster_step D marshal drv limit s (s\<lparr>cl_store := d', cl_busy := (cl_busy s)(w \<mapsto> job)\<rparr>)"
| settle: "cl_busy s w = Some job \<Longrightarrow> settle D (cl_now s) (cl_store s) job execErr = Ret d' \<Longrightarrow>
    cluster_step D marshal drv limit s (s\<lparr>cl_store := d', cl_busy := (cl_busy s)(w := None)\<rparr>)"
| crash: "cl_busy s w = Some job \<Longrightarrow>
    cluster_step D marshal drv limit s (s\<lparr>cl_busy := (cl_busy s)(w := None)\<rparr>)"
| dispatch: "database_DispatchDelayed D marshal drv ctx name p delay (cl_now s) (cl_store s) = (d', r) \<Longrightarrow>
    cluster_step D marshal drv limit s (s\<lparr>cl_store := d'\<rparr>)"

inductive cluster_reach ::
  "'d job_db \<Rightarrow> ('v \<Rightarrow> err + string) \<Rightarrow> 'w database_driver \<Rightarrow> duration \<Rightarrow>
   'd cluster \<Rightarrow> 'd cluster \<Rightarrow> bool"
  for D :: "'d job_db" and marshal :: "'v \<Rightarrow> err + string" and drv :: "'w database_driver"
    and limit :: duration and s0 :: "'d cluster" where
  init: "cluster_reach D marshal drv limit s0 s0"
| step: "cluster_reach D marshal drv limit s0 s \<Longrightarrow> cluster_step D marshal drv limit s t \<Longrightarrow> cluster_reach D marshal drv limit s0 t"

text \<open>
  Each held job is the row in the table, reserved within the limit; no two workers hold the same.
\<close>

definition holds_row :: "(nat \<rightharpoonup> job_record) \<Rightarrow> duration \<Rightarrow> instant \<Rightarrow> job_record \<Rightarrow> bool" where
  "holds_row t limit now j \<longleftrightarrow>
     t (job_ID j) = Some j \<and> job_Status j = ''processing'' \<and>
     (\<exists>r. job_ReservedAt j = Some r \<and> now \<le> r + limit)"

definition cluster_inv :: "('d \<Rightarrow> nat \<rightharpoonup> job_record) \<Rightarrow> duration \<Rightarrow> 'd cluster \<Rightarrow> bool" where
  "cluster_inv table limit s \<longleftrightarrow>
     (\<forall>w j. cl_busy s w = Some j \<longrightarrow> holds_row (table (cl_store s)) limit (cl_now s) j) \<and>
     (\<forall>w w' j j'. cl_busy s w = Some j \<longrightarrow> cl_busy s w' = Some j' \<longrightarrow> job_ID j = job_ID j' \<longrightarrow> w = w')"

section \<open>The machine with separate reads and writes\<close>

record 'd rc_cluster = "'d cluster" +
  rc_read :: "nat \<rightharpoonup> job_record" \<comment> \<open>the row a worker's open transaction has read\<close>

definition rc_init :: "instant \<Rightarrow> 'd \<Rightarrow> 'd rc_cluster" where
  "rc_init now d = \<lparr>cl_now = now, cl_store = d, cl_busy = Map.empty, rc_read = Map.empty\<rparr>"

inductive read_committed_step ::
  "'d job_db \<Rightarrow> string \<Rightarrow> 'd rc_cluster \<Rightarrow> 'd rc_cluster \<Rightarrow> bool"
  for D :: "'d job_db" and q :: string where
  read: "cl_busy s w = None \<Longrightarrow> rc_read s w = None \<Longrightarrow>
    jdb_Find D (cl_store s) (eligible q (cl_now s)) claim_key = Inr (Some j) \<Longrightarrow>
    read_committed_step D q s (s\<lparr>rc_read := (rc_read s)(w \<mapsto> j)\<rparr>)"
| save: "rc_read s w = Some j \<Longrightarrow>
    jdb_Save D (cl_store s) (reserve (cl_now s) j) = (d', None) \<Longrightarrow>
    read_committed_step D q s
      (s\<lparr>cl_store := d', rc_read := (rc_read s)(w := None),
         cl_busy := (cl_busy s)(w \<mapsto> reserve (cl_now s) j)\<rparr>)"

inductive read_committed_reach ::
  "'d job_db \<Rightarrow> string \<Rightarrow> 'd rc_cluster \<Rightarrow> 'd rc_cluster \<Rightarrow> bool"
  for D :: "'d job_db" and q :: string and s0 :: "'d rc_cluster" where
  rc_start: "read_committed_reach D q s0 s0"
| rc_next: "read_committed_reach D q s0 s \<Longrightarrow> read_committed_step D q s t \<Longrightarrow> read_committed_reach D q s0 t"

section \<open>Lemmas\<close>

lemma cluster_inv_init: "cluster_inv table limit (cluster_init now d)"
  by (simp add: cluster_inv_def cluster_init_def)

lemma cluster_inv_holds:
  "cluster_inv table limit s \<Longrightarrow> cl_busy s w = Some j \<Longrightarrow>
   holds_row (table (cl_store s)) limit (cl_now s) j"
  unfolding cluster_inv_def by blast

lemma cluster_inv_unique:
  "cluster_inv table limit s \<Longrightarrow> cl_busy s w = Some j \<Longrightarrow> cl_busy s w' = Some j' \<Longrightarrow>
   job_ID j = job_ID j' \<Longrightarrow> w = w'"
  unfolding cluster_inv_def by blast

lemma cluster_invI:
  assumes "\<And>w j. cl_busy s w = Some j \<Longrightarrow> holds_row (table (cl_store s)) limit (cl_now s) j"
    and "\<And>w w' j j'. cl_busy s w = Some j \<Longrightarrow> cl_busy s w' = Some j' \<Longrightarrow> job_ID j = job_ID j' \<Longrightarrow> w = w'"
  shows "cluster_inv table limit s"
  unfolding cluster_inv_def using assms by blast

lemma holds_row_not_eligible:
  assumes "holds_row t limit now j" "limit \<le> 10 * minute"
  shows "\<not> eligible q now j"
  using assms by (auto simp: holds_row_def eligible_reserved)

lemma holds_row_upd:
  "holds_row t limit now j \<Longrightarrow> job_ID j \<noteq> i \<Longrightarrow> holds_row (t(i := r)) limit now j"
  by (simp add: holds_row_def)

text \<open>Changing a row nobody but the changing worker holds keeps what the others hold.\<close>

lemma cluster_inv_release:
  assumes inv: "cluster_inv table limit s" and w: "cl_busy s w = Some job"
    and tab: "table d' = table (cl_store s) \<or> (\<exists>r. table d' = (table (cl_store s))(job_ID job := r))"
  shows "cluster_inv table limit (s\<lparr>cl_store := d', cl_busy := (cl_busy s)(w := None)\<rparr>)"
proof -
  let ?t = "s\<lparr>cl_store := d', cl_busy := (cl_busy s)(w := None)\<rparr>"
  have old: "cl_busy s v = Some j \<and> v \<noteq> w" if "cl_busy ?t v = Some j" for v j
    using that by (simp split: if_splits)
  show ?thesis
  proof (rule cluster_invI)
    fix v j
    assume "cl_busy ?t v = Some j"
    note j = old [OF this, THEN conjunct1] old [OF this, THEN conjunct2]
    have "job_ID j \<noteq> job_ID job" using cluster_inv_unique [OF inv j(1) w] j(2) by blast
    with tab show "holds_row (table (cl_store ?t)) limit (cl_now ?t) j"
      using cluster_inv_holds [OF inv j(1)] holds_row_upd [OF cluster_inv_holds [OF inv j(1)]] by auto
  next
    fix v v' j j'
    assume "cl_busy ?t v = Some j" "cl_busy ?t v' = Some j'" and eq: "job_ID j = job_ID j'"
    then have "cl_busy s v = Some j" "cl_busy s v' = Some j'" using old by blast+
    then show "v = v'" using eq by (rule cluster_inv_unique [OF inv])
  qed
qed

context job_store
begin

lemma claim_keeps_inv:
  assumes inv: "cluster_inv table limit s" and lim: "0 \<le> limit" "limit \<le> 10 * minute"
    and cl: "claim D q (cl_now s) (cl_store s) = (d', Inr job)"
  shows "cluster_inv table limit (s\<lparr>cl_store := d', cl_busy := (cl_busy s)(w \<mapsto> job)\<rparr>)"
  using cl
proof (rule claim_okE)
  fix j
  assume job: "job = reserve (cl_now s) j" and j: "table (cl_store s) (job_ID j) = Some j"
    "eligible q (cl_now s) j"
    and d': "table d' = (table (cl_store s))(job_ID j \<mapsto> reserve (cl_now s) j)"
  have new: "holds_row (table d') limit (cl_now s) job"
    using lim(1) by (simp add: holds_row_def job d')
  have other: "job_ID k \<noteq> job_ID j \<and> holds_row (table d') limit (cl_now s) k"
    if k: "cl_busy s v = Some k" for v k
  proof -
    note h = cluster_inv_holds [OF inv k]
    have "job_ID k \<noteq> job_ID j"
    proof
      assume "job_ID k = job_ID j"
      moreover have "table (cl_store s) (job_ID k) = Some k" using h by (simp add: holds_row_def)
      ultimately have "k = j" using j(1) by (metis option.inject)
      with h j(2) holds_row_not_eligible [OF _ lim(2)] show False by blast
    qed
    then show ?thesis using holds_row_upd [OF h] by (simp add: d')
  qed
  have ids: "job_ID job = job_ID j" by (simp add: job)
  let ?t = "s\<lparr>cl_store := d', cl_busy := (cl_busy s)(w \<mapsto> job)\<rparr>"
  have busy: "cl_busy ?t v = Some k \<Longrightarrow> v = w \<and> k = job \<or> v \<noteq> w \<and> cl_busy s v = Some k" for v k
    by (simp split: if_splits)
  show ?thesis
  proof (rule cluster_invI)
    fix v k
    assume "cl_busy ?t v = Some k"
    with busy new other show "holds_row (table (cl_store ?t)) limit (cl_now ?t) k" by fastforce
  next
    fix v v' k k'
    assume k: "cl_busy ?t v = Some k" "cl_busy ?t v' = Some k'" and eq: "job_ID k = job_ID k'"
    show "v = v'"
      using busy [OF k(1)] busy [OF k(2)]
    proof (elim disjE conjE)
      assume "cl_busy s v = Some k" "cl_busy s v' = Some k'"
      then show "v = v'" using eq by (rule cluster_inv_unique [OF inv])
    qed (use eq ids other in auto)
  qed
qed

lemma cluster_step_inv:
  assumes "cluster_step D marshal drv limit s t" "cluster_inv table limit s" "0 \<le> limit" "limit \<le> 10 * minute"
  shows "cluster_inv table limit t"
  using assms(1)
proof cases
  case (tick u)
  show ?thesis
  proof (rule cluster_invI)
    fix w j
    assume "cl_busy t w = Some j"
    with tick have "cl_busy s w = Some j" and "within_limit limit u j" by auto
    with cluster_inv_holds [OF assms(2)] tick(1)
    show "holds_row (table (cl_store t)) limit (cl_now t) j"
      by (fastforce simp: holds_row_def within_limit_def)
  qed (use cluster_inv_unique [OF assms(2)] tick(1) in auto)
next
  case (claim w d' job)
  with claim_keeps_inv [OF assms(2-4)] show ?thesis by blast
next
  case (settle w job execErr d')
  from settle_cases [OF settle(3)]
  have "table d' = table (cl_store s) \<or> (\<exists>r. table d' = (table (cl_store s))(job_ID job := r))"
    by auto
  with cluster_inv_release [OF assms(2) settle(2)] settle(1) show ?thesis by simp
next
  case (crash w job)
  have "cluster_inv table limit (s\<lparr>cl_store := cl_store s, cl_busy := (cl_busy s)(w := None)\<rparr>)"
    by (rule cluster_inv_release [OF assms(2) crash(2)]) simp
  then show ?thesis unfolding crash(1) by (cases s) simp
next
  case (dispatch ctx name p delay d' r)
  show ?thesis
  proof (rule cluster_invI)
    fix w j
    assume "cl_busy t w = Some j"
    with dispatch(1) have "cl_busy s w = Some j" by simp
    then have h: "holds_row (table (cl_store s)) limit (cl_now s) j"
      by (rule cluster_inv_holds [OF assms(2)])
    then have "table (cl_store s) (job_ID j) = Some j" by (simp add: holds_row_def)
    with dispatch_table [OF dispatch(2)] have "table d' (job_ID j) = Some j" by auto
    with h dispatch(1) show "holds_row (table (cl_store t)) limit (cl_now t) j"
      by (simp add: holds_row_def)
  qed (use cluster_inv_unique [OF assms(2)] dispatch(1) in auto)
qed

lemma cluster_reach_inv:
  assumes "cluster_reach D marshal drv limit s0 s" "cluster_inv table limit s0" "0 \<le> limit" "limit \<le> 10 * minute"
  shows "cluster_inv table limit s"
  using assms(1)
  by induction (use assms(2-4) cluster_step_inv in auto)

end

section \<open>Properties\<close>

lemma claim_bad_store:
  "\<exists>d'. claim mem_job_db (dd_queueName sample_driver) 120 bad_store =
     (d', Inr (reserve 120 ((sample_job ''bad'' 100)\<lparr>job_ID := 1\<rparr>))) \<and>
   mem_rows d' = [1 \<mapsto> reserve 120 ((sample_job ''bad'' 100)\<lparr>job_ID := 1\<rparr>)]"
proof -
  let ?j = "(sample_job ''bad'' 100)\<lparr>job_ID := 1\<rparr>"
  have "mem_rows bad_store 1 = Some ?j" by (simp add: bad_store_rows)
  moreover have "eligible (dd_queueName sample_driver) 120 ?j" by simp
  ultimately obtain d' j where c: "claim mem_job_db (dd_queueName sample_driver) 120 bad_store =
      (d', Inr (reserve 120 j))"
    "mem_rows bad_store (job_ID j) = Some j"
    "mem_rows d' = (mem_rows bad_store)(job_ID j \<mapsto> reserve 120 j)"
    by (rule mem.claim_due)
  then have "j = ?j" by (simp add: bad_store_rows split: if_splits)
  with c show ?thesis by (simp add: bad_store_rows)
qed

text \<open>
  C10. Workers that claim in a serialised transaction never execute one job at the same time, as
  long as every handler is settled within the ten minutes after which a reservation is stale:
  in every reachable state two workers that hold the same job are the same worker, and the job
  they hold is exactly the row in the table.
\<close>

theorem workers_exclude_each_other:
  assumes "job_store D table" and "0 \<le> limit" and "limit \<le> 10 * minute"
    and "cluster_reach D marshal drv limit (cluster_init now d) s"
    and "cl_busy s w = Some j" and "cl_busy s w' = Some j'" and "job_ID j = job_ID j'"
  shows "w = w' \<and> table (cl_store s) (job_ID j) = Some j"
proof -
  have inv: "cluster_inv table limit s"
    by (rule job_store.cluster_reach_inv [OF assms(1,4) cluster_inv_init assms(2,3)])
  have "holds_row (table (cl_store s)) limit (cl_now s) j"
    by (rule cluster_inv_holds [OF inv assms(5)])
  then show ?thesis
    using cluster_inv_unique [OF inv assms(5-7)] unfolding holds_row_def by blast
qed

theorem workers_exclude_each_other_witness:
  "\<exists>s j. cluster_reach mem_job_db sample_marshal sample_driver minute (cluster_init 120 bad_store) s \<and>
     cl_busy s 0 = Some j \<and> mem_rows (cl_store s) (job_ID j) = Some j \<and>
     (\<forall>w j'. cl_busy s w = Some j' \<longrightarrow> job_ID j' = job_ID j \<longrightarrow> w = 0)"
proof -
  let ?j = "reserve 120 ((sample_job ''bad'' 100)\<lparr>job_ID := 1\<rparr>)"
  obtain d' where c: "claim mem_job_db (dd_queueName sample_driver) 120 bad_store = (d', Inr ?j)"
    using claim_bad_store by blast
  let ?start = "cluster_init 120 bad_store"
  let ?new = "?start\<lparr>cl_store := d', cl_busy := (cl_busy ?start)(0 \<mapsto> ?j)\<rparr>"
  have "cluster_step mem_job_db sample_marshal sample_driver minute ?start ?new"
    by (rule cluster_step.claim) (simp_all add: cluster_init_def c)
  note reach = cluster_reach.step [OF cluster_reach.init this]
  have lim: "0 \<le> minute" "minute \<le> 10 * minute" by (simp_all add: minute_def second_def)
  have busy: "cl_busy ?new 0 = Some ?j" by simp
  have excl: "0 = w \<and> mem_rows (cl_store ?new) (job_ID ?j) = Some ?j"
    if "cl_busy ?new w = Some j'" "job_ID ?j = job_ID j'" for w j'
    by (rule workers_exclude_each_other [OF mem.job_store_axioms lim reach busy that])
  show ?thesis
  proof (intro exI conjI allI impI)
    show "mem_rows (cl_store ?new) (job_ID ?j) = Some ?j" using excl [OF busy refl] by blast
    show "w = 0" if "cl_busy ?new w = Some j'" "job_ID j' = job_ID ?j" for w j'
      using excl [OF that(1)] that(2) by simp
  qed (rule reach, rule busy)
qed

text \<open>
  The ten minutes are needed: the code cancels the context of a handler after 60 seconds but
  does not wait for it to stop, and a handler that runs on past ten minutes is joined by a second
  worker that executes the same job.
\<close>

theorem slow_handler_executed_twice:
  "\<exists>s j j'. cluster_reach mem_job_db sample_marshal sample_driver hour (cluster_init 120 bad_store) s \<and>
     cl_busy s 0 = Some j \<and> cl_busy s 1 = Some j' \<and> job_ID j = job_ID j'"
proof -
  let ?q = "dd_queueName sample_driver"
  let ?j = "reserve 120 ((sample_job ''bad'' 100)\<lparr>job_ID := 1\<rparr>)"
  let ?t = "120 + 11 * minute"
  obtain d' where c: "claim mem_job_db ?q 120 bad_store = (d', Inr ?j)" and d': "mem_rows d' = [1 \<mapsto> ?j]"
    using claim_bad_store by blast
  have "mem_rows d' 1 = Some ?j" by (simp add: d')
  moreover have "eligible ?q ?t ?j" by (simp add: eligible_reserved minute_def second_def)
  ultimately obtain d2 j2 where c2: "claim mem_job_db ?q ?t d' = (d2, Inr (reserve ?t j2))"
    and j2: "mem_rows d' (job_ID j2) = Some j2"
    by (rule mem.claim_due)
  from j2 d' have id2: "job_ID j2 = 1" by (simp split: if_splits)
  let ?s0 = "cluster_init 120 bad_store"
  let ?s1 = "?s0\<lparr>cl_store := d', cl_busy := (cl_busy ?s0)(0 \<mapsto> ?j)\<rparr>"
  let ?s2 = "?s1\<lparr>cl_now := ?t\<rparr>"
  let ?s3 = "?s2\<lparr>cl_store := d2, cl_busy := (cl_busy ?s2)(1 \<mapsto> reserve ?t j2)\<rparr>"
  have 1: "cluster_step mem_job_db sample_marshal sample_driver hour ?s0 ?s1"
    by (rule cluster_step.claim) (simp_all add: cluster_init_def c)
  have 2: "cluster_step mem_job_db sample_marshal sample_driver hour ?s1 ?s2"
    by (rule cluster_step.tick)
      (auto simp: cluster_init_def within_limit_def hour_def minute_def second_def split: if_splits)
  have 3: "cluster_step mem_job_db sample_marshal sample_driver hour ?s2 ?s3"
    by (rule cluster_step.claim) (simp_all add: cluster_init_def c2)
  have "cluster_reach mem_job_db sample_marshal sample_driver hour ?s0 ?s3"
    by (rule cluster_reach.step [OF cluster_reach.step [OF cluster_reach.step [OF cluster_reach.init 1] 2] 3])
  moreover have "cl_busy ?s3 0 = Some ?j" "cl_busy ?s3 1 = Some (reserve ?t j2)" by simp_all
  moreover have "job_ID ?j = job_ID (reserve ?t j2)" using id2 by simp
  ultimately show ?thesis by blast
qed

text \<open>
  Where the database does not serialise the claiming transaction (the query takes no row
  lock), the claim is not atomic: two workers that both read the due row before either saves it
  both claim it, execute it at the same time, and count one attempt between them.
\<close>

theorem read_committed_claims_twice:
  "\<exists>s j. read_committed_reach mem_job_db (dd_queueName sample_driver) (rc_init 120 bad_store) s \<and>
     cl_busy s 0 = Some j \<and> cl_busy s 1 = Some j \<and>
     mem_rows (cl_store s) (job_ID j) = Some j \<and> job_Attempts j = 1"
proof -
  let ?q = "dd_queueName sample_driver"
  let ?j = "(sample_job ''bad'' 100)\<lparr>job_ID := 1\<rparr>"
  let ?step = "read_committed_step mem_job_db ?q"
  have find: "jdb_Find mem_job_db bad_store (eligible ?q 120) claim_key = Inr (Some ?j)"
  proof -
    obtain r where r: "jdb_Find mem_job_db bad_store (eligible ?q 120) claim_key = Inr r"
      using mem.find_up by blast
    with mem.find_none [of bad_store "eligible ?q 120" claim_key 1 ?j]
    obtain k where k: "r = Some k" by (cases r) (auto simp: bad_store_rows)
    with r mem.find_some [of bad_store "eligible ?q 120" claim_key k] show ?thesis
      by (auto simp: bad_store_rows split: if_splits)
  qed
  obtain d1 where d1: "jdb_Save mem_job_db bad_store (reserve 120 ?j) = (d1, None)"
    using mem.save_up by blast
  obtain d2 where d2: "jdb_Save mem_job_db d1 (reserve 120 ?j) = (d2, None)"
    using mem.save_up by blast
  let ?s0 = "rc_init 120 bad_store"
  let ?s1 = "?s0\<lparr>rc_read := (rc_read ?s0)(0 \<mapsto> ?j)\<rparr>"
  let ?s2 = "?s1\<lparr>rc_read := (rc_read ?s1)(1 \<mapsto> ?j)\<rparr>"
  let ?s3 = "?s2\<lparr>cl_store := d1, rc_read := (rc_read ?s2)(0 := None),
      cl_busy := (cl_busy ?s2)(0 \<mapsto> reserve (cl_now ?s2) ?j)\<rparr>"
  let ?s4 = "?s3\<lparr>cl_store := d2, rc_read := (rc_read ?s3)(1 := None),
      cl_busy := (cl_busy ?s3)(1 \<mapsto> reserve (cl_now ?s3) ?j)\<rparr>"
  have 1: "?step ?s0 ?s1" by (rule read_committed_step.read) (simp_all add: rc_init_def find)
  have 2: "?step ?s1 ?s2" by (rule read_committed_step.read) (simp_all add: rc_init_def find)
  have 3: "?step ?s2 ?s3" by (rule read_committed_step.save) (use d1 in \<open>simp_all add: rc_init_def\<close>)
  have 4: "?step ?s3 ?s4" by (rule read_committed_step.save) (use d2 in \<open>simp_all add: rc_init_def\<close>)
  note next_step = read_committed_reach.rc_next
  have "read_committed_reach mem_job_db ?q ?s0 ?s4"
    by (rule next_step [OF next_step [OF next_step [OF next_step
          [OF read_committed_reach.rc_start 1] 2] 3] 4])
  moreover have "cl_busy ?s4 0 = Some (reserve 120 ?j)" "cl_busy ?s4 1 = Some (reserve 120 ?j)"
    by (simp_all add: rc_init_def)
  moreover have "mem_rows (cl_store ?s4) (job_ID (reserve 120 ?j)) = Some (reserve 120 ?j)"
    using mem.save_ok [OF d2] by simp
  moreover have "job_Attempts (reserve 120 ?j) = 1" by simp
  ultimately show ?thesis by blast
qed

end
