(* ===== verification/Channel_Pool.thy ===== *)
theory Channel_Pool
  imports Go_Prelude
begin

text \<open>
  Worker goroutines on a buffered channel: the machine that \<open>pkg/queue/driver_memory.go\<close> and
  \<open>pkg/worker/worker.go\<close> both implement, in the same words. \<open>worker_select\<close> is the body of
  a worker's loop, one \<open>select\<close> at a time. \<open>pool_step\<close> is the abstract machine: jobs are
  accepted into the buffer, workers take and finish them, \<open>Stop\<close> closes \<open>quit\<close> and then the
  job channel while it holds the mutex. \<open>accepted\<close>, \<open>taken\<close> and \<open>finished\<close> are history.

  The locale \<open>pool_implementation\<close> is the refinement: a driver whose steps are steps of the
  machine, under an abstraction function, inherits its invariant. Both drivers interpret it.

  Lemmas: no accepted job is lost or executed twice, jobs are taken in the order in which they
  were accepted, and after a stop the workers exit, with an empty buffer, in a bounded number
  of moves.
\<close>

section \<open>A worker's select loop\<close>

text \<open>
  Where a worker is: at the outer \<open>select\<close>, executing a job it received there, at the inner
  \<open>select\<close> of the drain loop, executing a job it received there, or returned.
\<close>

datatype 'j worker_pc = Idle | Running 'j | Draining | DrainRunning 'j | Exited

datatype branch = RecvCase | QuitCase | DefaultCase

text \<open>
  One \<open>select\<close>, given the case it takes: the buffer and the worker afterwards, or \<open>None\<close>
  when that case is not ready. A receive from a closed channel is ready; it yields the buffered
  jobs first. \<open>default\<close> is taken only when no other case is ready.
\<close>

fun worker_select ::
  "branch \<Rightarrow> bool \<Rightarrow> bool \<Rightarrow> 'j list \<Rightarrow> 'j worker_pc \<Rightarrow> ('j list \<times> 'j worker_pc) option" where
  "worker_select RecvCase closed quit (j # js) Idle = Some (js, Running j)"
| "worker_select RecvCase closed quit [] Idle = (if closed then Some ([], Exited) else None)"
| "worker_select QuitCase closed quit js Idle = (if quit then Some (js, Draining) else None)"
| "worker_select RecvCase closed quit (j # js) Draining = Some (js, DrainRunning j)"
| "worker_select RecvCase closed quit [] Draining = (if closed then Some ([], Exited) else None)"
| "worker_select DefaultCase closed quit [] Draining = (if closed then None else Some ([], Exited))"
| "worker_select b closed quit js pc = None"

text \<open>The job a worker is executing, and where it goes on when the handler returns.\<close>

fun worker_job :: "'j worker_pc \<Rightarrow> 'j option" where
  "worker_job (Running j) = Some j"
| "worker_job (DrainRunning j) = Some j"
| "worker_job pc = None"

fun worker_return :: "'j worker_pc \<Rightarrow> 'j worker_pc" where
  "worker_return (Running j) = Idle"
| "worker_return (DrainRunning j) = Draining"
| "worker_return pc = pc"

section \<open>The abstract machine\<close>

record 'j pool_state =
  ps_cap :: nat
  ps_buffer :: "'j list"
  ps_closed :: bool
  ps_quit :: bool
  ps_mu :: bool \<comment> \<open>\<open>Stop\<close> is between its two \<open>close\<close> calls\<close>
  ps_workers :: "'j worker_pc list"
  ps_accepted :: "'j list"
  ps_taken :: "'j list"
  ps_finished :: "'j list"

definition pool_init :: "nat \<Rightarrow> 'j pool_state" where
  "pool_init cap =
     \<lparr>ps_cap = cap, ps_buffer = [], ps_closed = False, ps_quit = False, ps_mu = False,
      ps_workers = [], ps_accepted = [], ps_taken = [], ps_finished = []\<rparr>"

definition pool_accept :: "'j \<Rightarrow> 'j pool_state \<Rightarrow> 'j pool_state" where
  "pool_accept j s = s\<lparr>ps_buffer := ps_buffer s @ [j], ps_accepted := ps_accepted s @ [j]\<rparr>"

definition pool_select :: "branch \<Rightarrow> nat \<Rightarrow> 'j pool_state \<Rightarrow> 'j pool_state option" where
  "pool_select b i s =
     (if i < length (ps_workers s) then
        (case worker_select b (ps_closed s) (ps_quit s) (ps_buffer s) (ps_workers s ! i) of
           None \<Rightarrow> None
         | Some (js, pc) \<Rightarrow>
             Some (s\<lparr>ps_buffer := js, ps_workers := (ps_workers s)[i := pc],
                     ps_taken := ps_taken s @ take (length (ps_buffer s) - length js) (ps_buffer s)\<rparr>))
      else None)"

definition pool_finish :: "nat \<Rightarrow> 'j pool_state \<Rightarrow> 'j pool_state option" where
  "pool_finish i s =
     (if i < length (ps_workers s) then
        (case worker_job (ps_workers s ! i) of
           None \<Rightarrow> None
         | Some j \<Rightarrow>
             Some (s\<lparr>ps_workers := (ps_workers s)[i := worker_return (ps_workers s ! i)],
                     ps_finished := ps_finished s @ [j]\<rparr>))
      else None)"

inductive pool_work :: "'j pool_state \<Rightarrow> 'j pool_state \<Rightarrow> bool" where
  select: "pool_select b i s = Some t \<Longrightarrow> pool_work s t"
| finish: "pool_finish i s = Some t \<Longrightarrow> pool_work s t"

inductive pool_step :: "'j pool_state \<Rightarrow> 'j pool_state \<Rightarrow> bool" where
  stutter: "pool_step s s"
| accept: "\<not> ps_mu s \<Longrightarrow> \<not> ps_closed s \<Longrightarrow> length (ps_buffer s) < ps_cap s \<Longrightarrow>
    pool_step s (pool_accept j s)"
| start: "\<not> ps_mu s \<Longrightarrow> pool_step s (s\<lparr>ps_workers := ps_workers s @ replicate n Idle\<rparr>)"
| stop_quit: "\<not> ps_mu s \<Longrightarrow> \<not> ps_quit s \<Longrightarrow> pool_step s (s\<lparr>ps_quit := True, ps_mu := True\<rparr>)"
| stop_close: "ps_mu s \<Longrightarrow> \<not> ps_closed s \<Longrightarrow> pool_step s (s\<lparr>ps_closed := True, ps_mu := False\<rparr>)"
| work: "pool_work s t \<Longrightarrow> pool_step s t"

inductive pool_reach :: "nat \<Rightarrow> 'j pool_state \<Rightarrow> bool" for cap :: nat where
  init: "pool_reach cap (pool_init cap)"
| step: "pool_reach cap s \<Longrightarrow> pool_step s t \<Longrightarrow> pool_reach cap t"

section \<open>Invariant\<close>

definition executing :: "'j worker_pc list \<Rightarrow> 'j multiset" where
  "executing ws = mset (List.map_filter worker_job ws)"

definition pool_inv :: "nat \<Rightarrow> 'j pool_state \<Rightarrow> bool" where
  "pool_inv cap s \<longleftrightarrow>
     ps_cap s = cap \<and> length (ps_buffer s) \<le> cap \<and>
     ps_accepted s = ps_taken s @ ps_buffer s \<and>
     mset (ps_taken s) = mset (ps_finished s) + executing (ps_workers s) \<and>
     (ps_quit s \<longleftrightarrow> ps_mu s \<or> ps_closed s) \<and> \<not> (ps_mu s \<and> ps_closed s) \<and>
     (Exited \<in> set (ps_workers s) \<longrightarrow> ps_quit s \<and> ps_buffer s = []) \<and>
     (\<forall>pc \<in> set (ps_workers s). (pc = Draining \<or> (\<exists>j. pc = DrainRunning j)) \<longrightarrow> ps_quit s)"

text \<open>What is left to do: twice the buffered jobs, and for each worker its distance from return.\<close>

fun pc_weight :: "'j worker_pc \<Rightarrow> nat" where
  "pc_weight (Running j) = 3"
| "pc_weight Idle = 2"
| "pc_weight (DrainRunning j) = 2"
| "pc_weight Draining = 1"
| "pc_weight Exited = 0"

definition pool_weight :: "'j pool_state \<Rightarrow> nat" where
  "pool_weight s = 2 * length (ps_buffer s) + sum_list (map pc_weight (ps_workers s))"

text \<open>\<open>n\<close> moves of workers.\<close>

inductive pool_works :: "nat \<Rightarrow> 'j pool_state \<Rightarrow> 'j pool_state \<Rightarrow> bool" where
  none: "pool_works 0 s s"
| more: "pool_work s t \<Longrightarrow> pool_works n t u \<Longrightarrow> pool_works (Suc n) s u"

section \<open>Lemmas\<close>

inductive_cases pool_worksE: "pool_works n s t"

lemma map_filter_update:
  assumes "i < length ws"
  shows "mset (List.map_filter f (ws[i := pc])) + mset (List.map_filter f [ws ! i]) =
    mset (List.map_filter f ws) + mset (List.map_filter f [pc])"
proof -
  have "List.map_filter f (ws[i := pc]) =
      List.map_filter f (take i ws) @ List.map_filter f [pc] @ List.map_filter f (drop (Suc i) ws)"
    using assms by (simp add: upd_conv_take_nth_drop map_filter_def)
  moreover have "List.map_filter f ws =
      List.map_filter f (take i ws) @ List.map_filter f [ws ! i] @ List.map_filter f (drop (Suc i) ws)"
    by (subst id_take_nth_drop [OF assms]) (simp add: map_filter_def)
  ultimately show ?thesis by simp
qed

lemma executing_update:
  assumes "i < length ws"
  shows "executing (ws[i := pc]) + mset (List.map_filter worker_job [ws ! i]) =
    executing ws + mset (List.map_filter worker_job [pc])"
  unfolding executing_def by (rule map_filter_update [OF assms])

lemma executing_append [simp]: "executing (ws @ vs) = executing ws + executing vs"
  by (simp add: executing_def map_filter_def)

lemma executing_idle [simp]: "executing (replicate n Idle) = {#}"
  by (simp add: executing_def map_filter_def)

lemma executing_exited: "set ws \<subseteq> {Exited} \<Longrightarrow> executing ws = {#}"
  by (induction ws) (auto simp: executing_def map_filter_def)

lemma weight_update:
  assumes "i < length ws"
  shows "sum_list (map pc_weight (ws[i := pc])) + pc_weight (ws ! i) =
    sum_list (map pc_weight ws) + pc_weight pc"
proof -
  have "sum_list (map pc_weight (ws[i := pc])) =
      sum_list (map pc_weight (take i ws)) + pc_weight pc + sum_list (map pc_weight (drop (Suc i) ws))"
    using assms by (simp add: upd_conv_take_nth_drop)
  moreover have "sum_list (map pc_weight ws) =
      sum_list (map pc_weight (take i ws)) + pc_weight (ws ! i) + sum_list (map pc_weight (drop (Suc i) ws))"
    by (subst id_take_nth_drop [OF assms]) simp
  ultimately show ?thesis by simp
qed

text \<open>What one \<open>select\<close> can do, by the case it takes.\<close>

lemma worker_select_cases:
  assumes "worker_select b closed quit js pc = Some (js', pc')"
  obtains (recv) j where "js = j # js'" "worker_job pc' = Some j" "worker_job pc = None"
      "pc = Idle \<and> pc' = Running j \<or> pc = Draining \<and> pc' = DrainRunning j"
    | (quit) "quit" "js' = js" "pc = Idle" "pc' = Draining"
    | (exit) "js = []" "js' = []" "pc' = Exited" "closed \<or> pc = Draining" "pc = Idle \<or> pc = Draining"
  using assms by (cases "(b, closed, quit, js, pc)" rule: worker_select.cases) (auto split: if_splits)

lemma pool_selectE:
  assumes "pool_select b i s = Some t"
  obtains js pc where "i < length (ps_workers s)"
    "worker_select b (ps_closed s) (ps_quit s) (ps_buffer s) (ps_workers s ! i) = Some (js, pc)"
    "t = s\<lparr>ps_buffer := js, ps_workers := (ps_workers s)[i := pc],
           ps_taken := ps_taken s @ take (length (ps_buffer s) - length js) (ps_buffer s)\<rparr>"
  using assms by (auto simp: pool_select_def split: if_splits option.splits prod.splits)

lemma pool_finishE:
  assumes "pool_finish i s = Some t"
  obtains j where "i < length (ps_workers s)" "worker_job (ps_workers s ! i) = Some j"
    "t = s\<lparr>ps_workers := (ps_workers s)[i := worker_return (ps_workers s ! i)],
           ps_finished := ps_finished s @ [j]\<rparr>"
  using assms by (auto simp: pool_finish_def split: if_splits option.splits)

lemma worker_return_job: "worker_job pc = Some j \<Longrightarrow>
  pc = Running j \<and> worker_return pc = Idle \<or> pc = DrainRunning j \<and> worker_return pc = Draining"
  by (cases pc) auto

lemma select_inv:
  assumes inv: "pool_inv cap s" and sel: "pool_select b i s = Some t"
  shows "pool_inv cap t"
  using sel
proof (rule pool_selectE)
  fix js pc
  assume i: "i < length (ps_workers s)"
    and w: "worker_select b (ps_closed s) (ps_quit s) (ps_buffer s) (ps_workers s ! i) = Some (js, pc)"
    and t: "t = s\<lparr>ps_buffer := js, ps_workers := (ps_workers s)[i := pc],
           ps_taken := ps_taken s @ take (length (ps_buffer s) - length js) (ps_buffer s)\<rparr>"
  have set: "set ((ps_workers s)[i := pc]) \<subseteq> insert pc (set (ps_workers s))"
    by (rule set_update_subset_insert)
  have mem: "ps_workers s ! i \<in> set (ps_workers s)" using i by simp
  note upd = executing_update [OF i, of pc]
  from w show ?thesis
  proof (cases rule: worker_select_cases)
    case (recv j)
    then have "executing ((ps_workers s)[i := pc]) = executing (ps_workers s) + {#j#}"
      using upd by (simp add: map_filter_def)
    with recv inv set mem show ?thesis
      unfolding t pool_inv_def by auto
  next
    case quit
    then have "executing ((ps_workers s)[i := pc]) = executing (ps_workers s)"
      using upd by (simp add: map_filter_def)
    with quit inv set show ?thesis
      unfolding t pool_inv_def by auto
  next
    case exit
    then have "executing ((ps_workers s)[i := pc]) = executing (ps_workers s)"
      using upd by (auto simp: map_filter_def)
    with exit inv set mem show ?thesis
      unfolding t pool_inv_def by auto
  qed
qed

lemma finish_inv:
  assumes inv: "pool_inv cap s" and fin: "pool_finish i s = Some t"
  shows "pool_inv cap t"
  using fin
proof (rule pool_finishE)
  fix j
  assume i: "i < length (ps_workers s)" and j: "worker_job (ps_workers s ! i) = Some j"
    and t: "t = s\<lparr>ps_workers := (ps_workers s)[i := worker_return (ps_workers s ! i)],
           ps_finished := ps_finished s @ [j]\<rparr>"
  let ?pc = "worker_return (ps_workers s ! i)"
  have set: "set ((ps_workers s)[i := ?pc]) \<subseteq> insert ?pc (set (ps_workers s))"
    by (rule set_update_subset_insert)
  have mem: "ps_workers s ! i \<in> set (ps_workers s)" using i by simp
  have "executing ((ps_workers s)[i := ?pc]) + {#j#} = executing (ps_workers s)"
    using executing_update [OF i, of ?pc] worker_return_job [OF j] by (auto simp: map_filter_def)
  then have "mset (ps_finished s) + executing (ps_workers s) =
      mset (ps_finished s @ [j]) + executing ((ps_workers s)[i := ?pc])"
    by (simp add: ac_simps)
  with inv mem worker_return_job [OF j] show ?thesis
    unfolding t pool_inv_def by (auto dest!: subsetD [OF set])
qed

lemma pool_step_inv:
  assumes "pool_step s t" "pool_inv cap s"
  shows "pool_inv cap t"
  using assms
proof cases
  case (work)
  with assms(2) show ?thesis
    by (auto elim: pool_work.cases intro: select_inv finish_inv)
qed (auto simp: pool_inv_def pool_accept_def)

lemma pool_inv_init: "pool_inv cap (pool_init cap)"
  by (simp add: pool_inv_def pool_init_def executing_def map_filter_def)

lemma pool_reach_inv: "pool_reach cap s \<Longrightarrow> pool_inv cap s"
  by (induction rule: pool_reach.induct) (auto intro: pool_inv_init pool_step_inv)

text \<open>Once a worker has returned the buffer is empty; once all have, everything accepted is done.\<close>

lemma pool_drained:
  assumes inv: "pool_inv cap s" and exited: "set (ps_workers s) = {Exited}"
  shows "ps_buffer s = [] \<and> mset (ps_finished s) = mset (ps_accepted s)"
proof -
  from exited have "executing (ps_workers s) = {#}" by (simp add: executing_exited)
  with inv exited show ?thesis by (simp add: pool_inv_def)
qed

lemma pool_conserves:
  assumes "pool_inv cap s"
  shows "mset (ps_accepted s) =
    mset (ps_finished s) + executing (ps_workers s) + mset (ps_buffer s)"
  using assms by (simp add: pool_inv_def)

lemma pool_work_weight: "pool_work s t \<Longrightarrow> pool_weight t < pool_weight s"
proof (induction rule: pool_work.induct)
  case (select b i s t)
  then show ?case
  proof (rule pool_selectE)
    fix js pc
    assume i: "i < length (ps_workers s)"
      and w: "worker_select b (ps_closed s) (ps_quit s) (ps_buffer s) (ps_workers s ! i) = Some (js, pc)"
      and t: "t = s\<lparr>ps_buffer := js, ps_workers := (ps_workers s)[i := pc],
           ps_taken := ps_taken s @ take (length (ps_buffer s) - length js) (ps_buffer s)\<rparr>"
    from w show ?thesis
      using weight_update [OF i, of pc]
      by (cases rule: worker_select_cases) (auto simp: t pool_weight_def)
  qed
next
  case (finish i s t)
  then show ?case
  proof (rule pool_finishE)
    fix j
    assume i: "i < length (ps_workers s)" and j: "worker_job (ps_workers s ! i) = Some j"
      and t: "t = s\<lparr>ps_workers := (ps_workers s)[i := worker_return (ps_workers s ! i)],
           ps_finished := ps_finished s @ [j]\<rparr>"
    from weight_update [OF i, of "worker_return (ps_workers s ! i)"] worker_return_job [OF j]
    show ?thesis by (auto simp: t pool_weight_def)
  qed
qed

lemma pool_works_weight: "pool_works n s t \<Longrightarrow> n + pool_weight t \<le> pool_weight s"
  by (induction rule: pool_works.induct) (auto dest: pool_work_weight)

text \<open>With the channel closed, every worker that has not returned can move.\<close>

lemma closed_progress:
  assumes "ps_closed s" "i < length (ps_workers s)" "ps_workers s ! i \<noteq> Exited"
  shows "\<exists>t. pool_work s t"
proof (cases "worker_job (ps_workers s ! i)")
  case None
  with assms(3) have pc: "ps_workers s ! i = Idle \<or> ps_workers s ! i = Draining"
    by (cases "ps_workers s ! i") auto
  have "\<exists>r. worker_select RecvCase True (ps_quit s) (ps_buffer s) (ps_workers s ! i) = Some r"
    using pc by (cases "ps_buffer s") auto
  with assms(1,2) have "\<exists>t. pool_select RecvCase i s = Some t"
    by (auto simp: pool_select_def split: prod.splits)
  then show ?thesis by (blast intro: pool_work.select)
next
  case (Some j)
  with assms(2) have "\<exists>t. pool_finish i s = Some t" by (simp add: pool_finish_def)
  then show ?thesis by (blast intro: pool_work.finish)
qed

section \<open>Refinement\<close>

locale pool_implementation =
  fixes start_state :: 's
    and step :: "'s \<Rightarrow> 's \<Rightarrow> bool"
    and view :: "'s \<Rightarrow> 'j pool_state"
    and cap :: nat
  assumes start_view: "view start_state = pool_init cap"
    and simulates: "step s t \<Longrightarrow> pool_step (view s) (view t)"
begin

lemma reach_view: "step\<^sup>*\<^sup>* start_state s \<Longrightarrow> pool_reach cap (view s)"
  by (induction rule: rtranclp_induct)
    (auto simp: start_view intro: pool_reach.init pool_reach.step [OF _ simulates])

lemma reach_inv: "step\<^sup>*\<^sup>* start_state s \<Longrightarrow> pool_inv cap (view s)"
  by (rule pool_reach_inv) (rule reach_view)

lemma reach_fifo: "step\<^sup>*\<^sup>* start_state s \<Longrightarrow>
  ps_accepted (view s) = ps_taken (view s) @ ps_buffer (view s)"
  using reach_inv by (simp add: pool_inv_def)

lemma reach_conserves: "step\<^sup>*\<^sup>* start_state s \<Longrightarrow>
  mset (ps_accepted (view s)) =
    mset (ps_finished (view s)) + executing (ps_workers (view s)) + mset (ps_buffer (view s))"
  by (rule pool_conserves) (rule reach_inv)

lemma reach_bounded: "step\<^sup>*\<^sup>* start_state s \<Longrightarrow> length (ps_buffer (view s)) \<le> cap"
  using reach_inv by (simp add: pool_inv_def)

lemma reach_drained: "step\<^sup>*\<^sup>* start_state s \<Longrightarrow> set (ps_workers (view s)) = {Exited} \<Longrightarrow>
  ps_buffer (view s) = [] \<and> mset (ps_finished (view s)) = mset (ps_accepted (view s))"
  by (rule pool_drained) (rule reach_inv)

lemma reach_closed_iff: "step\<^sup>*\<^sup>* start_state s \<Longrightarrow>
  ps_quit (view s) \<longleftrightarrow> ps_mu (view s) \<or> ps_closed (view s)"
  using reach_inv by (simp add: pool_inv_def)

end

end
