(* ===== verification/Memory_Driver.thy ===== *)
theory Memory_Driver
  imports Queue_Core Channel_Pool Lifecycle
begin

text \<open>
  \<open>pkg/queue/driver_memory.go\<close>: the queue in a buffered channel. \<open>memory_driver\<close> is the
  struct, one definition per method; \<open>memory_system\<close> adds what runs beside it: the worker
  goroutines, the goroutines of delayed jobs waiting on their timers, the clock, the world the
  handlers act on, and whether a goroutine has panicked (which ends the process).
  \<open>memory_step\<close> is one atomic step of any of these; \<open>Stop\<close> takes two, one per \<open>close\<close>, and
  holds the mutex in between, so that \<open>Dispatch\<close> and \<open>Start\<close> wait but workers and timers
  do not.

  The system implements the machine of \<open>Channel_Pool\<close> (\<open>memory_view\<close>), the driver meets
  the contracts \<open>queue_driver\<close> and \<open>worker_lifecycle\<close>.
\<close>

section \<open>The driver\<close>

record memory_job =
  mj_name :: string
  mj_payload :: string

record 'w memory_driver =
  md_concurrency :: int
  md_cap :: nat
  md_jobChan :: "memory_job list"
  md_chan_closed :: bool
  md_registry :: "'w registry"
  md_quit :: bool
  md_running :: bool

definition NewMemoryDriver :: "int \<Rightarrow> int \<Rightarrow> 'w registry option \<Rightarrow> 'w memory_driver" where
  "NewMemoryDriver concurrency queueSize reg =
     \<lparr>md_concurrency = (if concurrency \<le> 0 then 5 else concurrency),
      md_cap = (if queueSize \<le> 0 then 100 else nat queueSize),
      md_jobChan = [], md_chan_closed = False,
      md_registry = registry_or_new reg,
      md_quit = False, md_running = False\<rparr>"

text \<open>
  The \<open>select\<close> of \<open>Dispatch\<close>: a send on a closed channel panics whether or not the buffer
  is full; otherwise \<open>default\<close> is taken exactly when it is full.
\<close>

definition memory_Dispatch ::
  "('v \<Rightarrow> err + string) \<Rightarrow> 'w memory_driver \<Rightarrow> go_context \<Rightarrow> string \<Rightarrow> 'v payload \<Rightarrow>
   ('w memory_driver \<times> err option) outcome" where
  "memory_Dispatch marshal m ctx name p =
     (case MarshalPayload marshal p of
        Inl e \<Rightarrow> Ret (m, Some e)
      | Inr raw \<Rightarrow>
          if md_chan_closed m then Panic ''send on closed channel''
          else if length (md_jobChan m) < md_cap m then
            Ret (m\<lparr>md_jobChan := md_jobChan m @ [\<lparr>mj_name = name, mj_payload = raw\<rparr>]\<rparr>, None)
          else Ret (m, Some (ErrNew ''queue: memory buffer full, job dropped'')))"

definition memory_RegisterHandler ::
  "'w memory_driver \<Rightarrow> string \<Rightarrow> 'w handler \<Rightarrow> 'w memory_driver" where
  "memory_RegisterHandler m name h = m\<lparr>md_registry := Register (md_registry m) name h\<rparr>"

definition memory_Start :: "'w memory_driver \<Rightarrow> 'w memory_driver \<times> err option" where
  "memory_Start m = (if md_running m then (m, None) else (m\<lparr>md_running := True\<rparr>, None))"

text \<open>The two \<open>close\<close> calls of \<open>Stop\<close>, and \<open>Stop\<close>.\<close>

definition memory_stop_quit :: "'w memory_driver \<Rightarrow> 'w memory_driver outcome" where
  "memory_stop_quit m =
     (if md_quit m then Panic ''close of closed channel''
      else Ret (m\<lparr>md_running := False, md_quit := True\<rparr>))"

definition memory_stop_close :: "'w memory_driver \<Rightarrow> 'w memory_driver outcome" where
  "memory_stop_close m =
     (if md_chan_closed m then Panic ''close of closed channel''
      else Ret (m\<lparr>md_chan_closed := True\<rparr>))"

definition memory_Stop ::
  "bool \<Rightarrow> 'w memory_driver \<Rightarrow> ('w memory_driver \<times> err option) outcome" where
  "memory_Stop done m =
     (if \<not> md_running m then Ret (m, None)
      else bind_outcome (memory_stop_quit m) (\<lambda>m1.
        bind_outcome (memory_stop_close m1) (\<lambda>m2.
          Ret (m2, if done then None
                   else Some (ErrNew ''queue: worker pool shutdown timed out'')))))"

definition memory_Close ::
  "bool \<Rightarrow> 'w memory_driver \<Rightarrow> ('w memory_driver \<times> err option) outcome" where
  "memory_Close done m = memory_Stop done m"

section \<open>The driver and its goroutines\<close>

record delayed_job =
  dj_due :: instant
  dj_name :: string
  dj_raw :: string

record 'w memory_system =
  ms_driver :: "'w memory_driver"
  ms_mu :: bool \<comment> \<open>\<open>Stop\<close> holds the mutex between its two \<open>close\<close> calls\<close>
  ms_workers :: "memory_job worker_pc list"
  ms_delayed :: "delayed_job list"
  ms_now :: instant
  ms_world :: 'w
  ms_crashed :: bool
  ms_accepted :: "memory_job list"
  ms_taken :: "memory_job list"
  ms_finished :: "memory_job list"

definition memory_boot :: "'w memory_driver \<Rightarrow> instant \<Rightarrow> 'w \<Rightarrow> 'w memory_system" where
  "memory_boot m now w =
     \<lparr>ms_driver = m, ms_mu = False, ms_workers = [], ms_delayed = [], ms_now = now, ms_world = w,
      ms_crashed = False, ms_accepted = [], ms_taken = [], ms_finished = []\<rparr>"

definition memory_crash :: "'w memory_system \<Rightarrow> 'w memory_system" where
  "memory_crash s = s\<lparr>ms_crashed := True\<rparr>"

text \<open>A call of \<open>Dispatch\<close>, by a client or by the goroutine of a delayed job.\<close>

definition memory_sys_dispatch ::
  "('v \<Rightarrow> err + string) \<Rightarrow> go_context \<Rightarrow> string \<Rightarrow> 'v payload \<Rightarrow> 'w memory_system \<Rightarrow> 'w memory_system" where
  "memory_sys_dispatch marshal ctx name p s =
     (case memory_Dispatch marshal (ms_driver s) ctx name p of
        Panic msg \<Rightarrow> memory_crash s
      | Ret (m', e) \<Rightarrow>
          s\<lparr>ms_driver := m',
            ms_accepted := ms_accepted s @ drop (length (md_jobChan (ms_driver s))) (md_jobChan m')\<rparr>)"

definition memory_DispatchDelayed ::
  "('v \<Rightarrow> err + string) \<Rightarrow> go_context \<Rightarrow> string \<Rightarrow> 'v payload \<Rightarrow> duration \<Rightarrow> 'w memory_system \<Rightarrow>
   'w memory_system \<times> err option" where
  "memory_DispatchDelayed marshal ctx name p delay s =
     (case MarshalPayload marshal p of
        Inl e \<Rightarrow> (s, Some e)
      | Inr raw \<Rightarrow>
          (s\<lparr>ms_delayed := ms_delayed s @
              [\<lparr>dj_due = ms_now s + delay, dj_name = name, dj_raw = raw\<rparr>]\<rparr>, None))"

text \<open>The goroutine of a delayed job: its timer fires, or it sees \<open>quit\<close> closed.\<close>

definition memory_timer_fire ::
  "('v \<Rightarrow> err + string) \<Rightarrow> nat \<Rightarrow> 'w memory_system \<Rightarrow> 'w memory_system option" where
  "memory_timer_fire marshal i s =
     (if i < length (ms_delayed s) \<and> dj_due (ms_delayed s ! i) \<le> ms_now s then
        Some (memory_sys_dispatch marshal Background (dj_name (ms_delayed s ! i))
          (Bytes (dj_raw (ms_delayed s ! i))) (s\<lparr>ms_delayed := remove_at i (ms_delayed s)\<rparr>))
      else None)"

definition memory_timer_quit :: "nat \<Rightarrow> 'w memory_system \<Rightarrow> 'w memory_system option" where
  "memory_timer_quit i s =
     (if i < length (ms_delayed s) \<and> md_quit (ms_driver s)
      then Some (s\<lparr>ms_delayed := remove_at i (ms_delayed s)\<rparr>) else None)"

definition memory_sys_start :: "'w memory_system \<Rightarrow> 'w memory_system" where
  "memory_sys_start s =
     (let spawned = (if md_running (ms_driver s) then 0 else nat (md_concurrency (ms_driver s))) in
      s\<lparr>ms_driver := fst (memory_Start (ms_driver s)),
        ms_workers := ms_workers s @ replicate spawned Idle\<rparr>)"

definition memory_sys_stop_quit :: "'w memory_system \<Rightarrow> 'w memory_system" where
  "memory_sys_stop_quit s =
     (if \<not> md_running (ms_driver s) then s
      else case memory_stop_quit (ms_driver s) of
        Panic msg \<Rightarrow> memory_crash s
      | Ret m' \<Rightarrow> s\<lparr>ms_driver := m', ms_mu := True\<rparr>)"

definition memory_sys_stop_close :: "'w memory_system \<Rightarrow> 'w memory_system" where
  "memory_sys_stop_close s =
     (case memory_stop_close (ms_driver s) of
        Panic msg \<Rightarrow> memory_crash s
      | Ret m' \<Rightarrow> s\<lparr>ms_driver := m', ms_mu := False\<rparr>)"

text \<open>
  \<open>workerLoop\<close>: a \<open>select\<close> of worker \<open>i\<close>, and the end of its \<open>ExecuteJob\<close>; a panic of the handler ends
  the process.
\<close>

definition memory_worker_select ::
  "branch \<Rightarrow> nat \<Rightarrow> 'w memory_system \<Rightarrow> 'w memory_system option" where
  "memory_worker_select b i s =
     (let m = ms_driver s in
      if i < length (ms_workers s) then
        (case worker_select b (md_chan_closed m) (md_quit m) (md_jobChan m) (ms_workers s ! i) of
           None \<Rightarrow> None
         | Some (js, pc) \<Rightarrow>
             Some (s\<lparr>ms_driver := m\<lparr>md_jobChan := js\<rparr>, ms_workers := (ms_workers s)[i := pc],
                     ms_taken := ms_taken s @ take (length (md_jobChan m) - length js) (md_jobChan m)\<rparr>))
      else None)"

definition memory_worker_finish :: "nat \<Rightarrow> 'w memory_system \<Rightarrow> 'w memory_system option" where
  "memory_worker_finish i s =
     (if i < length (ms_workers s) then
        (case worker_job (ms_workers s ! i) of
           None \<Rightarrow> None
         | Some j \<Rightarrow>
             (case ExecuteJob job_context (md_registry (ms_driver s)) (mj_name j) (mj_payload j) (ms_world s) of
                (w', Panic msg) \<Rightarrow> Some (memory_crash (s\<lparr>ms_world := w'\<rparr>))
              | (w', Ret e) \<Rightarrow>
                  Some (s\<lparr>ms_workers := (ms_workers s)[i := worker_return (ms_workers s ! i)],
                          ms_finished := ms_finished s @ [j], ms_world := w'\<rparr>)))
      else None)"

inductive memory_step ::
  "('v \<Rightarrow> err + string) \<Rightarrow> 'w memory_system \<Rightarrow> 'w memory_system \<Rightarrow> bool" for marshal where
  dispatch: "\<not> ms_crashed s \<Longrightarrow> \<not> ms_mu s \<Longrightarrow>
    memory_step marshal s (memory_sys_dispatch marshal ctx name p s)"
| delayed: "\<not> ms_crashed s \<Longrightarrow>
    memory_step marshal s (fst (memory_DispatchDelayed marshal ctx name p delay s))"
| timer_fire: "\<not> ms_crashed s \<Longrightarrow> \<not> ms_mu s \<Longrightarrow> memory_timer_fire marshal i s = Some t \<Longrightarrow>
    memory_step marshal s t"
| timer_quit: "\<not> ms_crashed s \<Longrightarrow> memory_timer_quit i s = Some t \<Longrightarrow> memory_step marshal s t"
| register: "\<not> ms_crashed s \<Longrightarrow>
    memory_step marshal s (s\<lparr>ms_driver := memory_RegisterHandler (ms_driver s) name h\<rparr>)"
| start: "\<not> ms_crashed s \<Longrightarrow> \<not> ms_mu s \<Longrightarrow> memory_step marshal s (memory_sys_start s)"
| stop_quit: "\<not> ms_crashed s \<Longrightarrow> \<not> ms_mu s \<Longrightarrow> memory_step marshal s (memory_sys_stop_quit s)"
| stop_close: "\<not> ms_crashed s \<Longrightarrow> ms_mu s \<Longrightarrow> memory_step marshal s (memory_sys_stop_close s)"
| worker_select: "\<not> ms_crashed s \<Longrightarrow> memory_worker_select b i s = Some t \<Longrightarrow> memory_step marshal s t"
| worker_finish: "\<not> ms_crashed s \<Longrightarrow> memory_worker_finish i s = Some t \<Longrightarrow> memory_step marshal s t"
| tick: "\<not> ms_crashed s \<Longrightarrow> 0 \<le> dt \<Longrightarrow> memory_step marshal s (s\<lparr>ms_now := ms_now s + dt\<rparr>)"

section \<open>Refinement of the channel machine\<close>

definition memory_view :: "'w memory_system \<Rightarrow> memory_job pool_state" where
  "memory_view s =
     \<lparr>ps_cap = md_cap (ms_driver s), ps_buffer = md_jobChan (ms_driver s),
      ps_closed = md_chan_closed (ms_driver s), ps_quit = md_quit (ms_driver s), ps_mu = ms_mu s,
      ps_workers = ms_workers s, ps_accepted = ms_accepted s, ps_taken = ms_taken s,
      ps_finished = ms_finished s\<rparr>"

lemma view_simps [simp]:
  "ps_cap (memory_view s) = md_cap (ms_driver s)"
  "ps_buffer (memory_view s) = md_jobChan (ms_driver s)"
  "ps_closed (memory_view s) = md_chan_closed (ms_driver s)"
  "ps_quit (memory_view s) = md_quit (ms_driver s)"
  "ps_mu (memory_view s) = ms_mu s"
  "ps_workers (memory_view s) = ms_workers s"
  "ps_accepted (memory_view s) = ms_accepted s"
  "ps_taken (memory_view s) = ms_taken s"
  "ps_finished (memory_view s) = ms_finished s"
  by (simp_all add: memory_view_def)

lemma view_crash [simp]: "memory_view (memory_crash s) = memory_view s"
  by (simp add: memory_view_def memory_crash_def)

lemma view_delayed [simp]: "memory_view (s\<lparr>ms_delayed := ds\<rparr>) = memory_view s"
  by (simp add: memory_view_def)

lemma view_world [simp]: "memory_view (s\<lparr>ms_world := w\<rparr>) = memory_view s"
  by (simp add: memory_view_def)

lemma view_now [simp]: "memory_view (s\<lparr>ms_now := t\<rparr>) = memory_view s"
  by (simp add: memory_view_def)

lemma dispatch_sim:
  assumes "\<not> ms_mu s"
  shows "pool_step (memory_view s) (memory_view (memory_sys_dispatch marshal ctx name p s))"
proof (cases "MarshalPayload marshal p")
  case (Inl e)
  then have "memory_view (memory_sys_dispatch marshal ctx name p s) = memory_view s"
    by (simp add: memory_sys_dispatch_def memory_Dispatch_def memory_view_def)
  then show ?thesis by (simp add: pool_step.stutter)
next
  case (Inr raw)
  let ?m = "ms_driver s" and ?j = "\<lparr>mj_name = name, mj_payload = raw\<rparr>"
  show ?thesis
  proof (cases "\<not> md_chan_closed ?m \<and> length (md_jobChan ?m) < md_cap ?m")
    case True
    with Inr have "memory_view (memory_sys_dispatch marshal ctx name p s) =
        pool_accept ?j (memory_view s)"
      by (simp add: memory_sys_dispatch_def memory_Dispatch_def memory_view_def pool_accept_def)
    moreover have "pool_step (memory_view s) (pool_accept ?j (memory_view s))"
      using assms True by (intro pool_step.accept) simp_all
    ultimately show ?thesis by simp
  next
    case False
    with Inr have "memory_view (memory_sys_dispatch marshal ctx name p s) = memory_view s"
      by (auto simp: memory_sys_dispatch_def memory_Dispatch_def memory_view_def memory_crash_def)
    then show ?thesis by (simp add: pool_step.stutter)
  qed
qed

lemma select_sim:
  assumes "memory_worker_select b i s = Some t"
  shows "pool_step (memory_view s) (memory_view t)"
proof -
  from assms have "pool_select b i (memory_view s) = Some (memory_view t)"
    by (auto simp: memory_worker_select_def pool_select_def memory_view_def Let_def
        split: if_splits option.splits)
  then show ?thesis by (intro pool_step.work pool_work.select)
qed

lemma memory_finish_cases:
  assumes "memory_worker_finish i s = Some t"
  obtains (finished) "pool_finish i (memory_view s) = Some (memory_view t)" "ms_crashed t = ms_crashed s"
      "md_chan_closed (ms_driver t) = md_chan_closed (ms_driver s)"
    | (panicked) j msg w' where "i < length (ms_workers s)" "worker_job (ms_workers s ! i) = Some j"
      "ExecuteJob job_context (md_registry (ms_driver s)) (mj_name j) (mj_payload j) (ms_world s) = (w', Panic msg)"
      "t = memory_crash (s\<lparr>ms_world := w'\<rparr>)"
  using assms
  by (auto simp: memory_worker_finish_def pool_finish_def memory_view_def
      split: if_splits option.splits prod.splits outcome.splits)

lemma finish_sim:
  assumes "memory_worker_finish i s = Some t"
  shows "pool_step (memory_view s) (memory_view t)"
  using assms
proof (cases rule: memory_finish_cases)
  case finished
  then show ?thesis by (intro pool_step.work pool_work.finish)
next
  case panicked
  then show ?thesis by (simp add: pool_step.stutter)
qed

lemma start_sim:
  assumes "\<not> ms_mu s"
  shows "pool_step (memory_view s) (memory_view (memory_sys_start s))"
proof -
  let ?n = "if md_running (ms_driver s) then 0 else nat (md_concurrency (ms_driver s))"
  have "memory_view (memory_sys_start s) =
      (memory_view s)\<lparr>ps_workers := ps_workers (memory_view s) @ replicate ?n Idle\<rparr>"
    by (simp add: memory_view_def memory_sys_start_def memory_Start_def)
  moreover have "pool_step (memory_view s)
      ((memory_view s)\<lparr>ps_workers := ps_workers (memory_view s) @ replicate ?n Idle\<rparr>)"
    using assms by (intro pool_step.start) simp
  ultimately show ?thesis by simp
qed

lemma stop_quit_sim:
  assumes "\<not> ms_mu s"
  shows "pool_step (memory_view s) (memory_view (memory_sys_stop_quit s))"
proof (cases "md_running (ms_driver s) \<and> \<not> md_quit (ms_driver s)")
  case True
  then have "memory_view (memory_sys_stop_quit s) = (memory_view s)\<lparr>ps_quit := True, ps_mu := True\<rparr>"
    by (simp add: memory_sys_stop_quit_def memory_stop_quit_def memory_view_def)
  moreover have "pool_step (memory_view s) ((memory_view s)\<lparr>ps_quit := True, ps_mu := True\<rparr>)"
    using assms True by (intro pool_step.stop_quit) simp_all
  ultimately show ?thesis by simp
next
  case False
  then have "memory_view (memory_sys_stop_quit s) = memory_view s"
    by (auto simp: memory_sys_stop_quit_def memory_stop_quit_def)
  then show ?thesis by (simp add: pool_step.stutter)
qed

lemma stop_close_sim:
  assumes "ms_mu s"
  shows "pool_step (memory_view s) (memory_view (memory_sys_stop_close s))"
proof (cases "md_chan_closed (ms_driver s)")
  case False
  then have "memory_view (memory_sys_stop_close s) = (memory_view s)\<lparr>ps_closed := True, ps_mu := False\<rparr>"
    by (simp add: memory_sys_stop_close_def memory_stop_close_def memory_view_def)
  moreover have "pool_step (memory_view s) ((memory_view s)\<lparr>ps_closed := True, ps_mu := False\<rparr>)"
    using assms False by (intro pool_step.stop_close) simp_all
  ultimately show ?thesis by simp
next
  case True
  then have "memory_view (memory_sys_stop_close s) = memory_view s"
    by (auto simp: memory_sys_stop_close_def memory_stop_close_def)
  then show ?thesis by (simp add: pool_step.stutter)
qed

lemma memory_step_sim: "memory_step marshal s t \<Longrightarrow> pool_step (memory_view s) (memory_view t)"
proof (induction rule: memory_step.induct)
  case (timer_fire s i t)
  let ?s = "s\<lparr>ms_delayed := remove_at i (ms_delayed s)\<rparr>"
  from timer_fire have "t = memory_sys_dispatch marshal Background (dj_name (ms_delayed s ! i))
      (Bytes (dj_raw (ms_delayed s ! i))) ?s"
    by (simp add: memory_timer_fire_def split: if_splits)
  moreover have "\<not> ms_mu ?s" using timer_fire by simp
  ultimately show ?case using dispatch_sim [of ?s] by simp
next
  case (delayed s ctx name p delay)
  have "memory_view (fst (memory_DispatchDelayed marshal ctx name p delay s)) = memory_view s"
    by (simp add: memory_DispatchDelayed_def split: sum.splits)
  then show ?case by (simp add: pool_step.stutter)
next
  case (timer_quit s i t)
  then have "memory_view t = memory_view s"
    by (auto simp: memory_timer_quit_def split: if_splits)
  then show ?case by (simp add: pool_step.stutter)
next
  case (register s name h)
  have "memory_view (s\<lparr>ms_driver := memory_RegisterHandler (ms_driver s) name h\<rparr>) = memory_view s"
    by (simp add: memory_view_def memory_RegisterHandler_def)
  then show ?case by (simp add: pool_step.stutter)
next
  case (tick s dt)
  show ?case by (simp add: pool_step.stutter)
qed (blast intro: dispatch_sim start_sim stop_quit_sim stop_close_sim select_sim finish_sim)+

lemma memory_boot_view:
  "memory_view (memory_boot (NewMemoryDriver c n reg) now w) = pool_init (if n \<le> 0 then 100 else nat n)"
  by (simp add: memory_view_def memory_boot_def NewMemoryDriver_def pool_init_def)

interpretation memory_pool:
  pool_implementation "memory_boot (NewMemoryDriver c n reg) now w" "memory_step marshal" memory_view
    "if n \<le> 0 then 100 else nat n"
  for c n :: int and reg :: "'w registry option" and now :: instant and w :: 'w
    and marshal :: "'v \<Rightarrow> err + string"
  by unfold_locales (rule memory_boot_view, rule memory_step_sim)

interpretation memory_lifecycle:
  worker_lifecycle md_running "\<lambda>m. md_quit m \<or> md_chan_closed m" memory_Start memory_Stop
  by unfold_locales
    (auto simp: memory_Start_def memory_Stop_def memory_stop_quit_def memory_stop_close_def)

interpretation memory_queue:
  queue_driver md_registry "memory_Dispatch marshal" memory_RegisterHandler marshal
  for marshal :: "'v \<Rightarrow> err + string"
  by unfold_locales
    (auto simp: memory_RegisterHandler_def memory_Dispatch_def split: sum.splits if_splits)

end
