(* ===== verification/Memory_Properties.thy ===== *)
theory Memory_Properties
  imports Memory_Driver
begin

text \<open>
  The properties of the in-memory queue, \<open>pkg/queue/driver_memory.go\<close>, over every interleaving
  of its clients, workers, timers and of \<open>Stop\<close>. \<open>memory_run\<close> executes a script of events;
  the witnesses are scripts.
\<close>

section \<open>Workers left alone\<close>

text \<open>\<open>n\<close> moves of workers, with no other step in between; none follows a panic.\<close>

inductive memory_drain :: "nat \<Rightarrow> 'w memory_system \<Rightarrow> 'w memory_system \<Rightarrow> bool" where
  none: "memory_drain 0 s s"
| select: "\<not> ms_crashed s \<Longrightarrow> memory_worker_select b i s = Some t \<Longrightarrow> memory_drain n t u \<Longrightarrow>
    memory_drain (Suc n) s u"
| finish: "\<not> ms_crashed s \<Longrightarrow> memory_worker_finish i s = Some t \<Longrightarrow> memory_drain n t u \<Longrightarrow>
    memory_drain (Suc n) s u"

definition memory_stuck :: "'w memory_system \<Rightarrow> bool" where
  "memory_stuck s \<longleftrightarrow>
     (\<forall>b i. memory_worker_select b i s = None) \<and> (\<forall>i. memory_worker_finish i s = None)"

lemma memory_work_view:
  "memory_worker_select b i s = Some t \<Longrightarrow> pool_work (memory_view s) (memory_view t)"
  by (rule pool_work.select)
    (auto simp: memory_worker_select_def pool_select_def memory_view_def Let_def
      split: if_splits option.splits)

lemma select_closed: "memory_worker_select b i s = Some t \<Longrightarrow>
  md_chan_closed (ms_driver t) = md_chan_closed (ms_driver s) \<and> ms_crashed t = ms_crashed s"
  by (auto simp: memory_worker_select_def Let_def split: if_splits option.splits)

lemma finish_closed: "memory_worker_finish i s = Some t \<Longrightarrow>
  md_chan_closed (ms_driver t) = md_chan_closed (ms_driver s)"
  by (auto elim!: memory_finish_cases simp: memory_crash_def)

lemma drain_closed: "memory_drain n s t \<Longrightarrow> md_chan_closed (ms_driver t) = md_chan_closed (ms_driver s)"
  by (induction rule: memory_drain.induct) (auto dest: select_closed finish_closed)

text \<open>Each move uses up weight of the channel machine, and a panic is the last one.\<close>

lemma drain_weight:
  "memory_drain n s t \<Longrightarrow>
   n + (if ms_crashed t \<and> \<not> ms_crashed s then 0 else pool_weight (memory_view t)) \<le> pool_weight (memory_view s)"
proof (induction rule: memory_drain.induct)
  case (select s b i t n u)
  have "Suc (pool_weight (memory_view t)) \<le> pool_weight (memory_view s)"
    by (rule Suc_leI [OF pool_work_weight [OF memory_work_view [OF select.hyps(2)]]])
  then show ?case using select select_closed [OF select.hyps(2)] by (simp split: if_splits)
next
  case (finish s i t n u)
  from finish.hyps(2) show ?case
  proof (cases rule: memory_finish_cases)
    case finished
    then have "Suc (pool_weight (memory_view t)) \<le> pool_weight (memory_view s)"
      by (intro Suc_leI pool_work_weight pool_work.finish)
    then show ?thesis using finish finished(2) by (simp split: if_splits)
  next
    case (panicked j msg w')
    then have last: "ms_crashed t" by (simp add: memory_crash_def)
    with finish.hyps(3) have "n = 0" "u = t" by (auto elim: memory_drain.cases)
    moreover have "pool_finish i (memory_view s) \<noteq> None" using panicked by (simp add: pool_finish_def)
    then obtain v where "pool_finish i (memory_view s) = Some v" by blast
    then have "Suc (pool_weight v) \<le> pool_weight (memory_view s)" by (intro Suc_leI pool_work_weight pool_work.finish)
    ultimately show ?thesis using last finish.hyps(1) by simp
  qed
qed simp

lemma finish_no_panic:
  assumes "memory_worker_finish i s = Some t" "no_panics (md_registry (ms_driver s))"
  shows "ms_crashed t = ms_crashed s \<and> md_registry (ms_driver t) = md_registry (ms_driver s)"
  using assms(1)
proof -
  have "\<nexists>w' msg. ExecuteJob job_context (md_registry (ms_driver s)) n raw w = (w', Panic msg)" for n raw w
    using no_panicsD [OF assms(2), of job_context n raw w] by auto
  then show ?thesis using assms(1)
    by (auto simp: memory_worker_finish_def split: if_splits option.splits prod.splits outcome.splits)
qed

lemma select_registry: "memory_worker_select b i s = Some t \<Longrightarrow>
  md_registry (ms_driver t) = md_registry (ms_driver s)"
  by (auto simp: memory_worker_select_def Let_def split: if_splits option.splits)

lemma drain_no_panic:
  "memory_drain n s t \<Longrightarrow> no_panics (md_registry (ms_driver s)) \<Longrightarrow> ms_crashed t = ms_crashed s"
proof (induction rule: memory_drain.induct)
  case (select s b i t n u)
  then show ?case using select_closed select_registry by metis
next
  case (finish s i t n u)
  then show ?case using finish_no_panic by metis
qed simp

lemma drain_reach: "memory_drain n s t \<Longrightarrow> (memory_step marshal)\<^sup>*\<^sup>* s t"
proof (induction rule: memory_drain.induct)
  case (select s b i t n u)
  then show ?case by (metis converse_rtranclp_into_rtranclp memory_step.worker_select)
next
  case (finish s i t n u)
  then show ?case by (metis converse_rtranclp_into_rtranclp memory_step.worker_finish)
qed simp

text \<open>With the channel closed, a worker that has not returned can move.\<close>

lemma stuck_exited:
  assumes "memory_stuck s" "md_chan_closed (ms_driver s)"
  shows "set (ms_workers s) \<subseteq> {Exited}"
proof
  fix pc assume "pc \<in> set (ms_workers s)"
  then obtain i where i: "i < length (ms_workers s)" "ms_workers s ! i = pc"
    by (auto simp: in_set_conv_nth)
  show "pc \<in> {Exited}"
  proof (rule ccontr)
    assume "pc \<notin> {Exited}"
    with i assms(2) obtain v where "pool_work (memory_view s) v"
      using closed_progress [of "memory_view s" i] by auto
    then show False
    proof cases
      case (select b k)
      with assms(1) show ?thesis
        by (auto simp: memory_stuck_def memory_worker_select_def pool_select_def Let_def
            split: if_splits option.splits prod.splits)
    next
      case (finish k)
      moreover have "memory_worker_finish k s = None" using assms(1) by (simp add: memory_stuck_def)
      ultimately show ?thesis
        by (auto simp: memory_worker_finish_def pool_finish_def
            split: if_splits option.splits prod.splits outcome.splits)
    qed
  qed
qed

lemma sum_weight_le: "sum_list (map pc_weight ws) \<le> 3 * length ws"
proof (induction ws)
  case (Cons pc ws)
  have "pc_weight pc \<le> 3" by (cases pc) simp_all
  with Cons show ?case by simp
qed simp

section \<open>Scripts\<close>

datatype memory_event =
    EDispatch string string | EDelayed string string duration | EFire nat
  | EStart | EStopQuit | EStopClose | ESelect branch nat | EFinish nat | ETick nat

definition raw_marshal :: "string \<Rightarrow> err + string" where
  "raw_marshal v = Inr v"

fun memory_exec :: "memory_event \<Rightarrow> 'w memory_system \<Rightarrow> 'w memory_system option" where
  "memory_exec (EDispatch name raw) s =
     (if ms_mu s then None else Some (memory_sys_dispatch raw_marshal Background name (Bytes raw) s))"
| "memory_exec (EDelayed name raw delay) s =
     Some (fst (memory_DispatchDelayed raw_marshal Background name (Bytes raw) delay s))"
| "memory_exec (EFire i) s = (if ms_mu s then None else memory_timer_fire raw_marshal i s)"
| "memory_exec EStart s = (if ms_mu s then None else Some (memory_sys_start s))"
| "memory_exec EStopQuit s = (if ms_mu s then None else Some (memory_sys_stop_quit s))"
| "memory_exec EStopClose s = (if ms_mu s then Some (memory_sys_stop_close s) else None)"
| "memory_exec (ESelect b i) s = memory_worker_select b i s"
| "memory_exec (EFinish i) s = memory_worker_finish i s"
| "memory_exec (ETick n) s = Some (s\<lparr>ms_now := ms_now s + int n\<rparr>)"

fun memory_run :: "memory_event list \<Rightarrow> 'w memory_system \<Rightarrow> 'w memory_system option" where
  "memory_run [] s = Some s"
| "memory_run (e # es) s =
     (if ms_crashed s then None
      else case memory_exec e s of None \<Rightarrow> None | Some t \<Rightarrow> memory_run es t)"

lemma memory_exec_step:
  "memory_exec e s = Some t \<Longrightarrow> \<not> ms_crashed s \<Longrightarrow> memory_step raw_marshal s t"
  by (cases e) (auto intro: memory_step.intros split: if_splits)

lemma memory_run_reach: "memory_run es s = Some t \<Longrightarrow> (memory_step raw_marshal)\<^sup>*\<^sup>* s t"
proof (induction es arbitrary: s)
  case (Cons e es)
  then show ?case
    by (auto split: if_splits option.splits
        intro: converse_rtranclp_into_rtranclp [of "memory_step raw_marshal"] memory_exec_step)
qed simp

definition count_handler :: "nat handler" where
  "count_handler c raw w = (Suc w, Ret None)"

definition memory_sample :: "nat memory_system" where
  "memory_sample =
     memory_boot (NewMemoryDriver 1 2 (Some (Register NewRegistry ''a'' count_handler))) 0 0"

text \<open>Three dispatches into a buffer of two, one worker, and a stop.\<close>

definition stop_script :: "memory_event list" where
  "stop_script =
     [EStart, EDispatch ''a'' ''1'', EDispatch ''a'' ''2'', EDispatch ''a'' ''3'',
      ESelect RecvCase 0, EStopQuit, EStopClose]"

definition drain_script :: "memory_event list" where
  "drain_script =
     [EFinish 0, ESelect QuitCase 0, ESelect RecvCase 0, EFinish 0, ESelect RecvCase 0]"

definition stopped :: "nat memory_system" where
  "stopped = the (memory_run stop_script memory_sample)"

definition drained :: "nat memory_system" where
  "drained = the (memory_run drain_script stopped)"

lemma stopped_run: "memory_run stop_script memory_sample = Some stopped"
proof -
  have "memory_run stop_script memory_sample \<noteq> None" by code_simp
  then show ?thesis by (simp add: stopped_def)
qed

lemma drained_run: "memory_run drain_script stopped = Some drained"
proof -
  have "memory_run drain_script stopped \<noteq> None" by code_simp
  then show ?thesis by (simp add: drained_def)
qed

lemmas stopped_reach = memory_run_reach [OF stopped_run]
lemmas drained_reach = rtranclp_trans [OF stopped_reach memory_run_reach [OF drained_run]]

section \<open>Properties\<close>

text \<open>
  C19. In every reachable state of a memory queue and its goroutines, jobs have left the channel
  in the order in which they were accepted, each accepted job is finished, being executed by
  exactly one worker, or still in the buffer, and the buffer is within its size. Once every worker of
  the pool has returned, nothing that was accepted is left behind: the buffer is empty and the finished
  jobs are exactly the accepted ones, each once.
\<close>

theorem memory_jobs_conserved:
  assumes "(memory_step marshal)\<^sup>*\<^sup>* (memory_boot (NewMemoryDriver c n reg) now w) s"
  shows "ms_accepted s = ms_taken s @ md_jobChan (ms_driver s) \<and>
    mset (ms_accepted s) =
      mset (ms_finished s) + executing (ms_workers s) + mset (md_jobChan (ms_driver s)) \<and>
    length (md_jobChan (ms_driver s)) \<le> (if n \<le> 0 then 100 else nat n) \<and>
    (set (ms_workers s) = {Exited} \<longrightarrow>
      md_jobChan (ms_driver s) = [] \<and> mset (ms_finished s) = mset (ms_accepted s))"
  using memory_pool.reach_fifo [OF assms] memory_pool.reach_conserves [OF assms]
    memory_pool.reach_bounded [OF assms] memory_pool.reach_drained [OF assms] by simp

theorem memory_jobs_conserved_witness:
  "map mj_payload (ms_accepted stopped) = [''1'', ''2''] \<and>
   ms_accepted stopped = ms_taken stopped @ md_jobChan (ms_driver stopped) \<and>
   ms_world drained = 2 \<and> mset (ms_finished drained) = mset (ms_accepted drained)"
proof -
  have "map mj_payload (ms_accepted stopped) = [''1'', ''2'']" "ms_world drained = 2" by code_simp+
  moreover have "ms_workers drained = [Exited]" by code_simp
  then have "set (ms_workers drained) = {Exited}" by simp
  ultimately show ?thesis
    using memory_jobs_conserved [OF stopped_reach [unfolded memory_sample_def]]
      memory_jobs_conserved [OF drained_reach [unfolded memory_sample_def]] by simp
qed

text \<open>
  C23. After \<open>Stop\<close> has closed the channels the workers shut down by themselves: they can make
  at most \<open>2 * buffered + 3 * workers\<close> moves, whatever the scheduler does, and when no worker can
  move any more, all have returned, unless a handler's panic ended the process before.
\<close>

theorem memory_stop_terminates:
  assumes "md_chan_closed (ms_driver s)" and "\<not> ms_crashed s" and "memory_drain n s t"
  shows "n \<le> 2 * length (md_jobChan (ms_driver s)) + 3 * length (ms_workers s) \<and>
    (memory_stuck t \<longrightarrow> set (ms_workers t) \<subseteq> {Exited}) \<and>
    (no_panics (md_registry (ms_driver s)) \<longrightarrow> \<not> ms_crashed t)"
proof (intro conjI impI)
  have "n \<le> pool_weight (memory_view s)" using drain_weight [OF assms(3)] by (simp split: if_splits)
  then show "n \<le> 2 * length (md_jobChan (ms_driver s)) + 3 * length (ms_workers s)"
    using sum_weight_le [of "ms_workers s"] by (simp add: pool_weight_def)
  have "md_chan_closed (ms_driver t)" using drain_closed [OF assms(3)] assms(1) by simp
  then show "set (ms_workers t) \<subseteq> {Exited}" if "memory_stuck t" using that by (simp add: stuck_exited)
  show "\<not> ms_crashed t" if "no_panics (md_registry (ms_driver s))" using drain_no_panic [OF assms(3)] that assms(2) by blast
qed

lemma exec_drain:
  "\<not> ms_crashed s \<Longrightarrow> memory_exec (EFinish i) s = Some t \<Longrightarrow> memory_drain n t u \<Longrightarrow> memory_drain (Suc n) s u"
  "\<not> ms_crashed s \<Longrightarrow> memory_exec (ESelect b i) s = Some t \<Longrightarrow> memory_drain n t u \<Longrightarrow> memory_drain (Suc n) s u"
  by (auto intro: memory_drain.intros)

lemma run_drain:
  "memory_run es s = Some t \<Longrightarrow> \<forall>e \<in> set es. (\<exists>i. e = EFinish i) \<or> (\<exists>b i. e = ESelect b i) \<Longrightarrow>
   memory_drain (length es) s t"
proof (induction es arbitrary: s)
  case (Cons e es)
  from Cons.prems(1) obtain u where "\<not> ms_crashed s" "memory_exec e s = Some u" "memory_run es u = Some t"
    by (auto split: if_splits option.splits)
  moreover from this Cons.prems(2) have "memory_drain (length es) u t" by (auto intro: Cons.IH)
  ultimately show ?case using Cons.prems(2) by (auto intro: exec_drain)
qed (simp add: memory_drain.none)

theorem memory_stop_terminates_witness:
  "memory_drain 5 stopped drained \<and> (5::nat) \<le> 2 * 1 + 3 * 1"
proof -
  have d: "memory_drain 5 stopped drained"
    using run_drain [OF drained_run] by (simp add: drain_script_def eval_nat_numeral)
  have "md_chan_closed (ms_driver stopped) \<and> \<not> ms_crashed stopped \<and> length (md_jobChan (ms_driver stopped)) = 1 \<and>
      length (ms_workers stopped) = 1" by code_simp
  with memory_stop_terminates [OF _ _ d] d show ?thesis by simp
qed

text \<open>
  \<open>Dispatch\<close> returns in every state before \<open>Stop\<close> closed the job channel: with no error
  exactly when the job is in the buffer afterwards, and otherwise leaving the driver unchanged.
  After a \<open>Stop\<close> that returned, a dispatch of any payload that can be marshalled panics:
  \<open>ErrQueueClosed\<close>, which the package declares for this, is never returned.
\<close>

theorem memory_dispatch_after_stop_panics:
  assumes "md_running m" "\<not> md_quit m" "\<not> md_chan_closed m"
    and "MarshalPayload marshal p = Inr raw"
  shows "(\<exists>m' e. memory_Dispatch marshal m ctx name p = Ret (m', e) \<and>
        (if length (md_jobChan m) < md_cap m
         then e = None \<and> md_jobChan m' = md_jobChan m @ [\<lparr>mj_name = name, mj_payload = raw\<rparr>]
         else e = Some (ErrNew ''queue: memory buffer full, job dropped'') \<and> m' = m)) \<and>
    (\<exists>m' e. memory_Stop b m = Ret (m', e) \<and>
        memory_Dispatch marshal m' ctx name p = Panic ''send on closed channel'')"
  using assms
  by (auto simp: memory_Dispatch_def memory_Stop_def memory_stop_quit_def memory_stop_close_def)

definition running_memory :: "nat memory_driver" where
  "running_memory = fst (memory_Start (NewMemoryDriver 0 0 None))"

theorem memory_dispatch_after_stop_panics_witness:
  "\<exists>m' e. memory_Stop True running_memory = Ret (m', e) \<and>
     memory_Dispatch raw_marshal m' Background ''a'' NilPayload = Panic ''send on closed channel''"
  using memory_dispatch_after_stop_panics
    [of running_memory raw_marshal NilPayload "''{}''" Background "''a''" True]
  by (simp add: running_memory_def memory_Start_def NewMemoryDriver_def MarshalPayload_def)

text \<open>
  The goroutine of a delayed job does not protect the process from this: when its timer is
  due in a state in which \<open>Stop\<close> has closed the job channel, it may take the timer's case, and
  then it panics and the process ends. A client that only calls \<open>Start\<close>, \<open>DispatchDelayed\<close> and
  \<open>Stop\<close>, each once and in this order, can reach such an end.
\<close>

theorem memory_delayed_job_crashes_stop:
  "\<exists>s. (memory_step raw_marshal)\<^sup>*\<^sup>* memory_sample s \<and> ms_crashed s \<and>
     memory_run [EStart, EDelayed ''a'' ''1'' 10, ETick 10, EStopQuit, EStopClose, EFire 0] memory_sample =
       Some s"
proof -
  let ?es = "[EStart, EDelayed ''a'' ''1'' 10, ETick 10, EStopQuit, EStopClose, EFire 0]"
  have "case memory_run ?es memory_sample of None \<Rightarrow> False | Some s \<Rightarrow> ms_crashed s" by code_simp
  then obtain s where "memory_run ?es memory_sample = Some s" "ms_crashed s"
    by (auto split: option.splits)
  with memory_run_reach [OF this(1)] show ?thesis by blast
qed

end
