(* ===== verification/Json_Strings.thy ===== *)
theory Json_Strings
  imports Go_Prelude
begin

text \<open>
  The part of \<open>encoding/json\<close> that \<open>config.splitTrim\<close> relies on: \<open>json.Unmarshal\<close> of a text
  into a \<open>[]string\<close>. \<open>unmarshal_strings\<close> succeeds exactly on an array whose elements are
  strings or \<open>null\<close> (which leaves the empty string); every other text is an error, of the
  syntax or of the type. Escapes are decoded, \<open>\u\<close> escapes to UTF-8, surrogate pairs joined and
  lone surrogates replaced, as Go does. Bytes above 127 are copied: they are taken to be valid
  UTF-8.

  Lemmas: plain strings read back as themselves, and the array that lists them as that list.
\<close>

section \<open>Scanning\<close>

definition json_space :: "char \<Rightarrow> bool" where
  "json_space c = (c = CHR '' '' \<or> c = CHR 0x09 \<or> c = CHR 0x0A \<or> c = CHR 0x0D)"

definition skip_space :: "string \<Rightarrow> string" where
  "skip_space s = dropWhile json_space s"

definition hex_digit :: "char \<Rightarrow> nat option" where
  "hex_digit c = (let n = (of_char c :: nat) in
     if 48 \<le> n \<and> n \<le> 57 then Some (n - 48)
     else if 65 \<le> n \<and> n \<le> 70 then Some (n - 55)
     else if 97 \<le> n \<and> n \<le> 102 then Some (n - 87)
     else None)"

fun hex4 :: "string \<Rightarrow> (nat \<times> string) option" where
  "hex4 (a # b # c # d # s) =
     (case (hex_digit a, hex_digit b, hex_digit c, hex_digit d) of
        (Some w, Some x, Some y, Some z) \<Rightarrow> Some (((w * 16 + x) * 16 + y) * 16 + z, s)
      | _ \<Rightarrow> None)"
| "hex4 s = None"

definition utf8 :: "nat \<Rightarrow> string" where
  "utf8 n =
     (if n < 128 then [char_of n]
      else if n < 2048 then [char_of (192 + n div 64), char_of (128 + n mod 64)]
      else if n < 65536 then
        [char_of (224 + n div 4096), char_of (128 + n div 64 mod 64), char_of (128 + n mod 64)]
      else [char_of (240 + n div 262144), char_of (128 + n div 4096 mod 64),
            char_of (128 + n div 64 mod 64), char_of (128 + n mod 64)])"

text \<open>The text after \<open>\u\<close>: the decoded bytes and the rest. 65533 is the replacement character.\<close>

definition unicode_escape :: "string \<Rightarrow> (string \<times> string) option" where
  "unicode_escape s =
     (case hex4 s of
        None \<Rightarrow> None
      | Some (n, r) \<Rightarrow>
          if 55296 \<le> n \<and> n < 56320 then
            (case (if take 2 r = [CHR 0x5C, CHR ''u''] then hex4 (drop 2 r) else None) of
               Some (m, r') \<Rightarrow>
                 if 56320 \<le> m \<and> m < 57344
                 then Some (utf8 (65536 + (n - 55296) * 1024 + (m - 56320)), r')
                 else Some (utf8 65533, r)
             | None \<Rightarrow> Some (utf8 65533, r))
          else if 56320 \<le> n \<and> n < 57344 then Some (utf8 65533, r)
          else Some (utf8 n, r))"

definition simple_escape :: "char \<Rightarrow> char option" where
  "simple_escape c =
     (if c = CHR 0x22 \<or> c = CHR 0x5C \<or> c = CHR ''/'' then Some c
      else if c = CHR ''b'' then Some (CHR 0x08)
      else if c = CHR ''f'' then Some (CHR 0x0C)
      else if c = CHR ''n'' then Some (CHR 0x0A)
      else if c = CHR ''r'' then Some (CHR 0x0D)
      else if c = CHR ''t'' then Some (CHR 0x09)
      else None)"

lemma hex4_shorter: "hex4 s = Some (n, r) \<Longrightarrow> length r < length s"
  by (induction s rule: hex4.induct) (auto split: option.splits)

lemma unicode_escape_shorter: "unicode_escape s = Some (b, r) \<Longrightarrow> length r < length s"
  by (auto simp: unicode_escape_def split: option.splits if_splits dest!: hex4_shorter)

text \<open>The rest of a string after its opening quote.\<close>

function json_string :: "string \<Rightarrow> (string \<times> string) option" where
  "json_string s =
     (case s of
        [] \<Rightarrow> None
      | c # r \<Rightarrow>
          if c = CHR 0x22 then Some ([], r)
          else if c = CHR 0x5C then
            (case r of
               [] \<Rightarrow> None
             | e # r2 \<Rightarrow>
                 if e = CHR ''u'' then
                   (case unicode_escape r2 of
                      None \<Rightarrow> None
                    | Some (b, r3) \<Rightarrow> map_option (\<lambda>(t, u). (b @ t, u)) (json_string r3))
                 else
                   (case simple_escape e of
                      None \<Rightarrow> None
                    | Some d \<Rightarrow> map_option (\<lambda>(t, u). (d # t, u)) (json_string r2)))
          else if (of_char c :: nat) < 32 then None
          else map_option (\<lambda>(t, u). (c # t, u)) (json_string r))"
  by pat_completeness auto
termination
  by (relation "measure length") (auto dest: unicode_escape_shorter)

declare json_string.simps [simp del]

text \<open>A string read by one step: its end, an escape with its rest, or a plain character.\<close>

lemma json_stringE:
  assumes "json_string s = Some (t, r)"
  obtains (quote) "s = CHR 0x22 # r"
    | (unicode) r2 b r3 t' where "s = CHR 0x5C # CHR ''u'' # r2" "unicode_escape r2 = Some (b, r3)"
        "json_string r3 = Some (t', r)"
    | (simple) e d r2 t' where "s = CHR 0x5C # e # r2" "e \<noteq> CHR ''u''" "simple_escape e = Some d"
        "json_string r2 = Some (t', r)"
    | (plain) c q t' where "s = c # q" "c \<noteq> CHR 0x22" "c \<noteq> CHR 0x5C" "\<not> (of_char c :: nat) < 32"
        "json_string q = Some (t', r)"
  using assms
  by (subst (asm) json_string.simps) (auto split: list.splits if_splits option.splits)

lemma json_string_shorter: "json_string s = Some (t, r) \<Longrightarrow> length r < length s"
proof (induction s arbitrary: t r rule: json_string.induct)
  case (1 s)
  from 1(4) show ?case
  proof (cases rule: json_stringE)
    case (unicode r2 b r3 t')
    with 1(1) have "length r < length r3" by blast
    with unicode_escape_shorter [OF unicode(2)] unicode(1) show ?thesis by simp
  next
    case (simple e d r2 t')
    with 1(2) have "length r < length r2" by blast
    with simple(1) show ?thesis by simp
  next
    case (plain c q t')
    with 1(3) have "length r < length q" by blast
    with plain(1) show ?thesis by simp
  qed simp
qed

text \<open>An element of the array: a string or \<open>null\<close>.\<close>

definition json_element :: "string \<Rightarrow> (string \<times> string) option" where
  "json_element s =
     (case s of
        [] \<Rightarrow> None
      | c # r \<Rightarrow>
          if c = CHR 0x22 then json_string r
          else if take 4 s = ''null'' then Some ([], drop 4 s)
          else None)"

lemma json_element_shorter: "json_element s = Some (t, r) \<Longrightarrow> length r < length s"
  by (auto simp: json_element_def split: list.splits if_splits dest: json_string_shorter)

function json_elements :: "string \<Rightarrow> (string list \<times> string) option" where
  "json_elements s =
     (case json_element (skip_space s) of
        None \<Rightarrow> None
      | Some (x, r) \<Rightarrow>
          (case skip_space r of
             [] \<Rightarrow> None
           | c # q \<Rightarrow>
               if c = CHR '','' then map_option (\<lambda>(xs, u). (x # xs, u)) (json_elements q)
               else if c = CHR '']'' then Some ([x], q)
               else None))"
  by pat_completeness auto
termination
proof (relation "measure length")
  fix s :: string and p x r c q
  assume "json_element (skip_space s) = Some p" "(x, r) = p" "skip_space r = c # q"
  then have "length r < length (skip_space s)" "length (c # q) \<le> length r"
    using length_dropWhile_le [of json_space r]
    by (auto simp: skip_space_def dest: json_element_shorter)
  moreover have "length (skip_space s) \<le> length s"
    unfolding skip_space_def by (rule length_dropWhile_le)
  ultimately show "(q, s) \<in> measure length" by simp
qed simp

declare json_elements.simps [simp del]

definition unmarshal_strings :: "string \<Rightarrow> string list option" where
  "unmarshal_strings s =
     (case skip_space s of
        [] \<Rightarrow> None
      | c # r \<Rightarrow>
          if c \<noteq> CHR ''['' then None
          else case (case skip_space r of
                       [] \<Rightarrow> None
                     | d # q \<Rightarrow> if d = CHR '']'' then Some ([], q) else json_elements r) of
            None \<Rightarrow> None
          | Some (xs, q) \<Rightarrow> if skip_space q = [] then Some xs else None)"

section \<open>Lemmas\<close>

text \<open>A string that needs no escape, and its JSON text.\<close>

definition json_plain :: "string \<Rightarrow> bool" where
  "json_plain s \<longleftrightarrow> (\<forall>c \<in> set s. c \<noteq> CHR 0x22 \<and> c \<noteq> CHR 0x5C \<and> 32 \<le> (of_char c :: nat))"

definition json_quote :: "string \<Rightarrow> string" where
  "json_quote s = CHR 0x22 # s @ [CHR 0x22]"

definition json_array :: "string list \<Rightarrow> string" where
  "json_array xs = ''['' @ join '','' (map json_quote xs) @ '']''"

lemma json_string_plain: "json_plain s \<Longrightarrow> json_string (s @ CHR 0x22 # r) = Some (s, r)"
proof (induction s)
  case Nil
  then show ?case by (subst json_string.simps) simp
next
  case (Cons c s)
  then show ?case by (subst json_string.simps) (auto simp: json_plain_def)
qed

lemma json_element_quote: "json_plain s \<Longrightarrow> json_element (json_quote s @ r) = Some (s, r)"
  by (simp add: json_element_def json_quote_def json_string_plain)

lemma skip_space_id: "s = [] \<or> \<not> json_space (hd s) \<Longrightarrow> skip_space s = s"
  by (cases s) (auto simp: skip_space_def)

lemma skip_quote [simp]: "skip_space (json_quote s @ r) = json_quote s @ r"
  by (rule skip_space_id) (simp add: json_quote_def json_space_def)

lemma json_elements_quotes:
  "xs \<noteq> [] \<Longrightarrow> \<forall>x \<in> set xs. json_plain x \<Longrightarrow>
   json_elements (join '','' (map json_quote xs) @ '']'' @ r) = Some (xs, r)"
proof (induction xs)
  case (Cons x xs)
  show ?case
  proof (cases xs)
    case Nil
    have "skip_space (CHR '']'' # r) = CHR '']'' # r" by (rule skip_space_id) (simp add: json_space_def)
    with Nil Cons.prems show ?thesis
      by (subst json_elements.simps) (simp add: json_element_quote)
  next
    case (Cons y ys)
    let ?t = "join '','' (map json_quote xs) @ '']'' @ r"
    have join: "join '','' (map json_quote (x # xs)) @ '']'' @ r = json_quote x @ CHR '','' # ?t"
      using Cons by simp
    have "skip_space (CHR '','' # ?t) = CHR '','' # ?t"
      by (rule skip_space_id) (simp add: json_space_def)
    moreover have "json_elements ?t = Some (xs, r)"
      using Cons Cons.prems Cons.IH by simp
    ultimately show ?thesis
      unfolding join using Cons.prems
      by (subst json_elements.simps) (simp add: json_element_quote)
  qed
qed simp

lemma unmarshal_json_array:
  assumes "\<forall>x \<in> set xs. json_plain x"
  shows "unmarshal_strings (json_array xs) = Some xs"
proof (cases xs)
  case Nil
  then show ?thesis by (simp add: unmarshal_strings_def json_array_def skip_space_def json_space_def)
next
  case (Cons y ys)
  let ?j = "join '','' (map json_quote xs) @ '']''"
  obtain u where u: "?j = json_quote y @ u"
    unfolding Cons by (cases ys) auto
  have "json_elements ?j = Some (xs, [])"
    using json_elements_quotes [of xs "[]"] assms Cons by simp
  moreover have "skip_space ?j = ?j" unfolding u by simp
  moreover have "skip_space (CHR ''['' # ?j) = CHR ''['' # ?j"
    by (rule skip_space_id) (simp add: json_space_def)
  moreover have "\<exists>q. ?j = CHR 0x22 # q" unfolding u by (simp add: json_quote_def)
  ultimately show ?thesis
    by (auto simp: unmarshal_strings_def json_array_def skip_space_def)
qed

end
