(* ===== verification/Config.thy ===== *)
theory Config
  imports Json_Strings Complex_Main
begin

text \<open>
  \<open>config/config.go\<close>: the configuration record, \<open>splitTrim\<close> for the list-valued settings, and
  \<open>LoadConfig\<close>. Viper is the record \<open>viper\<close>: for each type, the value that the environment or
  the \<open>.env\<close> file gives a key, converted, or \<open>None\<close> when neither sets it, in which case the
  default of \<open>SetDefault\<close> applies. A \<open>float64\<close> setting is a rational number here.

  Lemmas: no list setting ever has an empty entry; a list written as a JSON array or separated
  by commas reads back as itself.
\<close>

section \<open>The configuration\<close>

record app_config =
  app_Name :: string
  app_Port :: string
  app_Env :: string

record db_config =
  db_Driver :: string
  db_DSN :: string
  db_Host :: string
  db_Port :: string
  db_User :: string
  db_Password :: string
  db_Name :: string
  db_SSLMode :: string
  db_MaxOpenConns :: int
  db_MaxIdleConns :: int
  db_ConnMaxLifetime :: int
  db_AutoMigrate :: bool

record redis_settings =
  redis_Enabled :: bool
  redis_Host :: string
  redis_Port :: string
  redis_Password :: string
  redis_DB :: int

record jwt_config =
  jwt_Secret :: string
  jwt_ExpiryHours :: int

record mail_settings =
  mail_Driver :: string
  mail_Host :: string
  mail_Port :: int
  mail_Username :: string
  mail_Password :: string
  mail_FromAddress :: string
  mail_FromName :: string
  mail_Encryption :: string

record log_config =
  log_Driver :: string
  log_Format :: string
  log_Level :: string
  log_Directory :: string
  log_Filename :: string
  log_MaxSizeMB :: int
  log_MaxBackups :: int
  log_MaxAgeDays :: int
  log_Compress :: bool

record cors_config =
  cors_AllowedOrigins :: "string list"
  cors_AllowedMethods :: "string list"
  cors_AllowedHeaders :: "string list"
  cors_AllowCredentials :: bool

record rate_limit_config =
  rl_Enabled :: bool
  rl_RequestsPerSecond :: rat
  rl_Burst :: int

record worker_config =
  worker_Concurrency :: int
  worker_QueueSize :: int

record queue_config =
  queue_Driver :: string
  queue_QueueName :: string
  queue_Concurrency :: int
  queue_MaxAttempts :: int
  queue_PollIntervalMs :: int

record config =
  cfg_App :: app_config
  cfg_Database :: db_config
  cfg_Redis :: redis_settings
  cfg_JWT :: jwt_config
  cfg_Mail :: mail_settings
  cfg_Log :: log_config
  cfg_CORS :: cors_config
  cfg_RateLimit :: rate_limit_config
  cfg_Worker :: worker_config
  cfg_Queue :: queue_config

section \<open>List settings\<close>

definition quotes :: string where
  "quotes = [CHR 0x22, CHR 0x27]"

definition split_commas :: "string \<Rightarrow> string list" where
  "split_commas s =
     filter (\<lambda>c. c \<noteq> []) (map (\<lambda>p. trim_cutset (trim_space p) quotes) (split_on CHR '','' s))"

definition splitTrim :: "string \<Rightarrow> string list" where
  "splitTrim s =
     (let trimmed = trim_space s in
      if trimmed = [] then []
      else if has_prefix trimmed ''['' \<and> has_suffix trimmed '']'' then
        (case unmarshal_strings trimmed of
           Some arr \<Rightarrow> filter (\<lambda>c. c \<noteq> []) (map trim_space arr)
         | None \<Rightarrow> split_commas (trim_suffix (trim_prefix trimmed ''['') '']''))
      else split_commas trimmed)"

section \<open>Loading\<close>

record viper =
  vp_String :: "string \<Rightarrow> string option"
  vp_Int :: "string \<Rightarrow> int option"
  vp_Bool :: "string \<Rightarrow> bool option"
  vp_Float64 :: "string \<Rightarrow> rat option"

text \<open>A key that is set, or its default.\<close>

definition setting :: "(string \<Rightarrow> 'a option) \<Rightarrow> string \<Rightarrow> 'a \<Rightarrow> 'a" where
  "setting get key dflt = (case get key of None \<Rightarrow> dflt | Some x \<Rightarrow> x)"

definition load_app :: "viper \<Rightarrow> app_config" where
  "load_app v =
     \<lparr>app_Name = setting (vp_String v) ''APP_NAME'' ''gin-starter-pack'',
      app_Port = setting (vp_String v) ''APP_PORT'' ''8080'',
      app_Env = setting (vp_String v) ''APP_ENV'' ''development''\<rparr>"

definition load_database :: "viper \<Rightarrow> db_config" where
  "load_database v =
     \<lparr>db_Driver = setting (vp_String v) ''DB_DRIVER'' ''sqlite'',
      db_DSN = setting (vp_String v) ''DB_DSN'' [],
      db_Host = setting (vp_String v) ''DB_HOST'' ''localhost'',
      db_Port = setting (vp_String v) ''DB_PORT'' ''5432'',
      db_User = setting (vp_String v) ''DB_USER'' ''postgres'',
      db_Password = setting (vp_String v) ''DB_PASSWORD'' ''postgres'',
      db_Name = setting (vp_String v) ''DB_NAME'' ''app.db'',
      db_SSLMode = setting (vp_String v) ''DB_SSLMODE'' ''disable'',
      db_MaxOpenConns = setting (vp_Int v) ''DB_MAX_OPEN_CONNS'' 25,
      db_MaxIdleConns = setting (vp_Int v) ''DB_MAX_IDLE_CONNS'' 10,
      db_ConnMaxLifetime = setting (vp_Int v) ''DB_CONN_MAX_LIFETIME'' 15,
      db_AutoMigrate = setting (vp_Bool v) ''DB_AUTO_MIGRATE'' True\<rparr>"

definition load_redis :: "viper \<Rightarrow> redis_settings" where
  "load_redis v =
     \<lparr>redis_Enabled = setting (vp_Bool v) ''REDIS_ENABLED'' False,
      redis_Host = setting (vp_String v) ''REDIS_HOST'' ''localhost'',
      redis_Port = setting (vp_String v) ''REDIS_PORT'' ''6379'',
      redis_Password = setting (vp_String v) ''REDIS_PASSWORD'' [],
      redis_DB = setting (vp_Int v) ''REDIS_DB'' 0\<rparr>"

definition default_secret :: string where
  "default_secret = ''super-secret-key-change-me-in-production''"

definition load_jwt :: "viper \<Rightarrow> jwt_config" where
  "load_jwt v =
     \<lparr>jwt_Secret = setting (vp_String v) ''JWT_SECRET'' default_secret,
      jwt_ExpiryHours = setting (vp_Int v) ''JWT_EXPIRY_HOURS'' 24\<rparr>"

definition load_mail :: "viper \<Rightarrow> mail_settings" where
  "load_mail v =
     \<lparr>mail_Driver = setting (vp_String v) ''MAIL_DRIVER'' ''log'',
      mail_Host = setting (vp_String v) ''MAIL_HOST'' [],
      mail_Port = setting (vp_Int v) ''MAIL_PORT'' 587,
      mail_Username = setting (vp_String v) ''MAIL_USERNAME'' [],
      mail_Password = setting (vp_String v) ''MAIL_PASSWORD'' [],
      mail_FromAddress = setting (vp_String v) ''MAIL_FROM_ADDRESS'' ''noreply@example.com'',
      mail_FromName = setting (vp_String v) ''MAIL_FROM_NAME'' ''Gin Starter Pack'',
      mail_Encryption = setting (vp_String v) ''MAIL_ENCRYPTION'' ''tls''\<rparr>"

definition load_log :: "viper \<Rightarrow> log_config" where
  "load_log v =
     \<lparr>log_Driver = setting (vp_String v) ''LOG_DRIVER'' ''stack'',
      log_Format = setting (vp_String v) ''LOG_FORMAT'' ''json'',
      log_Level = setting (vp_String v) ''LOG_LEVEL'' ''info'',
      log_Directory = setting (vp_String v) ''LOG_DIR'' ''logs'',
      log_Filename = setting (vp_String v) ''LOG_FILENAME'' ''app.log'',
      log_MaxSizeMB = setting (vp_Int v) ''LOG_MAX_SIZE_MB'' 100,
      log_MaxBackups = setting (vp_Int v) ''LOG_MAX_BACKUPS'' 30,
      log_MaxAgeDays = setting (vp_Int v) ''LOG_MAX_AGE_DAYS'' 30,
      log_Compress = setting (vp_Bool v) ''LOG_COMPRESS'' True\<rparr>"

definition load_cors :: "viper \<Rightarrow> cors_config" where
  "load_cors v =
     \<lparr>cors_AllowedOrigins = splitTrim (setting (vp_String v) ''CORS_ALLOWED_ORIGINS'' ''*''),
      cors_AllowedMethods =
        splitTrim (setting (vp_String v) ''CORS_ALLOWED_METHODS'' ''GET,POST,PUT,PATCH,DELETE,OPTIONS''),
      cors_AllowedHeaders =
        splitTrim (setting (vp_String v) ''CORS_ALLOWED_HEADERS''
          ''Content-Type,Authorization,X-Requested-With,Accept''),
      cors_AllowCredentials = setting (vp_Bool v) ''CORS_ALLOW_CREDENTIALS'' True\<rparr>"

definition load_rate_limit :: "viper \<Rightarrow> rate_limit_config" where
  "load_rate_limit v =
     \<lparr>rl_Enabled = setting (vp_Bool v) ''RATE_LIMIT_ENABLED'' True,
      rl_RequestsPerSecond = setting (vp_Float64 v) ''RATE_LIMIT_RPS'' 20,
      rl_Burst = setting (vp_Int v) ''RATE_LIMIT_BURST'' 40\<rparr>"

definition load_worker :: "viper \<Rightarrow> worker_config" where
  "load_worker v =
     \<lparr>worker_Concurrency = setting (vp_Int v) ''WORKER_CONCURRENCY'' 5,
      worker_QueueSize = setting (vp_Int v) ''WORKER_QUEUE_SIZE'' 100\<rparr>"

definition load_queue :: "viper \<Rightarrow> queue_config" where
  "load_queue v =
     \<lparr>queue_Driver = setting (vp_String v) ''QUEUE_DRIVER'' ''database'',
      queue_QueueName = setting (vp_String v) ''QUEUE_NAME'' ''default'',
      queue_Concurrency = setting (vp_Int v) ''QUEUE_CONCURRENCY'' 5,
      queue_MaxAttempts = setting (vp_Int v) ''QUEUE_MAX_ATTEMPTS'' 3,
      queue_PollIntervalMs = setting (vp_Int v) ''QUEUE_POLL_INTERVAL_MS'' 1000\<rparr>"

definition LoadConfig :: "viper \<Rightarrow> err + config" where
  "LoadConfig v =
     (let cfg = \<lparr>cfg_App = load_app v, cfg_Database = load_database v, cfg_Redis = load_redis v,
                 cfg_JWT = load_jwt v, cfg_Mail = load_mail v, cfg_Log = load_log v,
                 cfg_CORS = load_cors v, cfg_RateLimit = load_rate_limit v,
                 cfg_Worker = load_worker v, cfg_Queue = load_queue v\<rparr>
      in if app_Port (cfg_App cfg) = [] then Inl (ErrNew ''app port is required'') else Inr cfg)"

text \<open>Nothing is set: every key has its default.\<close>

definition no_settings :: viper where
  "no_settings =
     \<lparr>vp_String = (\<lambda>k. None), vp_Int = (\<lambda>k. None), vp_Bool = (\<lambda>k. None), vp_Float64 = (\<lambda>k. None)\<rparr>"

section \<open>Lemmas\<close>

lemma split_commas_nonempty: "[] \<notin> set (split_commas s)"
  by (simp add: split_commas_def)

lemma splitTrim_nonempty: "[] \<notin> set (splitTrim s)"
  unfolding splitTrim_def Let_def by (auto simp: split_commas_nonempty split: option.splits)

text \<open>A list entry that survives both formats unchanged.\<close>

definition plain_entry :: "string \<Rightarrow> bool" where
  "plain_entry s \<longleftrightarrow>
     s \<noteq> [] \<and> json_plain s \<and> \<not> is_space (hd s) \<and> \<not> is_space (last s) \<and> CHR '','' \<notin> set s \<and>
     hd s \<notin> {CHR 0x27, CHR ''[''} \<and> last s \<noteq> CHR 0x27"

lemma trim_where_id: "s \<noteq> [] \<Longrightarrow> \<not> P (hd s) \<Longrightarrow> \<not> P (last s) \<Longrightarrow> trim_where P s = s"
  by (simp add: trim_where_def dropWhile_id_iff [THEN iffD2] hd_rev)

lemma plain_entry_trim:
  assumes "plain_entry s"
  shows "trim_space s = s" "trim_cutset s quotes = s"
proof -
  from assms show "trim_space s = s"
    by (simp add: trim_space_def plain_entry_def trim_where_id)
  have "CHR 0x22 \<notin> set s" using assms by (auto simp: plain_entry_def json_plain_def)
  moreover have "hd s \<in> set s" "last s \<in> set s" using assms by (simp_all add: plain_entry_def)
  ultimately have "hd s \<noteq> CHR 0x22" "last s \<noteq> CHR 0x22" by metis+
  with assms show "trim_cutset s quotes = s"
    unfolding trim_cutset_def by (intro trim_where_id) (auto simp: plain_entry_def quotes_def)
qed

lemma split_on_join:
  "xs \<noteq> [] \<Longrightarrow> \<forall>x \<in> set xs. c \<notin> set x \<Longrightarrow> split_on c (join [c] xs) = xs"
proof (induction xs)
  case (Cons x xs)
  then show ?case
    by (cases xs) (auto simp: split_on_single split_on_append)
qed simp

lemma split_commas_join:
  assumes "\<forall>x \<in> set xs. plain_entry x" "xs \<noteq> []"
  shows "split_commas (join '','' xs) = xs"
proof -
  have split: "split_on CHR '','' (join '','' xs) = xs"
    using assms by (intro split_on_join) (auto simp: plain_entry_def)
  have map: "map (\<lambda>p. trim_cutset (trim_space p) quotes) xs = xs"
    using assms(1) by (intro map_idI) (simp add: plain_entry_trim)
  have "filter (\<lambda>c. c \<noteq> []) xs = xs"
    using assms(1) by (intro filter_True) (auto simp: plain_entry_def)
  with split map show ?thesis by (simp add: split_commas_def)
qed

lemma join_hd_last:
  assumes "xs \<noteq> []" "\<forall>x \<in> set xs. x \<noteq> []"
  shows "join sep xs \<noteq> [] \<and> hd (join sep xs) = hd (hd xs) \<and> last (join sep xs) = last (last xs)"
  using assms
proof (induction xs)
  case (Cons x xs)
  then show ?case by (cases xs) auto
qed simp

lemma splitTrim_join:
  assumes "\<forall>x \<in> set xs. plain_entry x" "xs \<noteq> []"
  shows "splitTrim (join '','' xs) = xs"
proof -
  have ne: "\<forall>x \<in> set xs. x \<noteq> []" using assms(1) by (auto simp: plain_entry_def)
  note j = join_hd_last [OF assms(2) ne, of "'',''"]
  have h: "plain_entry (hd xs)" "plain_entry (last xs)" using assms by auto
  with j have trim: "trim_space (join '','' xs) = join '','' xs"
    unfolding trim_space_def by (intro trim_where_id) (auto simp: plain_entry_def)
  have "\<not> has_prefix (join '','' xs) ''[''"
    using j h(1) by (cases "join '','' xs") (auto simp: has_prefix_def plain_entry_def)
  with trim j show ?thesis
    by (simp add: splitTrim_def Let_def split_commas_join [OF assms])
qed

lemma splitTrim_json:
  assumes "\<forall>x \<in> set xs. plain_entry x"
  shows "splitTrim (json_array xs) = xs"
proof -
  have ends: "json_array xs \<noteq> []" "hd (json_array xs) = CHR ''[''" "last (json_array xs) = CHR '']''"
    by (simp_all add: json_array_def)
  then have trim: "trim_space (json_array xs) = json_array xs"
    unfolding trim_space_def by (intro trim_where_id) (auto simp: is_space_def)
  have pre: "has_prefix (json_array xs) ''[''" by (simp add: has_prefix_def json_array_def)
  have suf: "has_suffix (json_array xs) '']''" by (simp add: has_suffix_def json_array_def)
  have un: "unmarshal_strings (json_array xs) = Some xs"
    using assms by (intro unmarshal_json_array) (auto simp: plain_entry_def)
  have "map trim_space xs = xs"
    using assms by (intro map_idI) (simp add: plain_entry_trim)
  moreover have "filter (\<lambda>c. c \<noteq> []) xs = xs"
    using assms by (intro filter_True) (auto simp: plain_entry_def)
  ultimately show ?thesis
    using ends(1) trim pre suf un by (simp add: splitTrim_def Let_def)
qed

end
