(* ===== verification/Redis_Client.thy ===== *)
theory Redis_Client
  imports Config
begin

text \<open>
  \<open>pkg/redis/redis.go\<close>: the optional cache client. go-redis and the server are the record
  \<open>redis_ops\<close> of the commands the code issues, over a server state \<open>'d\<close>; \<open>encoding/json\<close> of
  the cached type is the pair \<open>enc\<close>, \<open>dec\<close>. A \<open>*Client\<close> is an option, since the methods
  accept a nil receiver. \<open>Remember\<close> threads a world \<open>'w\<close> through its fallback, so that it shows
  when the fallback runs.

  The locale \<open>redis_server\<close> is the documented behaviour of the commands on the strings
  (\<open>strs\<close>) and lists (\<open>lists\<close>) of the server: a command that fails may or may not have been
  carried out. \<open>mem_redis\<close> is a server in memory that meets it.

  Lemmas: every method of a disabled client is a no-op without an error; what \<open>Remember\<close>
  returns and leaves in the cache in each case.
\<close>

section \<open>The server\<close>

record 'd redis_ops =
  ro_Get :: "'d \<Rightarrow> string \<Rightarrow> err + string"
  ro_Set :: "'d \<Rightarrow> string \<Rightarrow> string \<Rightarrow> duration \<Rightarrow> 'd \<times> err option"
  ro_Del :: "'d \<Rightarrow> string list \<Rightarrow> 'd \<times> err option"
  ro_Ping :: "'d \<Rightarrow> err option"
  ro_Close :: "'d \<Rightarrow> 'd \<times> err option"
  ro_LPush :: "'d \<Rightarrow> string \<Rightarrow> string \<Rightarrow> 'd \<times> err option"
  ro_BRPop :: "'d \<Rightarrow> string \<Rightarrow> 'd \<times> (err + string list)"

locale redis_server =
  fixes R :: "'d redis_ops"
    and strs :: "'d \<Rightarrow> string \<rightharpoonup> string"
    and lists :: "'d \<Rightarrow> string \<Rightarrow> string list"
  assumes get_ok: "ro_Get R d k = Inr v \<Longrightarrow> strs d k = Some v"
    and get_nil: "ro_Get R d k = Inl RedisNil \<Longrightarrow> strs d k = None"
    and set_ok: "ro_Set R d k v x = (d', None) \<Longrightarrow>
      strs d' = (strs d)(k \<mapsto> v) \<and> lists d' = lists d"
    and set_err: "ro_Set R d k v x = (d', Some e) \<Longrightarrow>
      (strs d' = strs d \<or> strs d' = (strs d)(k \<mapsto> v)) \<and> lists d' = lists d"
    and del_ok: "ro_Del R d ks = (d', None) \<Longrightarrow>
      strs d' = (strs d) |` (- set ks) \<and> (\<forall>k. k \<notin> set ks \<longrightarrow> lists d' k = lists d k)"
    and del_err: "ro_Del R d ks = (d', Some e) \<Longrightarrow>
      (strs d' = strs d \<or> strs d' = (strs d) |` (- set ks))"
    and lpush_ok: "ro_LPush R d k v = (d', None) \<Longrightarrow>
      lists d' = (lists d)(k := v # lists d k) \<and> strs d' = strs d"
    and lpush_err: "ro_LPush R d k v = (d', Some e) \<Longrightarrow>
      (lists d' = lists d \<or> lists d' = (lists d)(k := v # lists d k)) \<and> strs d' = strs d"
    and brpop_ok: "ro_BRPop R d k = (d', Inr res) \<Longrightarrow>
      lists d k \<noteq> [] \<and> res = [k, last (lists d k)] \<and>
      lists d' = (lists d)(k := butlast (lists d k)) \<and> strs d' = strs d"
    and brpop_nil: "ro_BRPop R d k = (d', Inl RedisNil) \<Longrightarrow>
      lists d k = [] \<and> lists d' = lists d \<and> strs d' = strs d"
    and brpop_err: "ro_BRPop R d k = (d', Inl e) \<Longrightarrow>
      (lists d' = lists d \<or> lists d' = (lists d)(k := butlast (lists d k))) \<and> strs d' = strs d"

locale reliable_redis_server = redis_server +
  assumes get_up: "strs d k = Some v \<Longrightarrow> ro_Get R d k = Inr v"
    and set_up: "\<exists>d'. ro_Set R d k v x = (d', None)"
    and del_up: "\<exists>d'. ro_Del R d ks = (d', None)"
    and lpush_up: "\<exists>d'. ro_LPush R d k v = (d', None)"
    and brpop_up: "lists d k \<noteq> [] \<Longrightarrow> \<exists>d' res. ro_BRPop R d k = (d', Inr res)"

section \<open>The client\<close>

record 'd redis_client =
  rc_rdb :: "'d redis_ops option"
  rc_enabled :: bool

text \<open>\<open>redis.NewClient\<close> with the address, password and database is the argument \<open>connect\<close>.\<close>

definition InitRedis ::
  "(string \<Rightarrow> string \<Rightarrow> int \<Rightarrow> 'd redis_ops) \<Rightarrow> redis_settings \<Rightarrow> 'd \<Rightarrow> err + 'd redis_client" where
  "InitRedis connect cfg d =
     (if \<not> redis_Enabled cfg then Inr \<lparr>rc_rdb = None, rc_enabled = False\<rparr>
      else let addr = redis_Host cfg @ '':'' @ redis_Port cfg;
               rdb = connect addr (redis_Password cfg) (redis_DB cfg)
        in case ro_Ping rdb d of
             Some e \<Rightarrow> Inl (Errorf (''failed to connect to Redis at '' @ addr @ '': '') e [])
           | None \<Rightarrow> Inr \<lparr>rc_rdb = Some rdb, rc_enabled = True\<rparr>)"

definition IsEnabled :: "'d redis_client option \<Rightarrow> bool" where
  "IsEnabled c = (case c of None \<Rightarrow> False | Some r \<Rightarrow> rc_enabled r \<and> rc_rdb r \<noteq> None)"

definition Underlying :: "'d redis_client option \<Rightarrow> 'd redis_ops option" where
  "Underlying c = (case c of None \<Rightarrow> None | Some r \<Rightarrow> rc_rdb r)"

text \<open>\<open>c.rdb\<close> behind the test \<open>c.IsEnabled()\<close>.\<close>

definition rdb :: "'d redis_client option \<Rightarrow> 'd redis_ops" where
  "rdb c = the (Underlying c)"

definition client_Get :: "'d redis_client option \<Rightarrow> string \<Rightarrow> 'd \<Rightarrow> err + string" where
  "client_Get c key d = (if \<not> IsEnabled c then Inr [] else ro_Get (rdb c) d key)"

definition client_Set ::
  "'d redis_client option \<Rightarrow> string \<Rightarrow> string \<Rightarrow> duration \<Rightarrow> 'd \<Rightarrow> 'd \<times> err option" where
  "client_Set c key v expiration d =
     (if \<not> IsEnabled c then (d, None) else ro_Set (rdb c) d key v expiration)"

definition client_Del :: "'d redis_client option \<Rightarrow> string list \<Rightarrow> 'd \<Rightarrow> 'd \<times> err option" where
  "client_Del c keys d = (if \<not> IsEnabled c then (d, None) else ro_Del (rdb c) d keys)"

definition Invalidate :: "'d redis_client option \<Rightarrow> string list \<Rightarrow> 'd \<Rightarrow> 'd \<times> err option" where
  "Invalidate c keys d = client_Del c keys d"

text \<open>Found or not, with the decoded value; or an error of the server or of the decoder.\<close>

definition GetJSON ::
  "(string \<Rightarrow> err + 'a) \<Rightarrow> 'd redis_client option \<Rightarrow> string \<Rightarrow> 'd \<Rightarrow> err + 'a option" where
  "GetJSON dec c key d =
     (if \<not> IsEnabled c then Inr None
      else case ro_Get (rdb c) d key of
        Inl e \<Rightarrow> if errors_is e RedisNil then Inr None else Inl e
      | Inr val \<Rightarrow>
          if val = [] then Inr None
          else case dec val of Inl e \<Rightarrow> Inl e | Inr x \<Rightarrow> Inr (Some x))"

definition SetJSON ::
  "('a \<Rightarrow> err + string) \<Rightarrow> 'd redis_client option \<Rightarrow> string \<Rightarrow> 'a \<Rightarrow> duration \<Rightarrow> 'd \<Rightarrow>
   'd \<times> err option" where
  "SetJSON enc c key x expiration d =
     (if \<not> IsEnabled c then (d, None)
      else case enc x of
        Inl e \<Rightarrow> (d, Some (Errorf ''failed to encode cache value to JSON: '' e []))
      | Inr s \<Rightarrow> ro_Set (rdb c) d key s expiration)"

definition client_Ping :: "'d redis_client option \<Rightarrow> 'd \<Rightarrow> err option" where
  "client_Ping c d = (if \<not> IsEnabled c then None else ro_Ping (rdb c) d)"

definition client_Close :: "'d redis_client option \<Rightarrow> 'd \<Rightarrow> 'd \<times> err option" where
  "client_Close c d = (case Underlying c of None \<Rightarrow> (d, None) | Some r \<Rightarrow> ro_Close r d)"

text \<open>
  The result of the fallback is a pointer: \<open>None\<close> is nil. \<open>RememberSlice\<close> is the same code with
  a slice in place of the pointer, a nil slice in place of the nil pointer.
\<close>

definition Remember ::
  "('a \<Rightarrow> err + string) \<Rightarrow> (string \<Rightarrow> err + 'a) \<Rightarrow> 'd redis_client option \<Rightarrow> string \<Rightarrow> duration \<Rightarrow>
   ('w \<Rightarrow> 'w \<times> (err + 'a option)) \<Rightarrow> 'd \<times> 'w \<Rightarrow> ('d \<times> 'w) \<times> (err + 'a option)" where
  "Remember enc dec c key expiration fallback s =
     (case GetJSON dec c key (fst s) of
        Inr (Some cached) \<Rightarrow> (s, Inr (Some cached))
      | _ \<Rightarrow>
          (case fallback (snd s) of
             (w', Inl e) \<Rightarrow> ((fst s, w'), Inl e)
           | (w', Inr None) \<Rightarrow> ((fst s, w'), Inr None)
           | (w', Inr (Some x)) \<Rightarrow>
               ((fst (SetJSON enc c key x expiration (fst s)), w'), Inr (Some x))))"

definition RememberSlice ::
  "('a list \<Rightarrow> err + string) \<Rightarrow> (string \<Rightarrow> err + 'a list) \<Rightarrow> 'd redis_client option \<Rightarrow> string \<Rightarrow>
   duration \<Rightarrow> ('w \<Rightarrow> 'w \<times> (err + 'a list option)) \<Rightarrow> 'd \<times> 'w \<Rightarrow>
   ('d \<times> 'w) \<times> (err + 'a list option)" where
  "RememberSlice enc dec c key expiration fallback s =
     (case GetJSON dec c key (fst s) of
        Inr (Some cached) \<Rightarrow> (s, Inr (Some cached))
      | _ \<Rightarrow>
          (case fallback (snd s) of
             (w', Inl e) \<Rightarrow> ((fst s, w'), Inl e)
           | (w', Inr None) \<Rightarrow> ((fst s, w'), Inr None)
           | (w', Inr (Some x)) \<Rightarrow>
               ((fst (SetJSON enc c key x expiration (fst s)), w'), Inr (Some x))))"

section \<open>A server in memory\<close>

record mem_server =
  mrs_strs :: "string \<rightharpoonup> string"
  mrs_lists :: "string \<Rightarrow> string list"

definition mem_redis :: "mem_server redis_ops" where
  "mem_redis =
     \<lparr>ro_Get = (\<lambda>d k. case mrs_strs d k of None \<Rightarrow> Inl RedisNil | Some v \<Rightarrow> Inr v),
      ro_Set = (\<lambda>d k v x. (d\<lparr>mrs_strs := (mrs_strs d)(k \<mapsto> v)\<rparr>, None)),
      ro_Del = (\<lambda>d ks. (d\<lparr>mrs_strs := (mrs_strs d) |` (- set ks),
                         mrs_lists := (\<lambda>k. if k \<in> set ks then [] else mrs_lists d k)\<rparr>, None)),
      ro_Ping = (\<lambda>d. None), ro_Close = (\<lambda>d. (d, None)),
      ro_LPush = (\<lambda>d k v. (d\<lparr>mrs_lists := (mrs_lists d)(k := v # mrs_lists d k)\<rparr>, None)),
      ro_BRPop = (\<lambda>d k. if mrs_lists d k = [] then (d, Inl RedisNil)
                        else (d\<lparr>mrs_lists := (mrs_lists d)(k := butlast (mrs_lists d k))\<rparr>,
                              Inr [k, last (mrs_lists d k)]))\<rparr>"

definition mem_server_empty :: mem_server where
  "mem_server_empty = \<lparr>mrs_strs = Map.empty, mrs_lists = (\<lambda>k. [])\<rparr>"

interpretation mem_redis: reliable_redis_server mem_redis mrs_strs mrs_lists
  by unfold_locales (auto simp: mem_redis_def split: option.splits if_splits)

section \<open>Lemmas\<close>

lemma rdb_enabled: "IsEnabled c \<Longrightarrow> Underlying c = Some (rdb c)"
  by (auto simp: IsEnabled_def Underlying_def rdb_def split: option.splits)

lemma disabled_simps:
  assumes "\<not> IsEnabled c"
  shows "client_Get c key d = Inr []" "client_Set c key v x d = (d, None)"
    "client_Del c keys d = (d, None)" "Invalidate c keys d = (d, None)" "GetJSON dec c key d = Inr None"
    "SetJSON enc c key a x d = (d, None)" "client_Ping c d = None"
  using assms
  by (simp_all add: client_Get_def client_Set_def client_Del_def Invalidate_def GetJSON_def
      SetJSON_def client_Ping_def)

lemma Remember_hit:
  "GetJSON dec c key (fst s) = Inr (Some x) \<Longrightarrow>
   Remember enc dec c key t fallback s = (s, Inr (Some x))"
  by (simp add: Remember_def)

lemma Remember_miss:
  assumes "\<And>x. GetJSON dec c key (fst s) \<noteq> Inr (Some x)"
  shows "Remember enc dec c key t fallback s =
    (case fallback (snd s) of
       (w', Inr (Some x)) \<Rightarrow> ((fst (SetJSON enc c key x t (fst s)), w'), Inr (Some x))
     | (w', r) \<Rightarrow> ((fst s, w'), r))"
  using assms
  by (auto simp: Remember_def split: sum.splits option.splits prod.splits)

lemma Remember_disabled:
  assumes "\<not> IsEnabled c"
  shows "Remember enc dec c key t fallback (d, w) =
    (case fallback w of (w', r) \<Rightarrow> ((d, w'), r))"
  using assms
  by (auto simp: Remember_def disabled_simps split: sum.splits option.splits prod.splits)

context redis_server
begin

lemma SetJSON_cases:
  assumes "Underlying c = Some R"
  shows "strs (fst (SetJSON enc c key a x d)) = strs d \<or>
    (\<exists>s. enc a = Inr s \<and> strs (fst (SetJSON enc c key a x d)) = (strs d)(key \<mapsto> s))"
proof (cases "IsEnabled c")
  case True
  with assms have R: "rdb c = R" by (simp add: rdb_def)
  show ?thesis
  proof (cases "enc a")
    case (Inr s)
    obtain d' e where "ro_Set R d key s x = (d', e)" by (cases "ro_Set R d key s x")
    with True R Inr show ?thesis
      using set_ok [of d key s x d'] set_err [of d key s x d']
      by (cases e) (auto simp: SetJSON_def)
  qed (simp add: SetJSON_def)
qed (simp add: SetJSON_def)

lemma Invalidate_cases:
  assumes "Underlying c = Some R" "IsEnabled c" "Invalidate c [key] d = (d', e)"
  shows "strs d' = (strs d)(key := None) \<or> e \<noteq> None \<and> strs d' = strs d"
proof -
  have del: "ro_Del R d [key] = (d', e)"
    using assms by (simp add: Invalidate_def client_Del_def rdb_def)
  have "(strs d) |` (- {key}) = (strs d)(key := None)"
    by (auto simp: restrict_map_def)
  then show ?thesis
    using del del_ok [of d "[key]" d'] del_err [of d "[key]" d'] by (cases e) auto
qed

lemma GetJSON_found:
  assumes "Underlying c = Some R" "GetJSON dec c key d = Inr (Some x)"
  shows "\<exists>s. strs d key = Some s \<and> dec s = Inr x"
  using assms
  by (auto simp: GetJSON_def rdb_def split: sum.splits if_splits dest: get_ok)

end

end
