(* ===== verification/Redis_Driver.thy ===== *)
theory Redis_Driver
  imports Queue_Core Redis_Client Lifecycle
begin

text \<open>
  \<open>pkg/queue/driver_redis.go\<close>: the queue on a Redis list. Messages are pushed at the head and
  popped at the tail. The client is that of \<open>Redis_Client\<close>; \<open>json.Marshal\<close> and
  \<open>json.Unmarshal\<close> of the message are the arguments \<open>enc\<close> and \<open>dec\<close>; each
  \<open>uuid.NewString()\<close> and \<open>time.Now().UTC()\<close> is an argument. \<open>redis_state\<close> is the server, the
  goroutines of delayed messages (when they are due, and what they will push) and the world the
  handlers act on. \<open>redis_poll\<close> is one turn of the worker loop.

  Lemmas: the retry of a failed message, and the life of a job whose handler fails.
\<close>

section \<open>The driver\<close>

record redis_job_message =
  rjm_ID :: string
  rjm_Name :: string
  rjm_Payload :: string
  rjm_Attempts :: int
  rjm_MaxAttempts :: int
  rjm_CreatedAt :: instant

record redis_driver_config =
  rdc_QueueName :: string
  rdc_Concurrency :: int
  rdc_MaxAttempts :: int

record ('d, 'w) redis_driver =
  rd_client :: "'d redis_client option"
  rd_queueKey :: string
  rd_concurrency :: int
  rd_maxAttempts :: int
  rd_registry :: "'w registry"
  rd_quit :: bool
  rd_wg :: nat
  rd_running :: bool

record ('d, 'w) redis_state =
  rs_server :: 'd
  rs_delayed :: "(instant \<times> string) list"
  rs_world :: 'w

definition NewRedisDriver ::
  "'d redis_client option \<Rightarrow> redis_driver_config \<Rightarrow> 'w registry option \<Rightarrow> ('d, 'w) redis_driver" where
  "NewRedisDriver client cfg reg =
     \<lparr>rd_client = client,
      rd_queueKey = ''queue:'' @ (if rdc_QueueName cfg = [] then ''default'' else rdc_QueueName cfg),
      rd_concurrency = (if rdc_Concurrency cfg \<le> 0 then 5 else rdc_Concurrency cfg),
      rd_maxAttempts = (if rdc_MaxAttempts cfg \<le> 0 then 3 else rdc_MaxAttempts cfg),
      rd_registry = registry_or_new reg, rd_quit = False, rd_wg = 0, rd_running = False\<rparr>"

section \<open>Dispatching\<close>

definition new_message ::
  "('d, 'w) redis_driver \<Rightarrow> string \<Rightarrow> string \<Rightarrow> string \<Rightarrow> instant \<Rightarrow> redis_job_message" where
  "new_message drv name raw uuid now =
     \<lparr>rjm_ID = uuid, rjm_Name = name, rjm_Payload = raw, rjm_Attempts = 0,
      rjm_MaxAttempts = rd_maxAttempts drv, rjm_CreatedAt = now\<rparr>"

definition redis_DispatchDelayed ::
  "('v \<Rightarrow> err + string) \<Rightarrow> (redis_job_message \<Rightarrow> err + string) \<Rightarrow> ('d, 'w) redis_driver \<Rightarrow> go_context \<Rightarrow>
   string \<Rightarrow> 'v payload \<Rightarrow> duration \<Rightarrow> string \<Rightarrow> instant \<Rightarrow> ('d, 'w) redis_state \<Rightarrow>
   ('d, 'w) redis_state \<times> err option" where
  "redis_DispatchDelayed marshal enc drv ctx name p delay uuid now s =
     (if \<not> IsEnabled (rd_client drv) then
        (s, Some (ErrNew ''queue: redis is disabled in configuration''))
      else case MarshalPayload marshal p of
        Inl e \<Rightarrow> (s, Some e)
      | Inr raw \<Rightarrow>
          (case enc (new_message drv name raw uuid now) of
             Inl e \<Rightarrow> (s, Some (Errorf ''queue: failed to marshal redis job message: '' e []))
           | Inr bytes \<Rightarrow>
               if delay > 0 then (s\<lparr>rs_delayed := rs_delayed s @ [(now + delay, bytes)]\<rparr>, None)
               else case ro_LPush (rdb (rd_client drv)) (rs_server s) (rd_queueKey drv) bytes of
                 (d', Some e) \<Rightarrow>
                   (s\<lparr>rs_server := d'\<rparr>, Some (Errorf ''queue: failed to push job into redis: '' e []))
               | (d', None) \<Rightarrow> (s\<lparr>rs_server := d'\<rparr>, None)))"

definition redis_Dispatch ::
  "('v \<Rightarrow> err + string) \<Rightarrow> (redis_job_message \<Rightarrow> err + string) \<Rightarrow> ('d, 'w) redis_driver \<Rightarrow> go_context \<Rightarrow>
   string \<Rightarrow> 'v payload \<Rightarrow> string \<Rightarrow> instant \<Rightarrow> ('d, 'w) redis_state \<Rightarrow>
   ('d, 'w) redis_state \<times> err option" where
  "redis_Dispatch marshal enc drv ctx name p uuid now s =
     redis_DispatchDelayed marshal enc drv ctx name p 0 uuid now s"

text \<open>
  The goroutine of the \<open>i\<close>th delayed message: it pushes once it is due, or is gone when it sees
  \<open>quit\<close> closed.
\<close>

definition redis_timer_fire ::
  "('d, 'w) redis_driver \<Rightarrow> nat \<Rightarrow> instant \<Rightarrow> ('d, 'w) redis_state \<Rightarrow> ('d, 'w) redis_state option" where
  "redis_timer_fire drv i now s =
     (if i < length (rs_delayed s) \<and> fst (rs_delayed s ! i) \<le> now then
        Some (s\<lparr>rs_server := fst (ro_LPush (rdb (rd_client drv)) (rs_server s) (rd_queueKey drv)
                  (snd (rs_delayed s ! i))),
                rs_delayed := remove_at i (rs_delayed s)\<rparr>)
      else None)"

definition redis_timer_quit ::
  "('d, 'w) redis_driver \<Rightarrow> nat \<Rightarrow> ('d, 'w) redis_state \<Rightarrow> ('d, 'w) redis_state option" where
  "redis_timer_quit drv i s =
     (if i < length (rs_delayed s) \<and> rd_quit drv
      then Some (s\<lparr>rs_delayed := remove_at i (rs_delayed s)\<rparr>) else None)"

definition redis_RegisterHandler ::
  "('d, 'w) redis_driver \<Rightarrow> string \<Rightarrow> 'w handler \<Rightarrow> ('d, 'w) redis_driver" where
  "redis_RegisterHandler drv name h = drv\<lparr>rd_registry := Register (rd_registry drv) name h\<rparr>"

section \<open>The worker loop\<close>

text \<open>\<open>time.Duration(1 << attempts) * 2 * time.Second\<close>\<close>

definition redis_backoff :: "int \<Rightarrow> duration option" where
  "redis_backoff attempts = map_option (\<lambda>v. wrap64 (wrap64 (v * 2) * second)) (go_shl1 attempts)"

text \<open>
  What the loop does with a message it decoded. The result is the state, and whether the worker goes on
  or panics: a panic is not recovered, and the state is what is there at that moment.
\<close>

definition redis_process ::
  "(redis_job_message \<Rightarrow> err + string) \<Rightarrow> ('d, 'w) redis_driver \<Rightarrow> string \<Rightarrow> instant \<Rightarrow>
   redis_job_message \<Rightarrow> ('d, 'w) redis_state \<Rightarrow> ('d, 'w) redis_state \<times> unit outcome" where
  "redis_process enc drv uuid now msg0 s =
     (let msg = msg0\<lparr>rjm_Attempts := wrap64 (rjm_Attempts msg0 + 1)\<rparr> in
      case ExecuteJob job_context (rd_registry drv) (rjm_Name msg) (rjm_Payload msg) (rs_world s) of
        (w', Panic m) \<Rightarrow> (s\<lparr>rs_world := w'\<rparr>, Panic m)
      | (w', Ret None) \<Rightarrow> (s\<lparr>rs_world := w'\<rparr>, Ret ())
      | (w', Ret (Some e)) \<Rightarrow>
          if rjm_Attempts msg < rjm_MaxAttempts msg then
            (case redis_backoff (rjm_Attempts msg) of
               None \<Rightarrow> (s\<lparr>rs_world := w'\<rparr>, Panic ''negative shift amount'')
             | Some backoff \<Rightarrow>
                 (fst (redis_DispatchDelayed (\<lambda>_::unit. Inr []) enc drv Background (rjm_Name msg)
                   (Str (rjm_Payload msg)) backoff uuid now (s\<lparr>rs_world := w'\<rparr>)), Ret ()))
          else (s\<lparr>rs_world := w'\<rparr>, Ret ()))"

text \<open>
  One turn of the loop with \<open>quit\<close> open: the pop, which leaves the worker with the text of a
  message or with nothing, and what it does with the text.
\<close>

definition redis_pop :: "('d, 'w) redis_driver \<Rightarrow> 'd \<Rightarrow> 'd \<times> string option" where
  "redis_pop drv d =
     (case ro_BRPop (rdb (rd_client drv)) d (rd_queueKey drv) of
        (d', Inl e) \<Rightarrow> (d', None)
      | (d', Inr res) \<Rightarrow> if length res < 2 then (d', None) else (d', Some (res ! 1)))"

definition redis_handle ::
  "(redis_job_message \<Rightarrow> err + string) \<Rightarrow> (string \<Rightarrow> err + redis_job_message) \<Rightarrow>
   ('d, 'w) redis_driver \<Rightarrow> string \<Rightarrow> instant \<Rightarrow> string \<Rightarrow> ('d, 'w) redis_state \<Rightarrow>
   ('d, 'w) redis_state \<times> unit outcome" where
  "redis_handle enc dec drv uuid now rawJSON s =
     (case dec rawJSON of
        Inl e \<Rightarrow> (s, Ret ())
      | Inr msg \<Rightarrow> redis_process enc drv uuid now msg s)"

definition redis_poll ::
  "(redis_job_message \<Rightarrow> err + string) \<Rightarrow> (string \<Rightarrow> err + redis_job_message) \<Rightarrow>
   ('d, 'w) redis_driver \<Rightarrow> string \<Rightarrow> instant \<Rightarrow> ('d, 'w) redis_state \<Rightarrow>
   ('d, 'w) redis_state \<times> unit outcome" where
  "redis_poll enc dec drv uuid now s =
     (if \<not> IsEnabled (rd_client drv) then (s, Ret ())
      else case redis_pop drv (rs_server s) of
        (d', None) \<Rightarrow> (s\<lparr>rs_server := d'\<rparr>, Ret ())
      | (d', Some rawJSON) \<Rightarrow> redis_handle enc dec drv uuid now rawJSON (s\<lparr>rs_server := d'\<rparr>))"

lemmas redis_turn_defs = redis_poll_def redis_pop_def redis_handle_def

text \<open>The loop over the turns a worker takes: whether it finds \<open>quit\<close> closed, an identifier, the clock.\<close>

fun redis_workerLoop ::
  "(redis_job_message \<Rightarrow> err + string) \<Rightarrow> (string \<Rightarrow> err + redis_job_message) \<Rightarrow>
   ('d, 'w) redis_driver \<Rightarrow> (bool \<times> string \<times> instant) list \<Rightarrow> ('d, 'w) redis_state \<Rightarrow>
   ('d, 'w) redis_state \<times> bool outcome" where
  "redis_workerLoop enc dec drv [] s = (s, Ret False)"
| "redis_workerLoop enc dec drv ((quit, uuid, now) # turns) s =
     (if quit then (s, Ret True)
      else case redis_poll enc dec drv uuid now s of
        (s', Panic m) \<Rightarrow> (s', Panic m)
      | (s', Ret u) \<Rightarrow> redis_workerLoop enc dec drv turns s')"

section \<open>Start and stop\<close>

definition redis_Start :: "('d, 'w) redis_driver \<Rightarrow> ('d, 'w) redis_driver \<times> err option" where
  "redis_Start drv =
     (if rd_running drv then (drv, None)
      else (drv\<lparr>rd_running := True, rd_wg := rd_wg drv + nat (rd_concurrency drv)\<rparr>, None))"

definition redis_Stop ::
  "bool \<Rightarrow> ('d, 'w) redis_driver \<Rightarrow> (('d, 'w) redis_driver \<times> err option) outcome" where
  "redis_Stop done drv =
     (if \<not> rd_running drv then Ret (drv, None)
      else if rd_quit drv then Panic ''close of closed channel''
      else let drv' = drv\<lparr>rd_running := False, rd_quit := True\<rparr> in
        if done then Ret (drv'\<lparr>rd_wg := 0\<rparr>, None)
        else Ret (drv', Some (ErrNew ''queue: redis worker pool shutdown timed out'')))"

definition redis_Close ::
  "bool \<Rightarrow> ('d, 'w) redis_driver \<Rightarrow> (('d, 'w) redis_driver \<times> err option) outcome" where
  "redis_Close done drv = redis_Stop done drv"

text \<open>\<open>n\<close> rounds of a worker: a turn of the loop, and then the first delayed message fires when due.\<close>

fun redis_rounds ::
  "(redis_job_message \<Rightarrow> err + string) \<Rightarrow> (string \<Rightarrow> err + redis_job_message) \<Rightarrow>
   ('d, 'w) redis_driver \<Rightarrow> (string \<times> instant) list \<Rightarrow> ('d, 'w) redis_state \<Rightarrow>
   ('d, 'w) redis_state \<times> unit outcome" where
  "redis_rounds enc dec drv [] s = (s, Ret ())"
| "redis_rounds enc dec drv ((uuid, now) # rounds) s =
     (case redis_poll enc dec drv uuid now s of
        (s', Panic m) \<Rightarrow> (s', Panic m)
      | (s', Ret u) \<Rightarrow>
          redis_rounds enc dec drv rounds
            (case rs_delayed s' of
               [] \<Rightarrow> s'
             | (due, b) # ts \<Rightarrow> (case redis_timer_fire drv 0 due s' of None \<Rightarrow> s' | Some s'' \<Rightarrow> s'')))"

section \<open>Lemmas\<close>

lemma new_message_simps [simp]:
  "rjm_Name (new_message drv name raw uuid now) = name"
  "rjm_Payload (new_message drv name raw uuid now) = raw"
  "rjm_Attempts (new_message drv name raw uuid now) = 0"
  "rjm_MaxAttempts (new_message drv name raw uuid now) = rd_maxAttempts drv"
  by (simp_all add: new_message_def)

lemma redis_backoff_first: "redis_backoff 1 = Some (4 * second)"
  by code_simp

text \<open>A failed message that has attempts left is replaced by a fresh one, with no attempt counted.\<close>

lemma redis_process_retry:
  assumes "IsEnabled (rd_client drv)"
    and "ExecuteJob job_context (rd_registry drv) (rjm_Name msg) (rjm_Payload msg) (rs_world s) = (w', Ret (Some e))"
    and "rjm_Attempts msg = 0" "1 < rjm_MaxAttempts msg"
    and "enc (new_message drv (rjm_Name msg) (rjm_Payload msg) uuid now) = Inr bytes"
  shows "redis_process enc drv uuid now msg s =
    (s\<lparr>rs_world := w', rs_delayed := rs_delayed s @ [(now + 4 * second, bytes)]\<rparr>, Ret ())"
  using assms redis_backoff_first
  by (simp add: redis_process_def redis_DispatchDelayed_def MarshalPayload_def second_def)

context reliable_redis_server
begin

lemma lpush_lists: "lists (fst (ro_LPush R d k v)) = (lists d)(k := v # lists d k)"
  using lpush_up [of d k v] lpush_ok by fastforce

lemma pop_single:
  assumes "lists d k = [v]"
  shows "\<exists>d'. ro_BRPop R d k = (d', Inr [k, v]) \<and> lists d' = (lists d)(k := [])"
  using assms brpop_up [of d k] brpop_ok [of d k] by fastforce

text \<open>
  One round of a job that fails: the handler runs once and the queue holds a fresh message for
  the same job.
\<close>

lemma failing_round:
  assumes R: "Underlying (rd_client drv) = Some R" and en: "IsEnabled (rd_client drv)"
    and q: "lists (rs_server s) (rd_queueKey drv) = [bytes]" and del: "rs_delayed s = []"
    and dec: "dec bytes = Inr (new_message drv name raw u t)" and max: "1 < rd_maxAttempts drv"
    and ex: "ExecuteJob job_context (rd_registry drv) name raw (rs_world s) = (w', Ret (Some e))"
    and enc: "enc (new_message drv name raw uuid now) = Inr bytes'"
  shows "\<exists>s'. redis_rounds enc dec drv [(uuid, now)] s = (s', Ret ()) \<and>
    lists (rs_server s') (rd_queueKey drv) = [bytes'] \<and> rs_delayed s' = [] \<and> rs_world s' = w'"
proof -
  have r: "rdb (rd_client drv) = R" using R by (simp add: rdb_def)
  obtain d' where pop: "ro_BRPop R (rs_server s) (rd_queueKey drv) = (d', Inr [rd_queueKey drv, bytes])"
    and l: "lists d' = (lists (rs_server s))(rd_queueKey drv := [])"
    using pop_single [OF q] by auto
  have "redis_process enc drv uuid now (new_message drv name raw u t) (s\<lparr>rs_server := d'\<rparr>) =
      (s\<lparr>rs_server := d', rs_world := w', rs_delayed := [(now + 4 * second, bytes')]\<rparr>, Ret ())"
    using redis_process_retry [of drv "new_message drv name raw u t" "s\<lparr>rs_server := d'\<rparr>" w' e enc uuid now bytes']
      en ex max enc del by simp
  then have "redis_poll enc dec drv uuid now s =
      (s\<lparr>rs_server := d', rs_world := w', rs_delayed := [(now + 4 * second, bytes')]\<rparr>, Ret ())"
    using en r pop dec by (simp add: redis_turn_defs)
  then show ?thesis
    by (simp add: redis_timer_fire_def remove_at_def r lpush_lists l)
qed

text \<open>However many rounds there are, the handler runs in each of them.\<close>

lemma failing_rounds:
  assumes R: "Underlying (rd_client drv) = Some R" and en: "IsEnabled (rd_client drv)"
    and max: "1 < rd_maxAttempts drv"
    and codec: "\<And>u t. \<exists>b. enc (new_message drv name raw u t) = Inr b \<and>
      dec b = Inr (new_message drv name raw u t)"
    and fails: "\<And>w. \<exists>e. snd (ExecuteJob job_context (rd_registry drv) name raw w) = Ret (Some e)"
    and "lists (rs_server s) (rd_queueKey drv) = [bytes]" "rs_delayed s = []"
    and "dec bytes = Inr (new_message drv name raw u t)"
  shows "\<exists>s' b u' t'. redis_rounds enc dec drv rounds s = (s', Ret ()) \<and>
    lists (rs_server s') (rd_queueKey drv) = [b] \<and> dec b = Inr (new_message drv name raw u' t') \<and>
    rs_world s' =
      ((\<lambda>w. fst (ExecuteJob job_context (rd_registry drv) name raw w)) ^^ length rounds) (rs_world s)"
  using assms(6-)
proof (induction rounds arbitrary: s bytes u t)
  case (Cons r rounds)
  obtain uuid now where ru: "r = (uuid, now)" by (cases r)
  obtain w' e where ex: "ExecuteJob job_context (rd_registry drv) name raw (rs_world s) = (w', Ret (Some e))"
    using fails [of "rs_world s"] by (metis prod.collapse)
  obtain b where b: "enc (new_message drv name raw uuid now) = Inr b"
    "dec b = Inr (new_message drv name raw uuid now)"
    using codec by blast
  obtain s1 where s1: "redis_rounds enc dec drv [(uuid, now)] s = (s1, Ret ())"
    "lists (rs_server s1) (rd_queueKey drv) = [b]" "rs_delayed s1 = []" "rs_world s1 = w'"
    using failing_round [where dec = dec and enc = enc, OF R en Cons.prems(1,2,3) max ex b(1)] by blast
  have "redis_rounds enc dec drv (r # rounds) s = redis_rounds enc dec drv rounds s1"
    using s1(1) unfolding ru by (auto split: prod.splits outcome.splits)
  moreover note Cons.IH [OF s1(2,3) b(2)]
  moreover have "w' = fst (ExecuteJob job_context (rd_registry drv) name raw (rs_world s))"
    using ex by simp
  ultimately show ?case
    using s1(4) by (simp add: funpow_Suc_right del: funpow.simps)
qed auto

end

section \<open>The driver implements the contracts of its callers\<close>

definition redis_queue_dispatch ::
  "('v \<Rightarrow> err + string) \<Rightarrow> (redis_job_message \<Rightarrow> err + string) \<Rightarrow> string \<Rightarrow> instant \<Rightarrow>
   ('d, 'w) redis_driver \<times> ('d, 'w) redis_state \<Rightarrow> go_context \<Rightarrow> string \<Rightarrow> 'v payload \<Rightarrow>
   ((('d, 'w) redis_driver \<times> ('d, 'w) redis_state) \<times> err option) outcome" where
  "redis_queue_dispatch marshal enc uuid now q ctx name p =
     (case redis_Dispatch marshal enc (fst q) ctx name p uuid now (snd q) of
        (s', e) \<Rightarrow> Ret ((fst q, s'), e))"

interpretation redis_queue:
  queue_driver "\<lambda>q. rd_registry (fst q)" "redis_queue_dispatch marshal enc uuid now"
    "\<lambda>q name h. (redis_RegisterHandler (fst q) name h, snd q)" marshal
  for marshal :: "'v \<Rightarrow> err + string" and enc uuid now
  by unfold_locales
    (auto simp: redis_RegisterHandler_def redis_queue_dispatch_def redis_Dispatch_def
      redis_DispatchDelayed_def split: prod.splits)

interpretation redis_lifecycle: worker_lifecycle rd_running rd_quit redis_Start redis_Stop
  by unfold_locales (auto simp: redis_Start_def redis_Stop_def Let_def)

end
