(* ===== verification/Driver_Registry.thy ===== *)
theory Driver_Registry
  imports Go_Prelude
begin

text \<open>
  The contract that the driver registries of \<open>pkg/queue/factory.go\<close>,
  \<open>pkg/database/database.go\<close> and \<open>pkg/logger/logger.go\<close> share: builders are registered and
  looked up under the lower case of their name. Each package interprets the locale on its own
  \<open>RegisterDriver\<close> and on the lookup at the head of its \<open>Init\<close> function.
\<close>

locale driver_registry =
  fixes register :: "'m \<Rightarrow> string \<Rightarrow> 'b \<Rightarrow> 'm"
    and find :: "'m \<Rightarrow> string \<Rightarrow> 'b option"
  assumes find_register:
    "find (register m n b) k = (if to_lower k = to_lower n then Some b else find m k)"
begin

lemma find_registered: "find (register m n b) n = Some b"
  by (simp add: find_register)

lemma find_any_case: "equal_fold k n \<Longrightarrow> find (register m n b) k = Some b"
  by (simp add: find_register equal_fold_def)

lemma find_other: "\<not> equal_fold k n \<Longrightarrow> find (register m n b) k = find m k"
  by (simp add: find_register equal_fold_def)

text \<open>Registering a name again replaces the builder; the order of other registrations is irrelevant.\<close>

lemma register_last: "equal_fold n n' \<Longrightarrow> find (register (register m n b) n' b') k = find (register m n' b') k"
  by (simp add: find_register equal_fold_def)

lemma register_commute:
  "\<not> equal_fold n n' \<Longrightarrow>
   find (register (register m n b) n' b') k = find (register (register m n' b') n b) k"
  by (simp add: find_register equal_fold_def)

end

text \<open>The registries are Go maps: a registered name is stored in lower case.\<close>

definition register_lower :: "(string \<rightharpoonup> 'b) \<Rightarrow> string \<Rightarrow> 'b \<Rightarrow> (string \<rightharpoonup> 'b)" where
  "register_lower m name b = m(to_lower name \<mapsto> b)"

lemma register_lower_find:
  "register_lower m n b (to_lower k) = (if to_lower k = to_lower n then Some b else m (to_lower k))"
  by (simp add: register_lower_def)

lemma register_lower_dom: "dom (register_lower m n b) = insert (to_lower n) (dom m)"
  by (simp add: register_lower_def)

text \<open>
  Ranging over a Go map visits its keys in any order: the argument \<open>order\<close> is that order, a list
  without repetition in which all keys occur.
\<close>

definition keys_in_order :: "(string \<rightharpoonup> 'b) \<Rightarrow> string list \<Rightarrow> string list" where
  "keys_in_order m order = filter (\<lambda>k. m k \<noteq> None) order"

lemma keys_in_order_set: "dom m \<subseteq> set order \<Longrightarrow> set (keys_in_order m order) = dom m"
  by (auto simp: keys_in_order_def)

lemma keys_in_order_distinct: "distinct order \<Longrightarrow> distinct (keys_in_order m order)"
  by (simp add: keys_in_order_def)

end
