(* ===== verification/Queue_Factory.thy ===== *)
theory Queue_Factory
  imports Database_Driver Memory_Driver Redis_Driver Config Driver_Registry
begin

text \<open>
  \<open>pkg/queue/factory.go\<close>: the registry of queue drivers and \<open>InitQueue\<close>. The built-in
  builders are the constructors of \<open>builder\<close>, a driver registered from outside is a
  \<open>CustomBuilder\<close>. The builders \<open>db\<close> and \<open>redis\<close> look other builders up when they run, as in
  the code; a builder that is missing there is a nil function, and calling it panics. The
  database handle and the Redis client may be nil.

  Lemmas: the kind of queue each configuration gives; \<open>InitQueue\<close> does not fail.
\<close>

section \<open>Builders\<close>

text \<open>The queue and the worker that a builder returns are one object.\<close>

datatype ('d, 'w, 'x) queue_instance =
    DatabaseQueue "'w database_driver"
  | MemoryQueue "'w memory_driver"
  | SyncQueue "'w sync_driver"
  | RedisQueue "('d, 'w) redis_driver"
  | CustomQueue 'x

datatype ('j, 'd, 'w, 'x) builder =
    DatabaseBuilder | DbBuilder | MemoryBuilder | SyncBuilder | RedisBuilder
  | CustomBuilder
      "queue_config \<Rightarrow> 'w registry \<Rightarrow> 'j job_db option \<Rightarrow> 'd redis_client option \<Rightarrow> err + 'x"

type_synonym ('j, 'd, 'w, 'x) builders = "string \<rightharpoonup> ('j, 'd, 'w, 'x) builder"

definition queue_RegisterDriver ::
  "('j, 'd, 'w, 'x) builders \<Rightarrow> string \<Rightarrow> ('j, 'd, 'w, 'x) builder \<Rightarrow> ('j, 'd, 'w, 'x) builders" where
  "queue_RegisterDriver drivers name b = register_lower drivers name b"

definition queue_init_drivers :: "('j, 'd, 'w, 'x) builders" where
  "queue_init_drivers =
     queue_RegisterDriver (queue_RegisterDriver (queue_RegisterDriver (queue_RegisterDriver
       (queue_RegisterDriver Map.empty ''database'' DatabaseBuilder) ''db'' DbBuilder)
       ''memory'' MemoryBuilder) ''sync'' SyncBuilder) ''redis'' RedisBuilder"

definition queue_GetRegisteredDrivers :: "('j, 'd, 'w, 'x) builders \<Rightarrow> string list \<Rightarrow> string list" where
  "queue_GetRegisteredDrivers drivers order = keys_in_order drivers order"

text \<open>The builders that do not look at the registry.\<close>

definition database_builder ::
  "queue_config \<Rightarrow> 'w registry \<Rightarrow> 'j job_db option \<Rightarrow> err + 'w database_driver" where
  "database_builder cfg reg db =
     (case db of
        None \<Rightarrow> Inl (ErrNew ''queue: database driver requires non-nil *gorm.DB'')
      | Some D \<Rightarrow>
          Inr (NewDatabaseDriver
            \<lparr>dc_QueueName = queue_QueueName cfg, dc_Concurrency = queue_Concurrency cfg,
             dc_MaxAttempts = queue_MaxAttempts cfg,
             dc_PollInterval = duration_of (queue_PollIntervalMs cfg) millisecond\<rparr> (Some reg)))"

definition memory_builder :: "queue_config \<Rightarrow> 'w registry \<Rightarrow> 'w memory_driver" where
  "memory_builder cfg reg = NewMemoryDriver (queue_Concurrency cfg) 1000 (Some reg)"

definition redis_builder ::
  "queue_config \<Rightarrow> 'w registry \<Rightarrow> 'd redis_client option \<Rightarrow> ('d, 'w) redis_driver" where
  "redis_builder cfg reg client =
     NewRedisDriver client
       \<lparr>rdc_QueueName = queue_QueueName cfg, rdc_Concurrency = queue_Concurrency cfg,
        rdc_MaxAttempts = queue_MaxAttempts cfg\<rparr> (Some reg)"

definition leaf_build ::
  "('j, 'd, 'w, 'x) builder option \<Rightarrow> queue_config \<Rightarrow> 'w registry \<Rightarrow> 'j job_db option \<Rightarrow>
   'd redis_client option \<Rightarrow> (err + ('d, 'w, 'x) queue_instance) outcome" where
  "leaf_build b cfg reg db client =
     (case b of
        Some DatabaseBuilder \<Rightarrow> Ret (map_sum id DatabaseQueue (database_builder cfg reg db))
      | Some MemoryBuilder \<Rightarrow> Ret (Inr (MemoryQueue (memory_builder cfg reg)))
      | Some SyncBuilder \<Rightarrow> Ret (Inr (SyncQueue (NewSyncDriver (Some reg))))
      | Some (CustomBuilder f) \<Rightarrow> Ret (map_sum id CustomQueue (f cfg reg db client))
      | _ \<Rightarrow> Panic ''invalid memory address or nil pointer dereference'')"

definition build ::
  "('j, 'd, 'w, 'x) builders \<Rightarrow> ('j, 'd, 'w, 'x) builder option \<Rightarrow> queue_config \<Rightarrow> 'w registry \<Rightarrow>
   'j job_db option \<Rightarrow> 'd redis_client option \<Rightarrow> (err + ('d, 'w, 'x) queue_instance) outcome" where
  "build drivers b cfg reg db client =
     (case b of
        Some DbBuilder \<Rightarrow> leaf_build (drivers ''database'') cfg reg db client
      | Some RedisBuilder \<Rightarrow>
          if \<not> IsEnabled client then leaf_build (drivers ''memory'') cfg reg db client
          else Ret (Inr (RedisQueue (redis_builder cfg reg client)))
      | _ \<Rightarrow> leaf_build b cfg reg db client)"

section \<open>Initialization\<close>

definition queue_driver_name :: "queue_config \<Rightarrow> string" where
  "queue_driver_name cfg =
     (let n = to_lower (queue_Driver cfg) in if n = [] then ''database'' else n)"

definition InitQueue ::
  "('j, 'd, 'w, 'x) builders \<Rightarrow> queue_config \<Rightarrow> 'w registry option \<Rightarrow> 'j job_db option \<Rightarrow>
   'd redis_client option \<Rightarrow> (err + ('d, 'w, 'x) queue_instance) outcome" where
  "InitQueue drivers cfg reg db client =
     (let r = registry_or_new reg;
          b = (case drivers (queue_driver_name cfg) of
                 None \<Rightarrow> drivers ''memory'' | Some b \<Rightarrow> Some b)
      in bind_outcome (build drivers b cfg r db client) (\<lambda>res.
        case res of
          Inl e \<Rightarrow> build drivers (drivers ''memory'') cfg r db client
        | Inr q \<Rightarrow> Ret (Inr q)))"

section \<open>Lemmas\<close>

text \<open>
  The registry as the package leaves it to its clients: the built-in builders, possibly replaced
  or joined by custom ones.
\<close>

definition is_custom :: "('j, 'd, 'w, 'x) builder \<Rightarrow> bool" where
  "is_custom b = (case b of CustomBuilder f \<Rightarrow> True | _ \<Rightarrow> False)"

definition builders_ok :: "('j, 'd, 'w, 'x) builders \<Rightarrow> bool" where
  "builders_ok m \<longleftrightarrow>
     (\<exists>b. m ''database'' = Some b \<and> (b = DatabaseBuilder \<or> is_custom b)) \<and>
     (\<exists>b. m ''memory'' = Some b \<and> (b = MemoryBuilder \<or> is_custom b))"

lemma lower_names [simp]:
  "to_lower ''database'' = ''database''" "to_lower ''db'' = ''db''" "to_lower ''memory'' = ''memory''"
  "to_lower ''sync'' = ''sync''" "to_lower ''redis'' = ''redis''"
  by code_simp+

lemma init_drivers_simps:
  "queue_init_drivers ''database'' = Some DatabaseBuilder"
  "queue_init_drivers ''db'' = Some DbBuilder"
  "queue_init_drivers ''memory'' = Some MemoryBuilder"
  "queue_init_drivers ''sync'' = Some SyncBuilder"
  "queue_init_drivers ''redis'' = Some RedisBuilder"
  by (simp_all add: queue_init_drivers_def queue_RegisterDriver_def register_lower_def)

lemma init_drivers_dom:
  "dom queue_init_drivers = {''database'', ''db'', ''memory'', ''sync'', ''redis''}"
  by (simp add: queue_init_drivers_def queue_RegisterDriver_def register_lower_dom insert_commute)

lemma builders_ok_init: "builders_ok queue_init_drivers"
  by (simp add: builders_ok_def init_drivers_simps)

lemma builders_ok_register:
  "builders_ok m \<Longrightarrow> builders_ok (queue_RegisterDriver m name (CustomBuilder f))"
  by (auto simp: builders_ok_def queue_RegisterDriver_def register_lower_def is_custom_def)

lemma leaf_build_returns:
  "b = Some DatabaseBuilder \<or> b = Some MemoryBuilder \<or> b = Some SyncBuilder \<or> (\<exists>f. b = Some (CustomBuilder f)) \<Longrightarrow>
   \<exists>r. leaf_build b cfg reg db client = Ret r"
  by (auto simp: leaf_build_def)

lemma build_returns:
  assumes "builders_ok m"
  shows "\<exists>r. build m (Some b) cfg reg db client = Ret r"
proof -
  obtain d where "m ''database'' = Some d" "d = DatabaseBuilder \<or> is_custom d"
    using assms by (auto simp: builders_ok_def)
  then have d: "\<exists>r. leaf_build (m ''database'') cfg reg db client = Ret r"
    by (cases d) (auto simp: leaf_build_def is_custom_def)
  obtain e where "m ''memory'' = Some e" "e = MemoryBuilder \<or> is_custom e"
    using assms by (auto simp: builders_ok_def)
  then have e: "\<exists>r. leaf_build (m ''memory'') cfg reg db client = Ret r"
    by (cases e) (auto simp: leaf_build_def is_custom_def)
  show ?thesis
    using d e by (cases b) (auto simp: build_def leaf_build_def)
qed

lemma build_memory: "m ''memory'' = Some MemoryBuilder \<Longrightarrow>
  build m (m ''memory'') cfg reg db client = Ret (Inr (MemoryQueue (memory_builder cfg reg)))"
  by (simp add: build_def leaf_build_def)

lemma InitQueue_succeeds:
  assumes ok: "builders_ok m" and mem: "m ''memory'' = Some MemoryBuilder"
  shows "\<exists>q. InitQueue m cfg reg db client = Ret (Inr q)"
proof -
  obtain b where b: "(case m (queue_driver_name cfg) of None \<Rightarrow> m ''memory'' | Some b \<Rightarrow> Some b) = Some b"
    using mem by (cases "m (queue_driver_name cfg)") auto
  obtain r where r: "build m (Some b) cfg (registry_or_new reg) db client = Ret r"
    using build_returns [OF ok] by blast
  show ?thesis
    unfolding InitQueue_def Let_def b r
    by (cases r) (simp_all add: build_memory [where m = m, OF mem])
qed

interpretation queue_drivers: driver_registry queue_RegisterDriver "\<lambda>m k. m (to_lower k)"
  by unfold_locales (simp add: queue_RegisterDriver_def register_lower_find)

end
