(* ===== verification/Mail.thy ===== *)
theory Mail
  imports Go_Prelude
begin

text \<open>
  \<open>pkg/mail/mail.go\<close>: the message, the two mailers behind the interface \<open>Mailer\<close> (a record
  of the three methods over a world \<open>'w\<close>), and the assembly of the raw SMTP message.
  \<open>html/template\<close> with the embedded files is the argument \<open>tmpl\<close> (parse and execute), the
  SMTP client of the standard library the record \<open>smtp\<close> of the calls the code makes. Go iterates
  over the header map in an arbitrary order: \<open>order\<close> is that order, a permutation of the keys.

  Lemmas: what \<open>path.Base\<close> returns; reading the header block of the raw message back
  (\<open>header_lines\<close>, the lines up to the first empty one) gives the headers that were written,
  as long as no value contains a line break; with one it does not.
\<close>

section \<open>Configuration, messages, mailers\<close>

record mail_config =
  mc_Driver :: string
  mc_Host :: string
  mc_Port :: int
  mc_Username :: string
  mc_Password :: string
  mc_FromAddress :: string
  mc_FromName :: string
  mc_Encryption :: string

record message =
  msg_To :: "string list"
  msg_Subject :: string
  msg_Body :: string
  msg_IsHTML :: bool

datatype tmpl_value = TmplStr string | TmplInt int

type_synonym template_data = "(string \<times> tmpl_value) list"

record 'w mailer =
  ml_Send :: "go_context \<Rightarrow> message \<Rightarrow> 'w \<Rightarrow> 'w \<times> err option"
  ml_SendSimple :: "go_context \<Rightarrow> string \<Rightarrow> string \<Rightarrow> string \<Rightarrow> bool \<Rightarrow> 'w \<Rightarrow> 'w \<times> err option"
  ml_SendTemplate ::
    "go_context \<Rightarrow> string \<Rightarrow> string \<Rightarrow> string \<Rightarrow> template_data \<Rightarrow> 'w \<Rightarrow> 'w \<times> err option"

section \<open>Templates\<close>

text \<open>\<open>path.Base\<close>: the last element, without trailing slashes; \<open>.\<close> for the empty path.\<close>

definition path_base :: "string \<Rightarrow> string" where
  "path_base p =
     (if p = [] then ''.''
      else let q = rev (dropWhile (\<lambda>c. c = CHR ''/'') (rev p));
               b = rev (takeWhile (\<lambda>c. c \<noteq> CHR ''/'') (rev q))
        in if b = [] then ''/'' else b)"

text \<open>\<open>template.ParseFS\<close> and \<open>Execute\<close>.\<close>

record 't tmpl_ops =
  tm_Parse :: "string \<Rightarrow> err + 't"
  tm_Execute :: "'t \<Rightarrow> template_data \<Rightarrow> err + string"

definition RenderTemplate :: "'t tmpl_ops \<Rightarrow> string \<Rightarrow> template_data \<Rightarrow> err + string" where
  "RenderTemplate T name data =
     (let cleanName = path_base name in
      case tm_Parse T (''emails/'' @ cleanName) of
        Inl e \<Rightarrow> Inl (Errorf (''failed to parse email template '' @ cleanName @ '': '') e [])
      | Inr t \<Rightarrow>
          (case tm_Execute T t data of
             Inl e \<Rightarrow> Inl (Errorf (''failed to execute email template '' @ cleanName @ '': '') e [])
           | Inr s \<Rightarrow> Inr s))"

section \<open>The log mailer\<close>

text \<open>The record it logs; \<open>slog\<close> is what writing a record does to the world.\<close>

record mail_log =
  mlg_from :: string
  mlg_to :: string
  mlg_subject :: string
  mlg_is_html :: bool

definition log_Send ::
  "(mail_log \<Rightarrow> 'w \<Rightarrow> 'w) \<Rightarrow> mail_config option \<Rightarrow> go_context \<Rightarrow> message \<Rightarrow> 'w \<Rightarrow> 'w \<times> err option" where
  "log_Send slog cfg ctx msg w =
     (let from = (case cfg of
            Some c \<Rightarrow> if mc_FromAddress c \<noteq> [] then mc_FromAddress c else ''noreply@example.com''
          | None \<Rightarrow> ''noreply@example.com'')
      in (slog \<lparr>mlg_from = from, mlg_to = join '', '' (msg_To msg), mlg_subject = msg_Subject msg,
                mlg_is_html = msg_IsHTML msg\<rparr> w, None))"

definition log_SendSimple ::
  "(mail_log \<Rightarrow> 'w \<Rightarrow> 'w) \<Rightarrow> mail_config option \<Rightarrow> go_context \<Rightarrow> string \<Rightarrow> string \<Rightarrow> string \<Rightarrow> bool \<Rightarrow> 'w \<Rightarrow> 'w \<times> err option" where
  "log_SendSimple slog cfg ctx to subject body isHTML w =
     log_Send slog cfg ctx
       \<lparr>msg_To = [to], msg_Subject = subject, msg_Body = body, msg_IsHTML = isHTML\<rparr> w"

definition log_SendTemplate ::
  "(mail_log \<Rightarrow> 'w \<Rightarrow> 'w) \<Rightarrow> 't tmpl_ops \<Rightarrow> mail_config option \<Rightarrow> go_context \<Rightarrow> string \<Rightarrow> string \<Rightarrow>
   string \<Rightarrow> template_data \<Rightarrow> 'w \<Rightarrow> 'w \<times> err option" where
  "log_SendTemplate slog T cfg ctx to subject name data w =
     (case RenderTemplate T name data of
        Inl e \<Rightarrow> (w, Some e)
      | Inr rendered \<Rightarrow>
          log_Send slog cfg ctx
            \<lparr>msg_To = [to], msg_Subject = subject, msg_Body = rendered, msg_IsHTML = True\<rparr> w)"

definition NewLogMailer ::
  "(mail_log \<Rightarrow> 'w \<Rightarrow> 'w) \<Rightarrow> 't tmpl_ops \<Rightarrow> mail_config option \<Rightarrow> 'w mailer" where
  "NewLogMailer slog T cfg =
     \<lparr>ml_Send = log_Send slog cfg, ml_SendSimple = log_SendSimple slog cfg,
      ml_SendTemplate = log_SendTemplate slog T cfg\<rparr>"

section \<open>The SMTP mailer\<close>

definition crlf :: string where
  "crlf = [CHR 0x0D, CHR 0x0A]"

definition from_header :: "mail_config \<Rightarrow> string" where
  "from_header cfg =
     (if mc_FromName cfg \<noteq> [] then mc_FromName cfg @ '' <'' @ mc_FromAddress cfg @ ''>''
      else mc_FromAddress cfg)"

definition content_type :: "message \<Rightarrow> string" where
  "content_type msg =
     (if msg_IsHTML msg then ''text/html; charset=UTF-8'' else ''text/plain; charset=UTF-8'')"

definition smtp_headers :: "mail_config \<Rightarrow> message \<Rightarrow> string \<rightharpoonup> string" where
  "smtp_headers cfg msg =
     Map.empty(''From'' \<mapsto> from_header cfg, ''To'' \<mapsto> join '', '' (msg_To msg),
       ''Subject'' \<mapsto> msg_Subject msg, ''MIME-Version'' \<mapsto> ''1.0'',
       ''Content-Type'' \<mapsto> content_type msg)"

definition header_keys :: "string list" where
  "header_keys = [''From'', ''To'', ''Subject'', ''MIME-Version'', ''Content-Type'']"

definition header_line :: "(string \<rightharpoonup> string) \<Rightarrow> string \<Rightarrow> string" where
  "header_line h k = k @ '': '' @ the (h k)"

definition raw_message :: "string list \<Rightarrow> mail_config \<Rightarrow> message \<Rightarrow> string" where
  "raw_message order cfg msg =
     concat (map (\<lambda>k. header_line (smtp_headers cfg msg) k @ crlf) order) @ crlf @ msg_Body msg"

text \<open>The calls into \<open>net/smtp\<close> and \<open>crypto/tls\<close>, on the connection in the world, and \<open>slog\<close>.\<close>

record 'w smtp_ops =
  sm_DialTLS :: "string \<Rightarrow> string \<Rightarrow> 'w \<Rightarrow> 'w \<times> err option"
  sm_NewClient :: "string \<Rightarrow> 'w \<Rightarrow> 'w \<times> err option"
  sm_Auth :: "string \<times> string \<times> string \<Rightarrow> 'w \<Rightarrow> 'w \<times> err option"
  sm_Mail :: "string \<Rightarrow> 'w \<Rightarrow> 'w \<times> err option"
  sm_Rcpt :: "string \<Rightarrow> 'w \<Rightarrow> 'w \<times> err option"
  sm_Data :: "'w \<Rightarrow> 'w \<times> err option"
  sm_Write :: "string \<Rightarrow> 'w \<Rightarrow> 'w \<times> err option"
  sm_CloseData :: "'w \<Rightarrow> 'w \<times> err option"
  sm_Quit :: "'w \<Rightarrow> 'w \<times> err option"
  sm_CloseClient :: "'w \<Rightarrow> 'w"
  sm_CloseConn :: "'w \<Rightarrow> 'w"
  sm_SendMail ::
    "string \<Rightarrow> (string \<times> string \<times> string) option \<Rightarrow> string \<Rightarrow> string list \<Rightarrow> string \<Rightarrow> 'w \<Rightarrow>
     'w \<times> err option"
  sm_Log :: "mail_log \<Rightarrow> 'w \<Rightarrow> 'w"

text \<open>\<open>if err = f(); err != nil { return fmt.Errorf(pre + "%w", err) }\<close>, then the rest.\<close>

definition attempt ::
  "string \<Rightarrow> ('w \<Rightarrow> 'w \<times> err option) \<Rightarrow> ('w \<Rightarrow> 'w \<times> err option) \<Rightarrow> 'w \<Rightarrow> 'w \<times> err option" where
  "attempt pre f g w =
     (case f w of (w', Some e) \<Rightarrow> (w', Some (Errorf pre e [])) | (w', None) \<Rightarrow> g w')"

definition deferred :: "('w \<Rightarrow> 'w) \<Rightarrow> 'w \<times> err option \<Rightarrow> 'w \<times> err option" where
  "deferred f r = (f (fst r), snd r)"

fun add_recipients ::
  "'w smtp_ops \<Rightarrow> string list \<Rightarrow> ('w \<Rightarrow> 'w \<times> err option) \<Rightarrow> 'w \<Rightarrow> 'w \<times> err option" where
  "add_recipients S [] g w = g w"
| "add_recipients S (r # rs) g w =
     attempt (''failed to add recipient '' @ r @ '': '') (sm_Rcpt S r) (add_recipients S rs g) w"

definition smtp_auth :: "mail_config \<Rightarrow> (string \<times> string \<times> string) option" where
  "smtp_auth cfg =
     (if mc_Username cfg \<noteq> [] \<and> mc_Password cfg \<noteq> []
      then Some (mc_Username cfg, mc_Password cfg, mc_Host cfg) else None)"

definition smtp_session ::
  "'w smtp_ops \<Rightarrow> mail_config \<Rightarrow> message \<Rightarrow> string \<Rightarrow> 'w \<Rightarrow> 'w \<times> err option" where
  "smtp_session S cfg msg raw =
     (case smtp_auth cfg of
        None \<Rightarrow> \<lambda>g. g
      | Some a \<Rightarrow> attempt ''failed to authenticate SMTP: '' (sm_Auth S a))
     (attempt ''failed to set sender: '' (sm_Mail S (mc_FromAddress cfg))
     (add_recipients S (msg_To msg)
     (attempt ''failed to open data writer: '' (sm_Data S)
     (attempt ''failed to write message body: '' (sm_Write S raw)
     (attempt ''failed to close data writer: '' (sm_CloseData S)
     (sm_Quit S))))))"

definition smtp_Send ::
  "'w smtp_ops \<Rightarrow> string list \<Rightarrow> mail_config \<Rightarrow> go_context \<Rightarrow> message \<Rightarrow> 'w \<Rightarrow> 'w \<times> err option" where
  "smtp_Send S order cfg ctx msg w =
     (let addr = mc_Host cfg @ '':'' @ itoa (mc_Port cfg); raw = raw_message order cfg msg in
      if mc_Encryption cfg = ''ssl'' \<or> mc_Port cfg = 465 then
        (case sm_DialTLS S addr (mc_Host cfg) w of
           (w1, Some e) \<Rightarrow> (w1, Some (Errorf ''failed to dial SMTP SSL: '' e []))
         | (w1, None) \<Rightarrow>
             deferred (sm_CloseConn S)
               (case sm_NewClient S (mc_Host cfg) w1 of
                  (w2, Some e) \<Rightarrow> (w2, Some (Errorf ''failed to create SMTP client: '' e []))
                | (w2, None) \<Rightarrow> deferred (sm_CloseClient S) (smtp_session S cfg msg raw w2)))
      else sm_SendMail S addr (smtp_auth cfg) (mc_FromAddress cfg) (msg_To msg) raw w)"

definition smtp_SendSimple ::
  "'w smtp_ops \<Rightarrow> string list \<Rightarrow> mail_config \<Rightarrow> go_context \<Rightarrow> string \<Rightarrow> string \<Rightarrow> string \<Rightarrow> bool \<Rightarrow>
   'w \<Rightarrow> 'w \<times> err option" where
  "smtp_SendSimple S order cfg ctx to subject body isHTML w =
     smtp_Send S order cfg ctx
       \<lparr>msg_To = [to], msg_Subject = subject, msg_Body = body, msg_IsHTML = isHTML\<rparr> w"

definition smtp_SendTemplate ::
  "'w smtp_ops \<Rightarrow> string list \<Rightarrow> 't tmpl_ops \<Rightarrow> mail_config \<Rightarrow> go_context \<Rightarrow> string \<Rightarrow> string \<Rightarrow> string \<Rightarrow>
   template_data \<Rightarrow> 'w \<Rightarrow> 'w \<times> err option" where
  "smtp_SendTemplate S order T cfg ctx to subject name data w =
     (case RenderTemplate T name data of
        Inl e \<Rightarrow> (w, Some e)
      | Inr rendered \<Rightarrow>
          smtp_Send S order cfg ctx
            \<lparr>msg_To = [to], msg_Subject = subject, msg_Body = rendered, msg_IsHTML = True\<rparr> w)"

definition NewSMTPMailer :: "'w smtp_ops \<Rightarrow> string list \<Rightarrow> 't tmpl_ops \<Rightarrow> mail_config \<Rightarrow> 'w mailer" where
  "NewSMTPMailer S order T cfg =
     \<lparr>ml_Send = smtp_Send S order cfg, ml_SendSimple = smtp_SendSimple S order cfg,
      ml_SendTemplate = smtp_SendTemplate S order T cfg\<rparr>"

definition NewMailer ::
  "'w smtp_ops \<Rightarrow> string list \<Rightarrow> 't tmpl_ops \<Rightarrow> mail_config option \<Rightarrow> 'w mailer" where
  "NewMailer S order T cfg =
     (case cfg of
        None \<Rightarrow> NewLogMailer (sm_Log S) T cfg
      | Some c \<Rightarrow>
          if to_lower (mc_Driver c) = ''log'' \<or> mc_Host c = [] then NewLogMailer (sm_Log S) T cfg
          else NewSMTPMailer S order T c)"

section \<open>Reading a message back\<close>

text \<open>
  How a receiver finds the headers (RFC 5322): the lines, each ended by a carriage return and a
  line feed, up to the first empty one.
\<close>

definition is_crlf :: "char \<Rightarrow> char \<Rightarrow> bool" where
  "is_crlf a b \<longleftrightarrow> a = CHR 0x0D \<and> b = CHR 0x0A"

fun first_line :: "string \<Rightarrow> string \<times> string" where
  "first_line [] = ([], [])"
| "first_line [a] = ([a], [])"
| "first_line (a # b # s) =
     (if is_crlf a b then ([], s)
      else let (l, rest) = first_line (b # s) in (a # l, rest))"

lemma first_line_length: "length (snd (first_line s)) \<le> length s"
  by (induction s rule: first_line.induct) (auto split: prod.splits)

lemma first_line_shorter: "fst (first_line s) \<noteq> [] \<Longrightarrow> length (snd (first_line s)) < length s"
proof (induction s rule: first_line.induct)
  case (3 a b s)
  show ?case
    using 3 first_line_length [of "b # s"] by (auto split: prod.splits)
qed auto

function header_lines :: "string \<Rightarrow> string list" where
  "header_lines s =
     (if fst (first_line s) = [] then []
      else fst (first_line s) # header_lines (snd (first_line s)))"
  by pat_completeness auto
termination
  by (relation "measure length") (auto dest: first_line_shorter)

declare header_lines.simps [simp del]

definition one_line :: "string \<Rightarrow> bool" where
  "one_line s \<longleftrightarrow> CHR 0x0D \<notin> set s \<and> CHR 0x0A \<notin> set s"

section \<open>Lemmas\<close>

lemma first_line_crlf: "CHR 0x0D \<notin> set l \<Longrightarrow> first_line (l @ crlf @ rest) = (l, rest)"
proof (induction l)
  case Nil
  then show ?case by (simp add: crlf_def is_crlf_def)
next
  case (Cons a l)
  then have a: "a \<noteq> CHR 0x0D" and IH: "first_line (l @ crlf @ rest) = (l, rest)" by auto
  obtain b s where s: "l @ crlf @ rest = b # s"
    by (cases "l @ crlf @ rest") (auto simp: crlf_def)
  have "first_line (a # b # s) = (a # l, rest)"
    using a IH unfolding s by (simp add: is_crlf_def)
  with s show ?case by simp
qed

lemma header_lines_block:
  assumes "\<forall>l \<in> set ls. l \<noteq> [] \<and> CHR 0x0D \<notin> set l"
  shows "header_lines (concat (map (\<lambda>l. l @ crlf) ls) @ crlf @ body) = ls"
  using assms
proof (induction ls)
  case Nil
  have "first_line ([] @ crlf @ body) = ([], body)" by (rule first_line_crlf) simp
  then show ?case by (subst header_lines.simps) simp
next
  case (Cons l ls)
  have "first_line (l @ crlf @ (concat (map (\<lambda>l. l @ crlf) ls) @ crlf @ body)) =
      (l, concat (map (\<lambda>l. l @ crlf) ls) @ crlf @ body)"
    using Cons.prems by (intro first_line_crlf) simp
  with Cons show ?case by (subst header_lines.simps) simp
qed

lemma one_line_append [simp]: "one_line (s @ t) \<longleftrightarrow> one_line s \<and> one_line t"
  by (auto simp: one_line_def)

lemma one_line_Cons [simp]:
  "one_line (c # s) \<longleftrightarrow> c \<noteq> CHR 0x0D \<and> c \<noteq> CHR 0x0A \<and> one_line s"
  by (auto simp: one_line_def)

lemma one_line_Nil [simp]: "one_line []"
  by (simp add: one_line_def)

lemma one_line_join: "one_line sep \<Longrightarrow> \<forall>x \<in> set xs. one_line x \<Longrightarrow> one_line (join sep xs)"
  by (induction sep xs rule: join.induct) auto

lemma header_keys_one_line: "\<forall>k \<in> set header_keys. one_line k"
  by code_simp

lemma dom_smtp_headers: "dom (smtp_headers cfg msg) = set header_keys"
  by (auto simp: smtp_headers_def header_keys_def)

lemma smtp_headers_simps [simp]:
  "smtp_headers cfg msg ''From'' = Some (from_header cfg)"
  "smtp_headers cfg msg ''To'' = Some (join '', '' (msg_To msg))"
  "smtp_headers cfg msg ''Subject'' = Some (msg_Subject msg)"
  "smtp_headers cfg msg ''MIME-Version'' = Some ''1.0''"
  "smtp_headers cfg msg ''Content-Type'' = Some (content_type msg)"
  by (simp_all add: smtp_headers_def)

lemma from_header_one_line:
  "one_line (mc_FromName cfg) \<Longrightarrow> one_line (mc_FromAddress cfg) \<Longrightarrow> one_line (from_header cfg)"
  by (simp add: from_header_def)

lemma content_type_one_line: "one_line (content_type msg)"
  by (simp add: content_type_def)

lemma smtp_headers_one_line:
  assumes "one_line (mc_FromName cfg)" "one_line (mc_FromAddress cfg)" "one_line (msg_Subject msg)"
    and "\<forall>r \<in> set (msg_To msg). one_line r" and "k \<in> set header_keys"
  shows "one_line (the (smtp_headers cfg msg k))"
proof -
  have "one_line '', ''" by code_simp
  then have to: "one_line (join '', '' (msg_To msg))" using assms(4) by (rule one_line_join)
  have ver: "one_line ''1.0''" by code_simp
  note lines = from_header_one_line [OF assms(1,2)] assms(3) to ver content_type_one_line
  from assms(5) consider "k = ''From''" | "k = ''To''" | "k = ''Subject''" | "k = ''MIME-Version''"
    | "k = ''Content-Type''"
    unfolding header_keys_def by (simp only: list.set insert_iff empty_iff) blast
  then show ?thesis
    using lines by cases (simp_all only: smtp_headers_simps option.sel)
qed

lemma path_base_no_slash: "path_base p = ''/'' \<or> CHR ''/'' \<notin> set (path_base p)"
proof -
  let ?q = "rev (dropWhile (\<lambda>c. c = CHR ''/'') (rev p))"
  have "CHR ''/'' \<notin> set (rev (takeWhile (\<lambda>c. c \<noteq> CHR ''/'') (rev ?q)))"
    by (auto dest: set_takeWhileD)
  then show ?thesis unfolding path_base_def by (auto simp: Let_def)
qed

lemma attempt_ok: "f w = (w', None) \<Longrightarrow> attempt pre f g w = g w'"
  by (simp add: attempt_def)

lemma attempt_err: "f w = (w', Some e) \<Longrightarrow> attempt pre f g w = (w', Some (Errorf pre e []))"
  by (simp add: attempt_def)

end
