(* ===== verification/Worker_Pool.thy ===== *)
theory Worker_Pool
  imports Channel_Pool Lifecycle Mail
begin

text \<open>
  \<open>pkg/worker/worker.go\<close>: the pool of goroutines that execute \<open>Job\<close> values, objects with a
  name and an \<open>Execute\<close> method, and the job \<open>WelcomeEmailJob\<close>. The pool is the machine of
  \<open>Channel_Pool\<close> again; unlike the memory queue its \<open>Dispatch\<close> tests \<open>running\<close> under the
  mutex and answers with a boolean. \<open>pool_system\<close> is the pool with its goroutines, \<open>wpool_step\<close>
  one atomic step; \<open>starts\<close> counts the calls of \<open>Start\<close> that spawned workers.
\<close>

section \<open>Jobs\<close>

record 'w pool_job =
  pj_Name :: string
  pj_Execute :: "go_context \<Rightarrow> 'w \<Rightarrow> 'w \<times> err option outcome"

record welcome_email_job =
  wej_UserID :: string
  wej_Email :: string
  wej_UserName :: string

definition WelcomeEmailJob_Name :: "welcome_email_job \<Rightarrow> string" where
  "WelcomeEmailJob_Name j = ''WelcomeEmailJob:'' @ wej_Email j"

definition WelcomeEmailJob_Execute ::
  "'w mailer option \<Rightarrow> int \<Rightarrow> welcome_email_job \<Rightarrow> go_context \<Rightarrow> 'w \<Rightarrow> 'w \<times> err option outcome" where
  "WelcomeEmailJob_Execute mailer year j ctx w =
     (case mailer of
        Some m \<Rightarrow>
          apsnd Ret (ml_SendTemplate m ctx (wej_Email j)
            (''Welcome to Gin Starter Pack, '' @ wej_UserName j @ ''!'') ''welcome.html''
            [(''AppName'', TmplStr ''Gin Starter Pack''), (''UserName'', TmplStr (wej_UserName j)),
             (''Email'', TmplStr (wej_Email j)), (''ActionURL'', TmplStr ''http://localhost:8080''),
             (''Year'', TmplInt year)] w)
      | None \<Rightarrow> (w, Ret None))"

definition welcome_job :: "'w mailer option \<Rightarrow> int \<Rightarrow> welcome_email_job \<Rightarrow> 'w pool_job" where
  "welcome_job mailer year j =
     \<lparr>pj_Name = WelcomeEmailJob_Name j, pj_Execute = WelcomeEmailJob_Execute mailer year j\<rparr>"

section \<open>The pool\<close>

record 'w pool =
  wp_concurrency :: int
  wp_cap :: nat
  wp_jobQueue :: "'w pool_job list"
  wp_queue_closed :: bool
  wp_quit :: bool
  wp_running :: bool

definition NewPool :: "int \<Rightarrow> int \<Rightarrow> 'w pool" where
  "NewPool concurrency queueSize =
     \<lparr>wp_concurrency = (if concurrency \<le> 0 then 5 else concurrency),
      wp_cap = (if queueSize \<le> 0 then 100 else nat queueSize),
      wp_jobQueue = [], wp_queue_closed = False, wp_quit = False, wp_running = False\<rparr>"

definition pool_Start :: "'w pool \<Rightarrow> 'w pool" where
  "pool_Start p = (if wp_running p then p else p\<lparr>wp_running := True\<rparr>)"

definition pool_Dispatch :: "'w pool_job \<Rightarrow> 'w pool \<Rightarrow> ('w pool \<times> bool) outcome" where
  "pool_Dispatch job p =
     (if \<not> wp_running p then Ret (p, False)
      else if wp_queue_closed p then Panic ''send on closed channel''
      else if length (wp_jobQueue p) < wp_cap p then
        Ret (p\<lparr>wp_jobQueue := wp_jobQueue p @ [job]\<rparr>, True)
      else Ret (p, False))"

text \<open>An error is logged; a panic is not recovered and goes up to the worker.\<close>

definition pool_processJob :: "'w pool_job \<Rightarrow> 'w \<Rightarrow> 'w \<times> unit outcome" where
  "pool_processJob job w =
     (case pj_Execute job (WithTimeout Background (60 * second)) w of
        (w', r) \<Rightarrow> (w', bind_outcome r (\<lambda>e. Ret ())))"

definition pool_stop_quit :: "'w pool \<Rightarrow> 'w pool outcome" where
  "pool_stop_quit p =
     (if wp_quit p then Panic ''close of closed channel''
      else Ret (p\<lparr>wp_running := False, wp_quit := True\<rparr>))"

definition pool_stop_close :: "'w pool \<Rightarrow> 'w pool outcome" where
  "pool_stop_close p =
     (if wp_queue_closed p then Panic ''close of closed channel''
      else Ret (p\<lparr>wp_queue_closed := True\<rparr>))"

text \<open>\<open>Stop\<close> returns nothing, whether the workers finish before the timeout or not.\<close>

definition pool_Stop :: "'w pool \<Rightarrow> 'w pool outcome" where
  "pool_Stop p =
     (if \<not> wp_running p then Ret p
      else bind_outcome (pool_stop_quit p) pool_stop_close)"

section \<open>The pool and its goroutines\<close>

record 'w pool_system =
  wps_pool :: "'w pool"
  wps_mu :: bool
  wps_workers :: "'w pool_job worker_pc list"
  wps_world :: 'w
  wps_crashed :: bool
  wps_starts :: nat
  wps_accepted :: "'w pool_job list"
  wps_taken :: "'w pool_job list"
  wps_finished :: "'w pool_job list"

definition pool_boot :: "'w pool \<Rightarrow> 'w \<Rightarrow> 'w pool_system" where
  "pool_boot p w =
     \<lparr>wps_pool = p, wps_mu = False, wps_workers = [], wps_world = w, wps_crashed = False,
      wps_starts = 0, wps_accepted = [], wps_taken = [], wps_finished = []\<rparr>"

definition pool_crash :: "'w pool_system \<Rightarrow> 'w pool_system" where
  "pool_crash s = s\<lparr>wps_crashed := True\<rparr>"

definition pool_sys_dispatch :: "'w pool_job \<Rightarrow> 'w pool_system \<Rightarrow> 'w pool_system" where
  "pool_sys_dispatch job s =
     (case pool_Dispatch job (wps_pool s) of
        Panic msg \<Rightarrow> pool_crash s
      | Ret (p', b) \<Rightarrow>
          s\<lparr>wps_pool := p', wps_accepted := wps_accepted s @ (if b then [job] else [])\<rparr>)"

definition pool_sys_start :: "'w pool_system \<Rightarrow> 'w pool_system" where
  "pool_sys_start s =
     (if wp_running (wps_pool s) then s
      else s\<lparr>wps_pool := pool_Start (wps_pool s), wps_starts := Suc (wps_starts s),
             wps_workers := wps_workers s @ replicate (nat (wp_concurrency (wps_pool s))) Idle\<rparr>)"

definition pool_sys_stop_quit :: "'w pool_system \<Rightarrow> 'w pool_system" where
  "pool_sys_stop_quit s =
     (if \<not> wp_running (wps_pool s) then s
      else case pool_stop_quit (wps_pool s) of
        Panic msg \<Rightarrow> pool_crash s
      | Ret p' \<Rightarrow> s\<lparr>wps_pool := p', wps_mu := True\<rparr>)"

definition pool_sys_stop_close :: "'w pool_system \<Rightarrow> 'w pool_system" where
  "pool_sys_stop_close s =
     (case pool_stop_close (wps_pool s) of
        Panic msg \<Rightarrow> pool_crash s
      | Ret p' \<Rightarrow> s\<lparr>wps_pool := p', wps_mu := False\<rparr>)"

definition pool_worker_select :: "branch \<Rightarrow> nat \<Rightarrow> 'w pool_system \<Rightarrow> 'w pool_system option" where
  "pool_worker_select b i s =
     (let p = wps_pool s in
      if i < length (wps_workers s) then
        (case worker_select b (wp_queue_closed p) (wp_quit p) (wp_jobQueue p) (wps_workers s ! i) of
           None \<Rightarrow> None
         | Some (js, pc) \<Rightarrow>
             Some (s\<lparr>wps_pool := p\<lparr>wp_jobQueue := js\<rparr>, wps_workers := (wps_workers s)[i := pc],
                     wps_taken := wps_taken s @ take (length (wp_jobQueue p) - length js) (wp_jobQueue p)\<rparr>))
      else None)"

definition pool_worker_finish :: "nat \<Rightarrow> 'w pool_system \<Rightarrow> 'w pool_system option" where
  "pool_worker_finish i s =
     (if i < length (wps_workers s) then
        (case worker_job (wps_workers s ! i) of
           None \<Rightarrow> None
         | Some j \<Rightarrow>
             (case pool_processJob j (wps_world s) of
                (w', Panic msg) \<Rightarrow> Some (pool_crash (s\<lparr>wps_world := w'\<rparr>))
              | (w', Ret u) \<Rightarrow>
                  Some (s\<lparr>wps_workers := (wps_workers s)[i := worker_return (wps_workers s ! i)],
                          wps_finished := wps_finished s @ [j], wps_world := w'\<rparr>)))
      else None)"

inductive wpool_step :: "'w pool_system \<Rightarrow> 'w pool_system \<Rightarrow> bool" where
  dispatch: "\<not> wps_crashed s \<Longrightarrow> \<not> wps_mu s \<Longrightarrow> wpool_step s (pool_sys_dispatch job s)"
| start: "\<not> wps_crashed s \<Longrightarrow> \<not> wps_mu s \<Longrightarrow> wpool_step s (pool_sys_start s)"
| stop_quit: "\<not> wps_crashed s \<Longrightarrow> \<not> wps_mu s \<Longrightarrow> wpool_step s (pool_sys_stop_quit s)"
| stop_close: "\<not> wps_crashed s \<Longrightarrow> wps_mu s \<Longrightarrow> wpool_step s (pool_sys_stop_close s)"
| worker_select: "\<not> wps_crashed s \<Longrightarrow> pool_worker_select b i s = Some t \<Longrightarrow> wpool_step s t"
| worker_finish: "\<not> wps_crashed s \<Longrightarrow> pool_worker_finish i s = Some t \<Longrightarrow> wpool_step s t"

section \<open>Refinement of the channel machine\<close>

definition wpool_view :: "'w pool_system \<Rightarrow> 'w pool_job pool_state" where
  "wpool_view s =
     \<lparr>ps_cap = wp_cap (wps_pool s), ps_buffer = wp_jobQueue (wps_pool s),
      ps_closed = wp_queue_closed (wps_pool s), ps_quit = wp_quit (wps_pool s), ps_mu = wps_mu s,
      ps_workers = wps_workers s, ps_accepted = wps_accepted s, ps_taken = wps_taken s,
      ps_finished = wps_finished s\<rparr>"

lemma wpool_view_simps [simp]:
  "ps_cap (wpool_view s) = wp_cap (wps_pool s)"
  "ps_buffer (wpool_view s) = wp_jobQueue (wps_pool s)"
  "ps_closed (wpool_view s) = wp_queue_closed (wps_pool s)"
  "ps_quit (wpool_view s) = wp_quit (wps_pool s)"
  "ps_mu (wpool_view s) = wps_mu s"
  "ps_workers (wpool_view s) = wps_workers s"
  "ps_accepted (wpool_view s) = wps_accepted s"
  "ps_taken (wpool_view s) = wps_taken s"
  "ps_finished (wpool_view s) = wps_finished s"
  by (simp_all add: wpool_view_def)

lemma wpool_view_crash [simp]: "wpool_view (pool_crash s) = wpool_view s"
  by (simp add: wpool_view_def pool_crash_def)

lemma pool_dispatch_sim:
  assumes "\<not> wps_mu s"
  shows "pool_step (wpool_view s) (wpool_view (pool_sys_dispatch job s))"
proof -
  let ?p = "wps_pool s"
  consider (sent) "wp_running ?p" "\<not> wp_queue_closed ?p" "length (wp_jobQueue ?p) < wp_cap ?p"
    | (same) "wpool_view (pool_sys_dispatch job s) = wpool_view s"
    by (cases "wp_running ?p"; cases "wp_queue_closed ?p"; cases "length (wp_jobQueue ?p) < wp_cap ?p")
      (auto simp: pool_sys_dispatch_def pool_Dispatch_def wpool_view_def pool_crash_def)
  then show ?thesis
  proof cases
    case sent
    then have "wpool_view (pool_sys_dispatch job s) = pool_accept job (wpool_view s)"
      by (simp add: pool_sys_dispatch_def pool_Dispatch_def wpool_view_def pool_accept_def)
    moreover have "pool_step (wpool_view s) (pool_accept job (wpool_view s))"
      using assms sent by (intro pool_step.accept) simp_all
    ultimately show ?thesis by simp
  qed (simp add: pool_step.stutter)
qed

lemma pool_start_sim:
  assumes "\<not> wps_mu s"
  shows "pool_step (wpool_view s) (wpool_view (pool_sys_start s))"
proof -
  let ?n = "if wp_running (wps_pool s) then 0 else nat (wp_concurrency (wps_pool s))"
  have "wpool_view (pool_sys_start s) =
      (wpool_view s)\<lparr>ps_workers := ps_workers (wpool_view s) @ replicate ?n Idle\<rparr>"
    by (simp add: wpool_view_def pool_sys_start_def pool_Start_def)
  moreover have "pool_step (wpool_view s)
      ((wpool_view s)\<lparr>ps_workers := ps_workers (wpool_view s) @ replicate ?n Idle\<rparr>)"
    using assms by (intro pool_step.start) simp
  ultimately show ?thesis by simp
qed

lemma pool_stop_quit_sim:
  assumes "\<not> wps_mu s"
  shows "pool_step (wpool_view s) (wpool_view (pool_sys_stop_quit s))"
proof (cases "wp_running (wps_pool s) \<and> \<not> wp_quit (wps_pool s)")
  case True
  then have "wpool_view (pool_sys_stop_quit s) = (wpool_view s)\<lparr>ps_quit := True, ps_mu := True\<rparr>"
    by (simp add: pool_sys_stop_quit_def pool_stop_quit_def wpool_view_def)
  moreover have "pool_step (wpool_view s) ((wpool_view s)\<lparr>ps_quit := True, ps_mu := True\<rparr>)"
    using assms True by (intro pool_step.stop_quit) simp_all
  ultimately show ?thesis by simp
next
  case False
  then have "wpool_view (pool_sys_stop_quit s) = wpool_view s"
    by (auto simp: pool_sys_stop_quit_def pool_stop_quit_def)
  then show ?thesis by (simp add: pool_step.stutter)
qed

lemma pool_stop_close_sim:
  assumes "wps_mu s"
  shows "pool_step (wpool_view s) (wpool_view (pool_sys_stop_close s))"
proof (cases "wp_queue_closed (wps_pool s)")
  case False
  then have "wpool_view (pool_sys_stop_close s) = (wpool_view s)\<lparr>ps_closed := True, ps_mu := False\<rparr>"
    by (simp add: pool_sys_stop_close_def pool_stop_close_def wpool_view_def)
  moreover have "pool_step (wpool_view s) ((wpool_view s)\<lparr>ps_closed := True, ps_mu := False\<rparr>)"
    using assms False by (intro pool_step.stop_close) simp_all
  ultimately show ?thesis by simp
next
  case True
  then have "wpool_view (pool_sys_stop_close s) = wpool_view s"
    by (auto simp: pool_sys_stop_close_def pool_stop_close_def)
  then show ?thesis by (simp add: pool_step.stutter)
qed

lemma wpool_step_sim: "wpool_step s t \<Longrightarrow> pool_step (wpool_view s) (wpool_view t)"
proof (induction rule: wpool_step.induct)
  case (worker_select s b i t)
  then have "pool_select b i (wpool_view s) = Some (wpool_view t)"
    by (auto simp: pool_worker_select_def pool_select_def wpool_view_def Let_def
        split: if_splits option.splits)
  then show ?case by (intro pool_step.work pool_work.select)
next
  case (worker_finish s i t)
  from worker_finish(2) have "wpool_view t = wpool_view s \<or> pool_finish i (wpool_view s) = Some (wpool_view t)"
    by (auto simp: pool_worker_finish_def pool_finish_def wpool_view_def pool_crash_def
        split: if_splits option.splits prod.splits outcome.splits)
  then show ?case
    by (auto simp: pool_step.stutter intro: pool_step.work pool_work.finish)
qed (blast intro: pool_dispatch_sim pool_start_sim pool_stop_quit_sim pool_stop_close_sim)+

interpretation worker_pool:
  pool_implementation "pool_boot (NewPool c n) w" wpool_step wpool_view
    "if n \<le> 0 then 100 else nat n"
  for c n :: int and w :: 'w
  by unfold_locales
    (simp add: wpool_view_def pool_boot_def NewPool_def pool_init_def, rule wpool_step_sim)

interpretation pool_lifecycle:
  worker_lifecycle wp_running "\<lambda>p. wp_quit p \<or> wp_queue_closed p" "\<lambda>p. (pool_Start p, None)"
    "\<lambda>b p. bind_outcome (pool_Stop p) (\<lambda>p'. Ret (p', None))"
  by unfold_locales
    (auto simp: pool_Start_def pool_Stop_def pool_stop_quit_def pool_stop_close_def)

section \<open>Dispatching across the life of a pool\<close>

text \<open>
  A running pool that was started once has both channels open: that is what \<open>Dispatch\<close> relies on
  when it tests \<open>running\<close>.
\<close>

definition pool_job_panicked :: "'w pool_system \<Rightarrow> bool" where
  "pool_job_panicked s \<longleftrightarrow>
     (\<exists>j w. Some j \<in> worker_job ` set (wps_workers s) \<and> \<not> returns (snd (pool_processJob j w)))"

definition pool_life_ok :: "'w pool_system \<Rightarrow> bool" where
  "pool_life_ok s \<longleftrightarrow>
     (wps_starts s = 0 \<longrightarrow> \<not> wp_running (wps_pool s) \<and> \<not> wps_mu s \<and>
        \<not> wp_quit (wps_pool s) \<and> \<not> wp_queue_closed (wps_pool s)) \<and>
     (wps_mu s \<longrightarrow> \<not> wp_running (wps_pool s) \<and> wp_quit (wps_pool s)) \<and>
     (wps_starts s \<le> 1 \<longrightarrow> (wps_crashed s \<longrightarrow> pool_job_panicked s) \<and>
        (wp_running (wps_pool s) \<longrightarrow> \<not> wp_quit (wps_pool s)) \<and>
        (wp_queue_closed (wps_pool s) \<longrightarrow> wp_quit (wps_pool s) \<and> \<not> wps_mu s))"

lemma pool_life_select:
  "pool_worker_select b i s = Some t \<Longrightarrow>
   wps_starts t = wps_starts s \<and> wps_mu t = wps_mu s \<and> wps_crashed t = wps_crashed s \<and>
   wp_running (wps_pool t) = wp_running (wps_pool s) \<and> wp_quit (wps_pool t) = wp_quit (wps_pool s) \<and>
   wp_queue_closed (wps_pool t) = wp_queue_closed (wps_pool s)"
  by (auto simp: pool_worker_select_def Let_def split: if_splits option.splits)

lemma pool_finish_cases:
  assumes "pool_worker_finish i s = Some t"
  obtains (finished) "wps_starts t = wps_starts s" "wps_mu t = wps_mu s" "wps_pool t = wps_pool s"
      "wps_crashed t = wps_crashed s"
    | (panicked) j msg w' where "i < length (wps_workers s)" "worker_job (wps_workers s ! i) = Some j"
      "pool_processJob j (wps_world s) = (w', Panic msg)" "t = pool_crash (s\<lparr>wps_world := w'\<rparr>)"
  using assms
  by (auto simp: pool_worker_finish_def split: if_splits option.splits prod.splits outcome.splits)

lemma pool_life_finish:
  assumes "pool_worker_finish i s = Some t"
  shows "wps_starts t = wps_starts s \<and> wps_mu t = wps_mu s \<and> wps_pool t = wps_pool s \<and>
    (wps_crashed t \<longrightarrow> wps_crashed s \<or> pool_job_panicked t)"
  using assms
proof (cases rule: pool_finish_cases)
  case (panicked j msg w')
  from panicked(1,2) have "Some j \<in> worker_job ` set (wps_workers s)"
    by (metis image_eqI nth_mem)
  moreover have "\<not> returns (snd (pool_processJob j (wps_world s)))" by (simp add: panicked(3))
  ultimately have "pool_job_panicked t" unfolding pool_job_panicked_def panicked(4) pool_crash_def by auto
  then show ?thesis by (simp add: panicked(4) pool_crash_def)
qed simp

lemma pool_life_step: "wpool_step s t \<Longrightarrow> pool_life_ok s \<Longrightarrow> pool_life_ok t"
proof (induction rule: wpool_step.induct)
  case (dispatch s job)
  then show ?case
    by (auto simp: pool_life_ok_def pool_sys_dispatch_def pool_Dispatch_def pool_crash_def)
next
  case (start s)
  then show ?case by (auto simp: pool_life_ok_def pool_sys_start_def pool_Start_def)
next
  case (stop_quit s)
  then show ?case
    by (auto simp: pool_life_ok_def pool_sys_stop_quit_def pool_stop_quit_def pool_crash_def)
next
  case (stop_close s)
  then show ?case
    by (auto simp: pool_life_ok_def pool_sys_stop_close_def pool_stop_close_def pool_crash_def)
next
  case (worker_select s b i t)
  then show ?case using pool_life_select [of b i s t] by (simp add: pool_life_ok_def)
next
  case (worker_finish s i t)
  then show ?case using pool_life_finish [of i s t] by (simp add: pool_life_ok_def)
qed

lemma pool_life_reach: "wpool_step\<^sup>*\<^sup>* (pool_boot (NewPool c n) w) s \<Longrightarrow> pool_life_ok s"
proof (induction rule: rtranclp_induct)
  case base
  show ?case by (simp add: pool_life_ok_def pool_boot_def NewPool_def)
next
  case (step s t)
  then show ?case by (blast intro: pool_life_step)
qed

end
