(* ===== verification/Sample_Codec.thy ===== *)
theory Sample_Codec
  imports Domain
begin

text \<open>
  A codec with a proved round trip that stands in for \<open>encoding/json\<close> in witnesses: a natural
  number is written in unary, a string after its length, a record as its fields in order. The
  model itself takes the codec as an argument; nothing here models the repository.
\<close>

definition enc_nat :: "nat \<Rightarrow> string" where
  "enc_nat n = replicate n CHR ''1'' @ '';''"

definition dec_nat :: "string \<Rightarrow> nat \<times> string" where
  "dec_nat s = (length (takeWhile (\<lambda>c. c = CHR ''1'') s), tl (dropWhile (\<lambda>c. c = CHR ''1'') s))"

definition enc_int :: "int \<Rightarrow> string" where
  "enc_int i = (if i < 0 then ''-'' @ enc_nat (nat (- i)) else ''+'' @ enc_nat (nat i))"

definition dec_int :: "string \<Rightarrow> int \<times> string" where
  "dec_int s = (let (n, r) = dec_nat (tl s) in (if hd s = CHR ''-'' then - int n else int n, r))"

definition enc_str :: "string \<Rightarrow> string" where
  "enc_str s = enc_nat (length s) @ s"

definition dec_str :: "string \<Rightarrow> string \<times> string" where
  "dec_str s = (let (n, r) = dec_nat s in (take n r, drop n r))"

lemma dec_enc_nat [simp]: "dec_nat (enc_nat n @ t) = (n, t)"
proof -
  have "takeWhile (\<lambda>c. c = CHR ''1'') (replicate n CHR ''1'' @ CHR '';'' # t) = replicate n CHR ''1''"
    by (induction n) auto
  moreover have "dropWhile (\<lambda>c. c = CHR ''1'') (replicate n CHR ''1'' @ CHR '';'' # t) = CHR '';'' # t"
    by (induction n) auto
  ultimately show ?thesis by (simp add: dec_nat_def enc_nat_def)
qed

lemma dec_enc_int [simp]: "dec_int (enc_int i @ t) = (i, t)"
  by (simp add: dec_int_def enc_int_def)

lemma dec_enc_str [simp]: "dec_str (enc_str s @ t) = (s, t)"
  by (simp add: dec_str_def enc_str_def)

definition enc_user_response :: "user_response \<Rightarrow> err + string" where
  "enc_user_response u =
     Inr (enc_str (ur_ID u) @ enc_str (ur_Name u) @ enc_str (ur_Email u) @
          enc_int (ur_CreatedAt u) @ enc_int (ur_UpdatedAt u) @ [])"

definition dec_user_response :: "string \<Rightarrow> err + user_response" where
  "dec_user_response s =
     (let (i, s1) = dec_str s; (n, s2) = dec_str s1; (e, s3) = dec_str s2;
          (c, s4) = dec_int s3; (u, s5) = dec_int s4
      in Inr \<lparr>ur_ID = i, ur_Name = n, ur_Email = e, ur_CreatedAt = c, ur_UpdatedAt = u\<rparr>)"

lemma user_response_codec: "enc_user_response u = Inr s \<Longrightarrow> s \<noteq> [] \<and> dec_user_response s = Inr u"
proof -
  assume "enc_user_response u = Inr s"
  then have s: "s = enc_str (ur_ID u) @ enc_str (ur_Name u) @ enc_str (ur_Email u) @
      enc_int (ur_CreatedAt u) @ enc_int (ur_UpdatedAt u) @ []"
    by (simp only: enc_user_response_def sum.inject)
  have "s \<noteq> []" unfolding s by (simp add: enc_str_def enc_nat_def)
  moreover have "dec_user_response s = Inr u"
    unfolding s dec_user_response_def by (simp only: dec_enc_str dec_enc_int Let_def prod.case) simp
  ultimately show ?thesis ..
qed

definition enc_welcome :: "welcome_email_payload \<Rightarrow> err + string" where
  "enc_welcome p = Inr (enc_str (wep_UserID p) @ enc_str (wep_Email p) @ enc_str (wep_UserName p) @ [])"

definition dec_welcome :: "string \<Rightarrow> err + welcome_email_payload" where
  "dec_welcome s =
     (let (i, s1) = dec_str s; (e, s2) = dec_str s1; (n, s3) = dec_str s2
      in Inr \<lparr>wep_UserID = i, wep_Email = e, wep_UserName = n\<rparr>)"

lemma welcome_codec: "enc_welcome p = Inr s \<Longrightarrow> dec_welcome s = Inr p"
proof -
  assume "enc_welcome p = Inr s"
  then have s: "s = enc_str (wep_UserID p) @ enc_str (wep_Email p) @ enc_str (wep_UserName p) @ []"
    by (simp only: enc_welcome_def sum.inject)
  show ?thesis
    unfolding s dec_welcome_def by (simp only: dec_enc_str Let_def prod.case) simp
qed

end
