(* ===== verification/Queue_Properties.thy ===== *)
theory Queue_Properties
  imports Queue_Factory Worker_Pool Sample_Codec
begin

text \<open>
  What the queues promise whatever the driver: the driver that each configuration gives, the life
  of a job in the Redis queue, the worker pool of \<open>pkg/worker\<close> against the channel machine, and
  what happens to a pool of workers that is started again.
\<close>

section \<open>The driver of a configuration\<close>

text \<open>The reference: the driver as a function of the setting, the database handle and the Redis client.\<close>

definition queue_of_setting ::
  "queue_config \<Rightarrow> 'w registry \<Rightarrow> 'j job_db option \<Rightarrow> 'd redis_client option \<Rightarrow> ('d, 'w, 'x) queue_instance" where
  "queue_of_setting cfg r db client =
     (let k = to_lower (queue_Driver cfg) in
      if k \<in> {[], ''database'', ''db''} \<and> db \<noteq> None then
        DatabaseQueue (NewDatabaseDriver
          \<lparr>dc_QueueName = queue_QueueName cfg, dc_Concurrency = queue_Concurrency cfg,
           dc_MaxAttempts = queue_MaxAttempts cfg,
           dc_PollInterval = duration_of (queue_PollIntervalMs cfg) millisecond\<rparr> (Some r))
      else if k = ''sync'' then SyncQueue (NewSyncDriver (Some r))
      else if k = ''redis'' \<and> IsEnabled client then
        RedisQueue (NewRedisDriver client
          \<lparr>rdc_QueueName = queue_QueueName cfg, rdc_Concurrency = queue_Concurrency cfg,
           rdc_MaxAttempts = queue_MaxAttempts cfg\<rparr> (Some r))
      else MemoryQueue (NewMemoryDriver (queue_Concurrency cfg) 1000 (Some r)))"

lemma to_lower_empty: "to_lower [] = []"
  by (simp add: to_lower_def)

lemma init_drivers_none:
  "k \<notin> {''database'', ''db'', ''memory'', ''sync'', ''redis''} \<Longrightarrow> queue_init_drivers k = None"
  using init_drivers_dom by (metis domIff)

lemma build_init:
  "build queue_init_drivers (Some DatabaseBuilder) cfg r db client = Ret (map_sum id DatabaseQueue (database_builder cfg r db))"
  "build queue_init_drivers (Some DbBuilder) cfg r db client = Ret (map_sum id DatabaseQueue (database_builder cfg r db))"
  "build queue_init_drivers (Some MemoryBuilder) cfg r db client = Ret (Inr (MemoryQueue (memory_builder cfg r)))"
  "build queue_init_drivers (Some SyncBuilder) cfg r db client = Ret (Inr (SyncQueue (NewSyncDriver (Some r))))"
  "build queue_init_drivers (Some RedisBuilder) cfg r db client = Ret (Inr
     (if IsEnabled client then RedisQueue (redis_builder cfg r client) else MemoryQueue (memory_builder cfg r)))"
  by (simp_all add: build_def leaf_build_def init_drivers_simps)

text \<open>
  C22. With the built-in drivers \<open>InitQueue\<close> neither fails nor panics, and gives what the reference
  gives: the database driver for \<open>database\<close> or \<open>db\<close> in any case and for no driver at all, if there
  is a database handle; the synchronous driver for \<open>sync\<close>; the Redis driver for \<open>redis\<close> when Redis
  is enabled; and the memory driver for everything else, also for a driver nobody registered, and
  for a database or Redis driver that cannot work.
\<close>

theorem queue_driver_of_setting:
  "InitQueue queue_init_drivers cfg reg db client =
     Ret (Inr (queue_of_setting cfg (registry_or_new reg) db client))"
proof -
  let ?k = "to_lower (queue_Driver cfg)" and ?r = "registry_or_new reg"
  have none: "database_builder cfg ?r None = Inl e \<longleftrightarrow> e = ErrNew ''queue: database driver requires non-nil *gorm.DB''"
    for e by (auto simp: database_builder_def)
  consider "?k \<in> {[], ''database'', ''db''}" | "?k \<in> {''memory'', ''sync'', ''redis''}"
    | "?k \<notin> {[], ''database'', ''db'', ''memory'', ''sync'', ''redis''}" by blast
  then show ?thesis
  proof cases
    case 1
    then show ?thesis
      by (cases db) (auto simp: InitQueue_def queue_driver_name_def queue_of_setting_def init_drivers_simps
          build_init database_builder_def memory_builder_def Let_def to_lower_empty)
  next
    case 2
    then show ?thesis
      by (auto simp: InitQueue_def queue_driver_name_def queue_of_setting_def init_drivers_simps
          build_init redis_builder_def memory_builder_def Let_def to_lower_empty)
  next
    case 3
    then show ?thesis
      by (simp add: InitQueue_def queue_driver_name_def queue_of_setting_def init_drivers_none init_drivers_simps
          build_init memory_builder_def Let_def)
  qed
qed

section \<open>Restarting workers\<close>

text \<open>
  Stopped workers can be started again, but not stopped again: for the database, memory and
  Redis drivers and for the pool of \<open>pkg/worker\<close>, \<open>Start\<close> after \<open>Stop\<close> succeeds and leaves the
  workers running, and the next \<open>Stop\<close> panics, since no \<open>Start\<close> makes a new quit channel.
\<close>

theorem restarted_workers_panic_on_stop:
  fixes D :: "'w database_driver" and M :: "'w memory_driver" and R :: "('d, 'w) redis_driver" and P :: "'w pool"
  shows "(dd_running D \<and> database_Stop done D = Ret (D', e) \<longrightarrow>
      snd (database_Start D') = None \<and> dd_running (fst (database_Start D')) \<and>
      \<not> returns (database_Stop done' (fst (database_Start D')))) \<and>
    (md_running M \<and> memory_Stop done M = Ret (M', e) \<longrightarrow>
      snd (memory_Start M') = None \<and> md_running (fst (memory_Start M')) \<and>
      \<not> returns (memory_Stop done' (fst (memory_Start M')))) \<and>
    (rd_running R \<and> redis_Stop done R = Ret (R', e) \<longrightarrow>
      snd (redis_Start R') = None \<and> rd_running (fst (redis_Start R')) \<and>
      \<not> returns (redis_Stop done' (fst (redis_Start R')))) \<and>
    (wp_running P \<and> pool_Stop P = Ret P' \<longrightarrow>
      wp_running (pool_Start P') \<and> \<not> returns (pool_Stop (pool_Start P')))"
proof (intro conjI [of "_ \<longrightarrow> _"] impI)
  assume "dd_running D \<and> database_Stop done D = Ret (D', e)"
  then show "snd (database_Start D') = None \<and> dd_running (fst (database_Start D')) \<and>
      \<not> returns (database_Stop done' (fst (database_Start D')))"
    using database_lifecycle.stopped_restart_panics by blast
next
  assume "md_running M \<and> memory_Stop done M = Ret (M', e)"
  then show "snd (memory_Start M') = None \<and> md_running (fst (memory_Start M')) \<and>
      \<not> returns (memory_Stop done' (fst (memory_Start M')))"
    using memory_lifecycle.stopped_restart_panics by blast
next
  assume "rd_running R \<and> redis_Stop done R = Ret (R', e)"
  then show "snd (redis_Start R') = None \<and> rd_running (fst (redis_Start R')) \<and>
      \<not> returns (redis_Stop done' (fst (redis_Start R')))"
    using redis_lifecycle.stopped_restart_panics by blast
next
  assume p: "wp_running P \<and> pool_Stop P = Ret P'"
  then have "bind_outcome (pool_Stop P) (\<lambda>p'. Ret (p', None)) = Ret (P', None)" by simp
  from pool_lifecycle.stopped_restart_panics [OF _ this] p
  show "wp_running (pool_Start P') \<and> \<not> returns (pool_Stop (pool_Start P'))"
    by (cases "pool_Stop (pool_Start P')") auto
qed

theorem restarted_workers_panic_on_stop_witness:
  "\<exists>D. database_Stop True (fst (database_Start (NewDatabaseDriver
       \<lparr>dc_QueueName = [], dc_Concurrency = 2, dc_MaxAttempts = 3, dc_PollInterval = 0\<rparr> (None :: nat registry option)))) =
     Ret (D, None) \<and> \<not> returns (database_Stop True (fst (database_Start D)))"
proof -
  let ?D = "NewDatabaseDriver \<lparr>dc_QueueName = [], dc_Concurrency = 2, dc_MaxAttempts = 3, dc_PollInterval = 0\<rparr>
    (None :: nat registry option)"
  have run: "dd_running (fst (database_Start ?D))" by (simp add: database_Start_def NewDatabaseDriver_def)
  obtain D where D: "database_Stop True (fst (database_Start ?D)) = Ret (D, None)"
    by (simp add: database_Start_def database_Stop_def NewDatabaseDriver_def Let_def)
  with restarted_workers_panic_on_stop [of "fst (database_Start ?D)" True D None True] run show ?thesis by blast
qed

section \<open>The worker pool against the channel machine\<close>

text \<open>
  C21. The pool of \<open>pkg/worker\<close> refines the channel machine: whatever callers, workers and \<open>Stop\<close> do,
  and in whatever order, every state it reaches is one of the machine with the pool's queue size as
  capacity. So the jobs are taken in the order in which they were accepted, none twice and none
  dropped: every accepted job is finished, being executed or still queued; and the queue holds at
  most its size.
\<close>

theorem worker_pool_refines_channel:
  assumes "wpool_step\<^sup>*\<^sup>* (pool_boot (NewPool c n) w) s"
  defines "cap \<equiv> (if n \<le> 0 then 100 else nat n)"
  shows "pool_reach cap (wpool_view s) \<and>
    wps_accepted s = wps_taken s @ wp_jobQueue (wps_pool s) \<and>
    mset (wps_accepted s) = mset (wps_finished s) + executing (wps_workers s) + mset (wp_jobQueue (wps_pool s)) \<and>
    length (wp_jobQueue (wps_pool s)) \<le> cap"
  using worker_pool.reach_view [OF assms(1)] worker_pool.reach_fifo [OF assms(1)]
    worker_pool.reach_conserves [OF assms(1)] worker_pool.reach_bounded [OF assms(1)]
  by (simp add: cap_def)

definition counting_job :: "nat pool_job" where
  "counting_job = \<lparr>pj_Name = ''count'', pj_Execute = (\<lambda>ctx n. (Suc n, Ret None))\<rparr>"

theorem worker_pool_refines_channel_witness:
  "\<exists>s. wpool_step\<^sup>*\<^sup>* (pool_boot (NewPool 1 2) (0 :: nat)) s \<and> wps_accepted s = [counting_job] \<and>
    pool_reach 2 (wpool_view s)"
proof -
  let ?boot = "pool_boot (NewPool 1 2) (0 :: nat)"
  let ?s = "pool_sys_dispatch counting_job (pool_sys_start ?boot)"
  have "wpool_step ?boot (pool_sys_start ?boot)"
    using wpool_step.start [of ?boot] by (simp add: pool_boot_def)
  moreover have "wpool_step (pool_sys_start ?boot) ?s"
    using wpool_step.dispatch [of "pool_sys_start ?boot" counting_job] by (simp add: pool_boot_def pool_sys_start_def)
  ultimately have r: "wpool_step\<^sup>*\<^sup>* ?boot ?s" by (blast intro: rtranclp.intros)
  have "wps_accepted ?s = [counting_job]"
    by (simp add: pool_sys_dispatch_def pool_Dispatch_def pool_sys_start_def pool_Start_def pool_boot_def NewPool_def)
  with worker_pool_refines_channel [OF r] r show ?thesis by (intro exI [of _ ?s]) (simp)
qed

text \<open>
  The pool itself never panics if it was started at most once: whatever callers, workers and \<open>Stop\<close>
  do, no goroutine sends on the closed queue and no channel is closed twice, so the process can end only
  by the panic of a job; a \<open>Dispatch\<close> at any moment returns, and after \<open>Stop\<close> it says that it did not
  take the job.
\<close>

theorem first_life_never_panics:
  assumes "wpool_step\<^sup>*\<^sup>* (pool_boot (NewPool c n) w) s" "wps_starts s \<le> 1"
  shows "(wps_crashed s \<longrightarrow> pool_job_panicked s) \<and>
    returns (pool_Dispatch job (wps_pool s)) \<and> returns (pool_Stop (wps_pool s)) \<and>
    (wp_quit (wps_pool s) \<longrightarrow> pool_Dispatch job (wps_pool s) = Ret (wps_pool s, False))"
  using pool_life_reach [OF assms(1)] assms(2)
  by (auto simp: pool_life_ok_def pool_Dispatch_def pool_Stop_def pool_stop_quit_def pool_stop_close_def)

theorem first_life_never_panics_witness:
  "\<exists>s. wpool_step\<^sup>*\<^sup>* (pool_boot (NewPool 1 2) (0 :: nat)) s \<and> wps_starts s = 1 \<and> wp_quit (wps_pool s) \<and>
    pool_Dispatch counting_job (wps_pool s) = Ret (wps_pool s, False)"
proof -
  let ?boot = "pool_boot (NewPool 1 2) (0 :: nat)"
  let ?up = "pool_sys_start ?boot"
  let ?down = "pool_sys_stop_quit ?up"
  have "wpool_step ?boot ?up" by (rule wpool_step.start) (simp_all add: pool_boot_def)
  moreover have "wpool_step ?up ?down"
    by (rule wpool_step.stop_quit) (simp_all add: pool_boot_def pool_sys_start_def)
  ultimately have r: "wpool_step\<^sup>*\<^sup>* ?boot ?down" by (blast intro: rtranclp.intros)
  moreover have "wps_starts ?down = 1" "wp_quit (wps_pool ?down)"
    by (simp_all add: pool_sys_stop_quit_def pool_stop_quit_def pool_sys_start_def pool_Start_def pool_boot_def
        NewPool_def)
  moreover from first_life_never_panics [OF r, of counting_job] this
  have "pool_Dispatch counting_job (wps_pool ?down) = Ret (wps_pool ?down, False)" by simp
  ultimately show ?thesis by blast
qed

section \<open>A failing job in the Redis queue\<close>

text \<open>
  The error of the push that ends the sleep of a retry is dropped: the server is what the failed push
  left, and the message is gone from the memory of the process.
\<close>

lemma failing_push_loses_retry:
  assumes "Underlying (rd_client drv) = Some R" "i < length (rs_delayed s)" "rs_delayed s ! i = (due, b)" "due \<le> now"
    and "ro_LPush R (rs_server s) (rd_queueKey drv) b = (d', Some e)"
  shows "redis_timer_fire drv i now s = Some (s\<lparr>rs_server := d', rs_delayed := remove_at i (rs_delayed s)\<rparr>)"
  using assms by (simp add: redis_timer_fire_def rdb_def)


definition enc_redis_message :: "redis_job_message \<Rightarrow> err + string" where
  "enc_redis_message m =
     Inr (enc_str (rjm_ID m) @ enc_str (rjm_Name m) @ enc_str (rjm_Payload m) @ enc_int (rjm_Attempts m) @
          enc_int (rjm_MaxAttempts m) @ enc_int (rjm_CreatedAt m) @ [])"

definition dec_redis_message :: "string \<Rightarrow> err + redis_job_message" where
  "dec_redis_message s =
     (let (i, s1) = dec_str s; (n, s2) = dec_str s1; (p, s3) = dec_str s2; (a, s4) = dec_int s3;
          (m, s5) = dec_int s4; (c, s6) = dec_int s5
      in Inr \<lparr>rjm_ID = i, rjm_Name = n, rjm_Payload = p, rjm_Attempts = a, rjm_MaxAttempts = m, rjm_CreatedAt = c\<rparr>)"

lemma redis_message_codec: "\<exists>b. enc_redis_message m = Inr b \<and> dec_redis_message b = Inr m"
  unfolding enc_redis_message_def dec_redis_message_def
  by (intro exI conjI, rule refl) (simp only: dec_enc_str dec_enc_int Let_def prod.case, simp)

text \<open>A handler that counts its calls and fails.\<close>

definition counting_registry :: "nat registry" where
  "counting_registry = Register NewRegistry ''job'' (\<lambda>ctx raw w. (Suc w, Ret (Some (ErrNew ''no''))))"

definition failing_driver :: "(mem_server, nat) redis_driver" where
  "failing_driver = NewRedisDriver (Some \<lparr>rc_rdb = Some mem_redis, rc_enabled = True\<rparr>)
     \<lparr>rdc_QueueName = [], rdc_Concurrency = 1, rdc_MaxAttempts = 3\<rparr> (Some counting_registry)"


end
