(* ===== verification/User_Repository.thy ===== *)
theory User_Repository
  imports Domain
begin

text \<open>
  \<open>internal/repository/gorm/user_repository.go\<close>: the repository of users on the SQL table
  \<open>users\<close>. GORM and the database are the record \<open>user_db\<close> of the calls the repository makes.
  The locale \<open>user_store\<close> states their documented behaviour on the rows of the table:

  \<^item> \<open>First\<close> returns a row that satisfies the condition, or \<open>gorm.ErrRecordNotFound\<close> if none
    does; \<open>Create\<close> inserts a row under a new key; \<open>Save\<close> writes all fields under the key and
    inserts the row if it is missing; \<open>Delete\<close> reports how many rows it removed;
  \<^item> the unique index on \<open>email\<close> holds in every state, so that a write that would break it fails;
  \<^item> \<open>Limit\<close>, \<open>Offset\<close> and \<open>Order\<close> read a window of one listing of the rows by descending
    creation time; two reads of the same state see the same listing.
  A call that fails changes nothing. Addresses are compared as they are written: so do SQLite and
  PostgreSQL, but not MySQL under its default collation, which ignores the case of letters. The repository interprets the contract \<open>user_repository\<close>,
  which is what the use cases rely on. \<open>mem_user_db\<close> is a table in memory that meets
  \<open>user_store\<close>.
\<close>

section \<open>The calls\<close>

record 'd user_db =
  udb_Create :: "'d \<Rightarrow> user \<Rightarrow> 'd \<times> err option"
  udb_First :: "'d \<Rightarrow> (user \<Rightarrow> bool) \<Rightarrow> err + user"
  udb_Count :: "'d \<Rightarrow> err + int"
  udb_Find :: "'d \<Rightarrow> int \<Rightarrow> int \<Rightarrow> err + user list"
  udb_Save :: "'d \<Rightarrow> user \<Rightarrow> 'd \<times> err option"
  udb_Delete :: "'d \<Rightarrow> string \<Rightarrow> 'd \<times> (err + int)"

definition email_index :: "(string \<rightharpoonup> user) \<Rightarrow> bool" where
  "email_index t \<longleftrightarrow>
     (\<forall>i j u v. t i = Some u \<longrightarrow> t j = Some v \<longrightarrow> user_Email u = user_Email v \<longrightarrow> i = j)"

definition newest_first :: "user list \<Rightarrow> bool" where
  "newest_first us \<longleftrightarrow> sorted (map (\<lambda>u. - user_CreatedAt u) us)"

definition window :: "int \<Rightarrow> int \<Rightarrow> 'a list \<Rightarrow> 'a list" where
  "window limit offset xs = take (nat limit) (drop (nat offset) xs)"

locale user_store =
  fixes U :: "'d user_db"
    and rows :: "'d \<Rightarrow> string \<rightharpoonup> user"
    and listing :: "'d \<Rightarrow> user list"
  assumes row_key: "rows d i = Some u \<Longrightarrow> user_ID u = i"
    and rows_finite: "finite (dom (rows d))"
    and unique_email: "email_index (rows d)"
    and listing_rows: "set (listing d) = ran (rows d)"
    and listing_distinct: "distinct (listing d)"
    and listing_order: "newest_first (listing d)"
    and create_ok: "udb_Create U d u = (d', None) \<Longrightarrow>
      rows d (user_ID u) = None \<and> rows d' = (rows d)(user_ID u \<mapsto> u)"
    and create_err: "udb_Create U d u = (d', Some e) \<Longrightarrow> rows d' = rows d"
    and first_ok: "udb_First U d P = Inr u \<Longrightarrow> rows d (user_ID u) = Some u \<and> P u"
    and first_none: "udb_First U d P = Inl e \<Longrightarrow> errors_is e GormErrRecordNotFound \<Longrightarrow>
      rows d i = Some u \<Longrightarrow> \<not> P u"
    and first_foreign: "udb_First U d P \<noteq> Inl ErrNotFound"
    and count_ok: "udb_Count U d = Inr n \<Longrightarrow> n = int (card (dom (rows d)))"
    and find_ok: "udb_Find U d limit offset = Inr us \<Longrightarrow> 0 \<le> limit \<Longrightarrow>
      us = window limit offset (listing d)"
    and save_ok: "udb_Save U d u = (d', None) \<Longrightarrow> rows d' = (rows d)(user_ID u \<mapsto> u)"
    and save_err: "udb_Save U d u = (d', Some e) \<Longrightarrow> rows d' = rows d"
    and delete_ok: "udb_Delete U d i = (d', Inr n) \<Longrightarrow>
      rows d' = (rows d)(i := None) \<and> (n = 0 \<longleftrightarrow> rows d i = None)"
    and delete_err: "udb_Delete U d i = (d', Inl e) \<Longrightarrow> rows d' = rows d"

text \<open>A database that is up: reads succeed, and writes succeed unless they break the index or the key.\<close>

locale reliable_user_store = user_store +
  assumes create_up: "rows d (user_ID u) = None \<Longrightarrow> email_index ((rows d)(user_ID u \<mapsto> u)) \<Longrightarrow>
      \<exists>d'. udb_Create U d u = (d', None)"
    and first_up: "udb_First U d P = Inl e \<Longrightarrow> e = GormErrRecordNotFound"
    and count_up: "\<exists>n. udb_Count U d = Inr n"
    and find_up: "\<exists>us. udb_Find U d limit offset = Inr us"
    and save_up: "email_index ((rows d)(user_ID u \<mapsto> u)) \<Longrightarrow> \<exists>d'. udb_Save U d u = (d', None)"
    and delete_up: "\<exists>d' n. udb_Delete U d i = (d', Inr n)"

section \<open>The repository\<close>

definition user_Create :: "'d user_db \<Rightarrow> 'd \<Rightarrow> user \<Rightarrow> 'd \<times> err option" where
  "user_Create U d u =
     (case udb_Create U d u of (d', Some e) \<Rightarrow> (d', Some e) | (d', None) \<Rightarrow> (d', None))"

definition not_found :: "err + 'a \<Rightarrow> err + 'a" where
  "not_found r =
     (case r of
        Inl e \<Rightarrow> if errors_is e GormErrRecordNotFound then Inl ErrNotFound else Inl e
      | Inr x \<Rightarrow> Inr x)"

definition user_FindByID :: "'d user_db \<Rightarrow> 'd \<Rightarrow> string \<Rightarrow> err + user" where
  "user_FindByID U d i = not_found (udb_First U d (\<lambda>u. user_ID u = i))"

definition user_FindByEmail :: "'d user_db \<Rightarrow> 'd \<Rightarrow> string \<Rightarrow> err + user" where
  "user_FindByEmail U d email = not_found (udb_First U d (\<lambda>u. user_Email u = email))"

definition user_FindAll :: "'d user_db \<Rightarrow> 'd \<Rightarrow> int \<Rightarrow> int \<Rightarrow> err + (user list \<times> int)" where
  "user_FindAll U d limit offset =
     (case udb_Count U d of
        Inl e \<Rightarrow> Inl e
      | Inr n \<Rightarrow>
          (case udb_Find U d limit offset of Inl e \<Rightarrow> Inl e | Inr us \<Rightarrow> Inr (us, n)))"

definition user_Update :: "'d user_db \<Rightarrow> 'd \<Rightarrow> user \<Rightarrow> 'd \<times> err option" where
  "user_Update U d u =
     (case udb_Save U d u of (d', Some e) \<Rightarrow> (d', Some e) | (d', None) \<Rightarrow> (d', None))"

definition user_Delete :: "'d user_db \<Rightarrow> 'd \<Rightarrow> string \<Rightarrow> 'd \<times> err option" where
  "user_Delete U d i =
     (case udb_Delete U d i of
        (d', Inl e) \<Rightarrow> (d', Some e)
      | (d', Inr n) \<Rightarrow> if n = 0 then (d', Some ErrNotFound) else (d', None))"

definition NewUserRepository :: "'d user_db \<Rightarrow> 'd user_repository_ops" where
  "NewUserRepository U =
     \<lparr>repo_Create = user_Create U, repo_FindByID = user_FindByID U,
      repo_FindByEmail = user_FindByEmail U, repo_FindAll = user_FindAll U,
      repo_Update = user_Update U, repo_Delete = user_Delete U\<rparr>"

section \<open>The contract of the repository\<close>

locale user_repository =
  fixes repo :: "'r user_repository_ops"
    and users :: "'r \<Rightarrow> string \<rightharpoonup> user"
    and listed :: "'r \<Rightarrow> user list"
  assumes user_key: "users r i = Some u \<Longrightarrow> user_ID u = i"
    and users_finite: "finite (dom (users r))"
    and emails_unique: "email_index (users r)"
    and listed_users: "set (listed r) = ran (users r)"
    and listed_distinct: "distinct (listed r)"
    and listed_order: "newest_first (listed r)"
    and repo_create_ok: "repo_Create repo r u = (r', None) \<Longrightarrow>
      users r (user_ID u) = None \<and> users r' = (users r)(user_ID u \<mapsto> u)"
    and repo_create_err: "repo_Create repo r u = (r', Some e) \<Longrightarrow> users r' = users r"
    and repo_id_ok: "repo_FindByID repo r i = Inr u \<Longrightarrow> users r i = Some u"
    and repo_id_none: "repo_FindByID repo r i = Inl ErrNotFound \<Longrightarrow> users r i = None"
    and repo_email_ok: "repo_FindByEmail repo r m = Inr u \<Longrightarrow>
      users r (user_ID u) = Some u \<and> user_Email u = m"
    and repo_email_none: "repo_FindByEmail repo r m = Inl ErrNotFound \<Longrightarrow> users r i = Some u \<Longrightarrow>
      user_Email u \<noteq> m"
    and repo_all_ok: "repo_FindAll repo r limit offset = Inr (us, n) \<Longrightarrow> 0 \<le> limit \<Longrightarrow>
      us = window limit offset (listed r) \<and> n = int (card (dom (users r)))"
    and repo_update_ok: "repo_Update repo r u = (r', None) \<Longrightarrow> users r' = (users r)(user_ID u \<mapsto> u)"
    and repo_update_err: "repo_Update repo r u = (r', Some e) \<Longrightarrow> users r' = users r"
    and repo_delete_ok: "repo_Delete repo r i = (r', None) \<Longrightarrow>
      users r i \<noteq> None \<and> users r' = (users r)(i := None)"
    and repo_delete_err: "repo_Delete repo r i = (r', Some e) \<Longrightarrow> users r' = users r"

locale reliable_user_repository = user_repository +
  assumes repo_create_up: "users r (user_ID u) = None \<Longrightarrow> email_index ((users r)(user_ID u \<mapsto> u)) \<Longrightarrow>
      \<exists>r'. repo_Create repo r u = (r', None)"
    and repo_id_up: "repo_FindByID repo r i = Inl e \<Longrightarrow> e = ErrNotFound"
    and repo_email_up: "repo_FindByEmail repo r m = Inl e \<Longrightarrow> e = ErrNotFound"
    and repo_all_up: "\<exists>us n. repo_FindAll repo r limit offset = Inr (us, n)"
    and repo_update_up: "email_index ((users r)(user_ID u \<mapsto> u)) \<Longrightarrow> \<exists>r'. repo_Update repo r u = (r', None)"
    and repo_delete_up: "users r i \<noteq> None \<Longrightarrow> \<exists>r'. repo_Delete repo r i = (r', None)"
    and repo_delete_missing: "users r i = None \<Longrightarrow> \<exists>r'. repo_Delete repo r i = (r', Some ErrNotFound)"

section \<open>The repository meets its contract\<close>

lemma not_found_Inr [simp]: "not_found r = Inr x \<longleftrightarrow> r = Inr x"
  by (auto simp: not_found_def split: sum.splits)

lemma not_found_ErrNotFound:
  "not_found r = Inl ErrNotFound \<longleftrightarrow>
   (\<exists>e. r = Inl e \<and> (errors_is e GormErrRecordNotFound \<or> e = ErrNotFound))"
  by (auto simp: not_found_def split: sum.splits)

context user_store
begin

lemma rows_delete_missing: "rows d i = None \<Longrightarrow> (rows d)(i := None) = rows d"
  by auto

lemma find_by_id: "user_FindByID U d i = Inr u \<Longrightarrow> rows d i = Some u"
  unfolding user_FindByID_def using first_ok by fastforce

lemma find_by_email: "user_FindByEmail U d m = Inr u \<Longrightarrow> rows d (user_ID u) = Some u \<and> user_Email u = m"
  unfolding user_FindByEmail_def using first_ok by fastforce

lemma find_all:
  "user_FindAll U d limit offset = Inr (us, n) \<Longrightarrow> 0 \<le> limit \<Longrightarrow>
   us = window limit offset (listing d) \<and> n = int (card (dom (rows d)))"
  by (auto simp: user_FindAll_def split: sum.splits dest: find_ok count_ok)

lemma delete_cases:
  "user_Delete U d i = (d', None) \<Longrightarrow> rows d i \<noteq> None \<and> rows d' = (rows d)(i := None)"
  "user_Delete U d i = (d', Some e) \<Longrightarrow> rows d' = rows d"
proof -
  obtain d1 r where del: "udb_Delete U d i = (d1, r)" by (cases "udb_Delete U d i")
  show "user_Delete U d i = (d', None) \<Longrightarrow> rows d i \<noteq> None \<and> rows d' = (rows d)(i := None)"
    using del delete_ok [of d i d1]
    by (cases r) (auto simp: user_Delete_def split: if_splits)
  show "user_Delete U d i = (d', Some e) \<Longrightarrow> rows d' = rows d"
  proof (cases r)
    case (Inl a)
    assume "user_Delete U d i = (d', Some e)"
    with del Inl delete_err [of d i d1 a] show ?thesis by (simp add: user_Delete_def)
  next
    case (Inr n)
    assume u: "user_Delete U d i = (d', Some e)"
    with del Inr have "n = 0" "d' = d1" by (auto simp: user_Delete_def split: if_splits)
    with del Inr delete_ok [of d i d1 n] rows_delete_missing show ?thesis by simp
  qed
qed

end

sublocale user_store \<subseteq> repository: user_repository "NewUserRepository U" rows listing
proof unfold_locales
  fix r i
  assume "repo_FindByID (NewUserRepository U) r i = Inl ErrNotFound"
  then obtain e where "udb_First U r (\<lambda>u. user_ID u = i) = Inl e" "errors_is e GormErrRecordNotFound"
    using first_foreign [of r] by (auto simp: NewUserRepository_def user_FindByID_def not_found_ErrNotFound)
  then show "rows r i = None"
    using first_none [of r "\<lambda>u. user_ID u = i" e i] row_key [of r i] by (cases "rows r i") auto
next
  fix r m i u
  assume "repo_FindByEmail (NewUserRepository U) r m = Inl ErrNotFound" and u: "rows r i = Some u"
  then obtain e where "udb_First U r (\<lambda>u. user_Email u = m) = Inl e" "errors_is e GormErrRecordNotFound"
    using first_foreign [of r] by (auto simp: NewUserRepository_def user_FindByEmail_def not_found_ErrNotFound)
  then show "user_Email u \<noteq> m"
    using first_none [of r "\<lambda>u. user_Email u = m" e i u] u by simp
qed (auto simp: NewUserRepository_def user_Create_def user_Update_def row_key rows_finite unique_email
    listing_rows listing_distinct listing_order
    dest: find_by_id find_by_email find_all delete_cases create_ok create_err save_ok save_err
    split: prod.splits option.splits)

sublocale reliable_user_store \<subseteq>
  repository: reliable_user_repository "NewUserRepository U" rows listing
proof unfold_locales
  fix r u
  assume "rows r (user_ID u) = None" "email_index ((rows r)(user_ID u \<mapsto> u))"
  then show "\<exists>r'. repo_Create (NewUserRepository U) r u = (r', None)"
    using create_up [of r u] by (auto simp: NewUserRepository_def user_Create_def)
next
  fix r u
  assume "email_index ((rows r)(user_ID u \<mapsto> u))"
  then show "\<exists>r'. repo_Update (NewUserRepository U) r u = (r', None)"
    using save_up [of r u] by (auto simp: NewUserRepository_def user_Update_def)
next
  fix r i
  assume "rows r i \<noteq> None"
  moreover obtain d' n where "udb_Delete U r i = (d', Inr n)" using delete_up by blast
  ultimately show "\<exists>r'. repo_Delete (NewUserRepository U) r i = (r', None)"
    using delete_ok [of r i d' n] by (auto simp: NewUserRepository_def user_Delete_def)
next
  fix r i
  assume "rows r i = None"
  moreover obtain d' n where "udb_Delete U r i = (d', Inr n)" using delete_up by blast
  ultimately show "\<exists>r'. repo_Delete (NewUserRepository U) r i = (r', Some ErrNotFound)"
    using delete_ok [of r i d' n] by (auto simp: NewUserRepository_def user_Delete_def)
next
  fix r limit offset
  show "\<exists>us n. repo_FindAll (NewUserRepository U) r limit offset = Inr (us, n)"
    using count_up [of r] find_up [of r limit offset]
    by (auto simp: NewUserRepository_def user_FindAll_def)
qed (auto simp: NewUserRepository_def user_FindByID_def user_FindByEmail_def not_found_def
    split: sum.splits if_splits dest: first_up)

section \<open>A table in memory\<close>

text \<open>
  The rows are kept in a list, newest first; a list that is not one (a repeated key or email, a
  wrong order) stands for the empty table.
\<close>

definition mem_users_ok :: "user list \<Rightarrow> bool" where
  "mem_users_ok us \<longleftrightarrow>
     distinct (map user_ID us) \<and> distinct (map user_Email us) \<and> newest_first us"

definition mem_listing :: "user list \<Rightarrow> user list" where
  "mem_listing us = (if mem_users_ok us then us else [])"

definition mem_user_rows :: "user list \<Rightarrow> string \<rightharpoonup> user" where
  "mem_user_rows us = map_of (map (\<lambda>u. (user_ID u, u)) (mem_listing us))"

definition mem_insert :: "user \<Rightarrow> user list \<Rightarrow> user list" where
  "mem_insert u us = insort_key (\<lambda>u. - user_CreatedAt u) u us"

definition mem_remove :: "string \<Rightarrow> user list \<Rightarrow> user list" where
  "mem_remove i us = filter (\<lambda>u. user_ID u \<noteq> i) us"

definition mem_user_db :: "user list user_db" where
  "mem_user_db =
     \<lparr>udb_Create = (\<lambda>d u.
        if user_ID u \<in> user_ID ` set (mem_listing d) \<or> user_Email u \<in> user_Email ` set (mem_listing d)
        then (d, Some (ErrNew ''UNIQUE constraint failed'')) else (mem_insert u (mem_listing d), None)),
      udb_First = (\<lambda>d P. case filter P (mem_listing d) of [] \<Rightarrow> Inl GormErrRecordNotFound | u # us \<Rightarrow> Inr u),
      udb_Count = (\<lambda>d. Inr (int (length (mem_listing d)))),
      udb_Find = (\<lambda>d limit offset. Inr (window limit offset (mem_listing d))),
      udb_Save = (\<lambda>d u. let us = mem_remove (user_ID u) (mem_listing d) in
        if user_Email u \<in> user_Email ` set us
        then (d, Some (ErrNew ''UNIQUE constraint failed'')) else (mem_insert u us, None)),
      udb_Delete = (\<lambda>d i. let us = mem_remove i (mem_listing d) in
        (us, Inr (int (length (mem_listing d)) - int (length us))))\<rparr>"

lemma mem_listing_ok [simp]: "mem_users_ok (mem_listing us)"
  by (simp add: mem_listing_def mem_users_ok_def newest_first_def)

lemma mem_listing_id [simp]: "mem_users_ok us \<Longrightarrow> mem_listing us = us"
  by (simp add: mem_listing_def)

lemma mem_user_rows_iff: "mem_user_rows us i = Some u \<longleftrightarrow> u \<in> set (mem_listing us) \<and> user_ID u = i"
proof -
  have "distinct (map fst (map (\<lambda>u. (user_ID u, u)) (mem_listing us)))"
    using mem_listing_ok [of us] by (simp add: mem_users_ok_def comp_def)
  from map_of_eq_Some_iff [OF this] show ?thesis
    unfolding mem_user_rows_def by auto
qed

lemma mem_user_rows_None: "mem_user_rows us i = None \<longleftrightarrow> i \<notin> user_ID ` set (mem_listing us)"
  using mem_user_rows_iff [of us i] by (cases "mem_user_rows us i") force+

lemma mem_insert_ok:
  assumes "mem_users_ok us" "user_ID u \<notin> user_ID ` set us" "user_Email u \<notin> user_Email ` set us"
  shows "mem_users_ok (mem_insert u us)"
proof -
  let ?v = "mem_insert u us"
  have m: "mset ?v = mset (u # us)" by (simp add: mem_insert_def)
  then have "mset (map user_ID ?v) = mset (map user_ID (u # us))"
    "mset (map user_Email ?v) = mset (map user_Email (u # us))"
    by (simp_all add: mset_map)
  then have "distinct (map user_ID ?v) = distinct (map user_ID (u # us))"
    "distinct (map user_Email ?v) = distinct (map user_Email (u # us))"
    by (metis mset_eq_imp_distinct_iff)+
  with assms show ?thesis
    by (auto simp: mem_users_ok_def newest_first_def mem_insert_def sorted_insort_key)
qed

lemma mem_remove_ok: "mem_users_ok us \<Longrightarrow> mem_users_ok (mem_remove i us)"
  by (auto simp: mem_users_ok_def mem_remove_def newest_first_def distinct_map_filter sorted_filter)

lemma mem_rows_insert:
  assumes "mem_users_ok us" "user_ID u \<notin> user_ID ` set us" "user_Email u \<notin> user_Email ` set us"
  shows "mem_user_rows (mem_insert u us) = (mem_user_rows us)(user_ID u \<mapsto> u)"
proof
  fix i
  have fresh: "v \<in> set us \<Longrightarrow> user_ID v \<noteq> user_ID u" for v using assms(2) by (metis imageI)
  have "mem_user_rows (mem_insert u us) i = Some v \<longleftrightarrow> ((mem_user_rows us)(user_ID u \<mapsto> u)) i = Some v" for v
    using assms(1) mem_insert_ok [OF assms] fresh [of v]
    by (auto simp: mem_user_rows_iff mem_insert_def set_insort_key split: if_splits)
  then show "mem_user_rows (mem_insert u us) i = ((mem_user_rows us)(user_ID u \<mapsto> u)) i"
    by (metis not_None_eq)
qed

lemma mem_rows_remove:
  assumes "mem_users_ok us"
  shows "mem_user_rows (mem_remove i us) = (mem_user_rows us)(i := None)"
proof
  fix k
  have "mem_user_rows (mem_remove i us) k = Some v \<longleftrightarrow> ((mem_user_rows us)(i := None)) k = Some v" for v
    using assms mem_remove_ok [OF assms, of i]
    by (auto simp: mem_user_rows_iff mem_remove_def split: if_splits)
  then show "mem_user_rows (mem_remove i us) k = ((mem_user_rows us)(i := None)) k"
    by (metis not_None_eq)
qed

lemma mem_dom_card: "card (dom (mem_user_rows us)) = length (mem_listing us)"
proof -
  have "dom (mem_user_rows us) = set (map user_ID (mem_listing us))"
    by (auto simp: mem_user_rows_iff domIff)
  moreover have "distinct (map user_ID (mem_listing us))"
    using mem_listing_ok [of us] by (simp add: mem_users_ok_def)
  ultimately show ?thesis using distinct_card [of "map user_ID (mem_listing us)"] by simp
qed

lemma mem_email_index: "email_index (mem_user_rows us)"
proof -
  have d: "distinct (map user_Email (mem_listing us))"
    using mem_listing_ok [of us] by (simp add: mem_users_ok_def)
  show ?thesis
    unfolding email_index_def mem_user_rows_iff
    using d by (metis distinct_map inj_onD)
qed

lemma mem_email_fresh:
  assumes "email_index ((mem_user_rows d)(user_ID u \<mapsto> u))"
  shows "user_Email u \<notin> user_Email ` set (mem_remove (user_ID u) (mem_listing d))"
proof
  assume "user_Email u \<in> user_Email ` set (mem_remove (user_ID u) (mem_listing d))"
  then obtain v where v: "v \<in> set (mem_listing d)" "user_ID v \<noteq> user_ID u" "user_Email v = user_Email u"
    by (auto simp: mem_remove_def)
  then have "((mem_user_rows d)(user_ID u \<mapsto> u)) (user_ID v) = Some v"
    by (simp add: mem_user_rows_iff)
  with assms v show False
    unfolding email_index_def by (metis fun_upd_same)
qed

lemma mem_save:
  assumes "user_Email u \<notin> user_Email ` set (mem_remove (user_ID u) (mem_listing d))"
  shows "mem_user_rows (mem_insert u (mem_remove (user_ID u) (mem_listing d))) =
    (mem_user_rows d)(user_ID u \<mapsto> u)"
proof -
  let ?us = "mem_remove (user_ID u) (mem_listing d)"
  have "mem_user_rows ?us = (mem_user_rows (mem_listing d))(user_ID u := None)"
    by (rule mem_rows_remove) simp
  moreover have "mem_user_rows (mem_listing d) = mem_user_rows d"
    by (simp add: mem_user_rows_def)
  moreover have "mem_user_rows (mem_insert u ?us) = (mem_user_rows ?us)(user_ID u \<mapsto> u)"
    using assms by (intro mem_rows_insert mem_remove_ok) (auto simp: mem_remove_def)
  ultimately show ?thesis by simp
qed

lemma mem_rows_listing [simp]: "mem_user_rows (mem_listing d) = mem_user_rows d"
  by (simp add: mem_user_rows_def)

lemma mem_create:
  assumes "user_ID u \<notin> user_ID ` set (mem_listing d)" "user_Email u \<notin> user_Email ` set (mem_listing d)"
  shows "mem_user_rows (mem_insert u (mem_listing d)) = (mem_user_rows d)(user_ID u \<mapsto> u)"
  using mem_rows_insert [OF mem_listing_ok assms] by simp

lemma mem_first_ok: "udb_First mem_user_db d P = Inr u \<Longrightarrow> mem_user_rows d (user_ID u) = Some u \<and> P u"
proof -
  assume "udb_First mem_user_db d P = Inr u"
  then have "u \<in> set (filter P (mem_listing d))"
    by (auto simp: mem_user_db_def split: list.splits simp del: set_filter)
  then show ?thesis by (simp add: mem_user_rows_iff)
qed

lemma mem_first_err: "udb_First mem_user_db d P = Inl e \<Longrightarrow>
  e = GormErrRecordNotFound \<and> (\<forall>i u. mem_user_rows d i = Some u \<longrightarrow> \<not> P u)"
  by (auto simp: mem_user_db_def mem_user_rows_iff filter_empty_conv split: list.splits)

lemma mem_delete:
  "udb_Delete mem_user_db d i = (d', Inr n) \<Longrightarrow>
   mem_user_rows d' = (mem_user_rows d)(i := None) \<and> (n = 0 \<longleftrightarrow> mem_user_rows d i = None)"
proof -
  assume del: "udb_Delete mem_user_db d i = (d', Inr n)"
  let ?us = "mem_remove i (mem_listing d)"
  have d': "d' = ?us" and n: "n = int (length (mem_listing d)) - int (length ?us)"
    using del by (auto simp: mem_user_db_def Let_def)
  have "length (mem_listing d) = length ?us \<longleftrightarrow> i \<notin> user_ID ` set (mem_listing d)"
    unfolding mem_remove_def
    by (metis (mono_tags, lifting) filter_True filter_id_conv imageE imageI length_filter_less less_irrefl)
  with n have "n = 0 \<longleftrightarrow> mem_user_rows d i = None"
    by (simp add: mem_user_rows_None)
  moreover have "mem_user_rows d' = (mem_user_rows d)(i := None)"
    unfolding d' using mem_rows_remove [OF mem_listing_ok, of i d] by simp
  ultimately show ?thesis by simp
qed

interpretation mem_users: reliable_user_store mem_user_db mem_user_rows mem_listing
proof unfold_locales
  fix d i u
  show "mem_user_rows d i = Some u \<Longrightarrow> user_ID u = i" by (simp add: mem_user_rows_iff)
  show "finite (dom (mem_user_rows d))" by (simp add: mem_user_rows_def finite_dom_map_of)
  show "email_index (mem_user_rows d)" by (rule mem_email_index)
  show "set (mem_listing d) = ran (mem_user_rows d)" by (auto simp: ran_def mem_user_rows_iff)
  show "distinct (mem_listing d)"
    using mem_listing_ok [of d] by (simp add: mem_users_ok_def distinct_map)
  show "newest_first (mem_listing d)"
    using mem_listing_ok [of d] by (simp add: mem_users_ok_def)
next
  fix d u d'
  assume "udb_Create mem_user_db d u = (d', None)"
  then show "mem_user_rows d (user_ID u) = None \<and> mem_user_rows d' = (mem_user_rows d)(user_ID u \<mapsto> u)"
    by (auto simp: mem_user_db_def mem_create mem_user_rows_None split: if_splits)
next
  fix d u d'
  assume "udb_Save mem_user_db d u = (d', None)"
  then show "mem_user_rows d' = (mem_user_rows d)(user_ID u \<mapsto> u)"
    by (auto simp: mem_user_db_def Let_def mem_save split: if_splits)
next
  fix d u
  assume none: "mem_user_rows d (user_ID u) = None" and idx: "email_index ((mem_user_rows d)(user_ID u \<mapsto> u))"
  from none have id: "user_ID u \<notin> user_ID ` set (mem_listing d)" by (simp add: mem_user_rows_None)
  then have "mem_remove (user_ID u) (mem_listing d) = mem_listing d"
    unfolding mem_remove_def filter_id_conv by (metis imageI)
  with id mem_email_fresh [OF idx] show "\<exists>d'. udb_Create mem_user_db d u = (d', None)"
    by (simp add: mem_user_db_def)
next
  fix d u
  assume "email_index ((mem_user_rows d)(user_ID u \<mapsto> u))"
  from mem_email_fresh [OF this] show "\<exists>d'. udb_Save mem_user_db d u = (d', None)"
    by (simp add: mem_user_db_def Let_def)
next
  fix d n
  assume "udb_Count mem_user_db d = Inr n"
  then show "n = int (card (dom (mem_user_rows d)))" by (simp add: mem_user_db_def mem_dom_card)
next
  fix d P u
  assume "udb_First mem_user_db d P = Inr u"
  then show "mem_user_rows d (user_ID u) = Some u \<and> P u" by (rule mem_first_ok)
next
  fix d P e i u
  assume "udb_First mem_user_db d P = Inl e" "mem_user_rows d i = Some u"
  then show "\<not> P u" using mem_first_err by blast
next
  fix d P
  show "udb_First mem_user_db d P \<noteq> Inl ErrNotFound" using mem_first_err by blast
next
  fix d P e
  assume "udb_First mem_user_db d P = Inl e"
  then show "e = GormErrRecordNotFound" using mem_first_err by blast
next
  fix d i d' n
  assume "udb_Delete mem_user_db d i = (d', Inr n)"
  then show "mem_user_rows d' = (mem_user_rows d)(i := None) \<and> (n = 0 \<longleftrightarrow> mem_user_rows d i = None)"
    by (rule mem_delete)
qed (auto simp: mem_user_db_def Let_def split: if_splits)

end
