(* ===== verification/Credentials.thy ===== *)
theory Credentials
  imports Sample_Codec
begin

text \<open>
  \<open>pkg/hash/hash.go\<close> and \<open>pkg/jwt/jwt.go\<close>: password hashes and bearer tokens. bcrypt and the
  JWT library are the records \<open>bcrypt\<close> and \<open>jwt_ops\<close> of the calls the code makes; a salt and
  each reading of the clock are arguments. \<open>bcrypt_ok\<close> and \<open>jwt_ok\<close> are their documented
  behaviour, as hypotheses:

  \<^item> a generated hash compares equal to its password, and a password of more than 72 bytes is
    refused by the generator;
  \<^item> a token that was signed parses back to its claims under the same key until it expires, and
    is refused as expired from then on; a token that parses carries claims that were signed by a
    method and key which the key function accepts, and that have not expired.

  \<open>mem_bcrypt\<close> and \<open>mem_jwt\<close> are instances with these properties, for the witnesses.
\<close>

section \<open>Password hashes\<close>

record bcrypt =
  bc_Generate :: "string \<Rightarrow> string \<Rightarrow> err + string" \<comment> \<open>salt, password\<close>
  bc_Compare :: "string \<Rightarrow> string \<Rightarrow> err option" \<comment> \<open>hash, password\<close>

definition HashPassword :: "bcrypt \<Rightarrow> string \<Rightarrow> string \<Rightarrow> err + string" where
  "HashPassword B salt password =
     (case bc_Generate B salt password of
        Inl e \<Rightarrow> Inl (Errorf ''failed to hash password: '' e [])
      | Inr h \<Rightarrow> Inr h)"

definition CheckPasswordHash :: "bcrypt \<Rightarrow> string \<Rightarrow> string \<Rightarrow> bool" where
  "CheckPasswordHash B password h = (bc_Compare B h password = None)"

definition bcrypt_ok :: "bcrypt \<Rightarrow> bool" where
  "bcrypt_ok B \<longleftrightarrow>
     (\<forall>salt pw h. bc_Generate B salt pw = Inr h \<longrightarrow> bc_Compare B h pw = None) \<and>
     (\<forall>salt pw. 72 < length pw \<longrightarrow> (\<exists>e. bc_Generate B salt pw = Inl e))"

section \<open>Tokens\<close>

datatype signing_method = HMAC string | OtherMethod string

record claims =
  cl_UserID :: string
  cl_Email :: string
  cl_Subject :: string
  cl_IssuedAt :: "instant option"
  cl_ExpiresAt :: "instant option"

record jwt_ops =
  jw_Sign :: "signing_method \<Rightarrow> string \<Rightarrow> claims \<Rightarrow> err + string"
  jw_Parse :: "(signing_method \<Rightarrow> err + string) \<Rightarrow> instant \<Rightarrow> string \<Rightarrow> err + (claims \<times> bool)"

record jwt_service =
  js_secretKey :: string
  js_expiryHours :: duration

definition NewJWTService :: "string \<Rightarrow> int \<Rightarrow> jwt_service" where
  "NewJWTService secret expiryHours =
     \<lparr>js_secretKey = secret, js_expiryHours = duration_of expiryHours hour\<rparr>"

text \<open>\<open>jwt.NewNumericDate\<close> truncates to whole seconds.\<close>

definition numeric_date :: "instant \<Rightarrow> instant" where
  "numeric_date t = t div second * second"

definition token_claims :: "jwt_service \<Rightarrow> string \<Rightarrow> string \<Rightarrow> instant \<Rightarrow> claims" where
  "token_claims s userID email now =
     \<lparr>cl_UserID = userID, cl_Email = email, cl_Subject = userID,
      cl_IssuedAt = Some (numeric_date now),
      cl_ExpiresAt = Some (numeric_date (now + js_expiryHours s))\<rparr>"

definition GenerateToken ::
  "jwt_ops \<Rightarrow> jwt_service \<Rightarrow> string \<Rightarrow> string \<Rightarrow> instant \<Rightarrow> err + string" where
  "GenerateToken J s userID email now =
     (case jw_Sign J (HMAC ''HS256'') (js_secretKey s) (token_claims s userID email now) of
        Inl e \<Rightarrow> Inl (Errorf ''failed to sign token: '' e [])
      | Inr tok \<Rightarrow> Inr tok)"

definition jwt_keyfunc :: "jwt_service \<Rightarrow> signing_method \<Rightarrow> err + string" where
  "jwt_keyfunc s m =
     (case m of
        HMAC alg \<Rightarrow> Inr (js_secretKey s)
      | OtherMethod alg \<Rightarrow> Inl (ErrNew (''unexpected signing method: '' @ alg)))"

definition ValidateToken :: "jwt_ops \<Rightarrow> jwt_service \<Rightarrow> instant \<Rightarrow> string \<Rightarrow> err + claims" where
  "ValidateToken J s now tok =
     (case jw_Parse J (jwt_keyfunc s) now tok of
        Inl e \<Rightarrow> if errors_is e JwtErrTokenExpired then Inl ErrExpiredToken else Inl ErrInvalidToken
      | Inr (c, valid) \<Rightarrow> if valid then Inr c else Inl ErrInvalidToken)"

text \<open>\<open>verified m key tok c\<close>: the token carries \<open>c\<close>, signed by \<open>m\<close> under \<open>key\<close>.\<close>

definition unexpired :: "instant \<Rightarrow> claims \<Rightarrow> bool" where
  "unexpired now c = (case cl_ExpiresAt c of None \<Rightarrow> True | Some t \<Rightarrow> now < t)"

definition jwt_roundtrip :: "jwt_ops \<Rightarrow> bool" where
  "jwt_roundtrip J \<longleftrightarrow>
     (\<forall>m key c tok kf now. jw_Sign J m key c = Inr tok \<longrightarrow> kf m = Inr key \<longrightarrow>
        (unexpired now c \<longrightarrow> jw_Parse J kf now tok = Inr (c, True)) \<and>
        (\<not> unexpired now c \<longrightarrow>
          (\<exists>e. jw_Parse J kf now tok = Inl e \<and> errors_is e JwtErrTokenExpired)))"

definition jwt_sound ::
  "jwt_ops \<Rightarrow> (signing_method \<Rightarrow> string \<Rightarrow> string \<Rightarrow> claims \<Rightarrow> bool) \<Rightarrow> bool" where
  "jwt_sound J verified \<longleftrightarrow>
     (\<forall>kf now tok c v. jw_Parse J kf now tok = Inr (c, v) \<longrightarrow>
        unexpired now c \<and> (\<exists>m key. kf m = Inr key \<and> verified m key tok c))"

definition jwt_signs :: "jwt_ops \<Rightarrow> bool" where
  "jwt_signs J \<longleftrightarrow> (\<forall>key c. \<exists>tok. jw_Sign J (HMAC ''HS256'') key c = Inr tok)"

definition jwt_ok ::
  "jwt_ops \<Rightarrow> (signing_method \<Rightarrow> string \<Rightarrow> string \<Rightarrow> claims \<Rightarrow> bool) \<Rightarrow> bool" where
  "jwt_ok J verified \<longleftrightarrow> jwt_roundtrip J \<and> jwt_sound J verified \<and> jwt_signs J"

section \<open>Instances\<close>

text \<open>A hash that keeps the password behind a mark and the salt.\<close>

definition mem_bcrypt :: bcrypt where
  "mem_bcrypt =
     \<lparr>bc_Generate = (\<lambda>salt pw. if 72 < length pw then Inl (ErrNew ''bcrypt: password length exceeds 72 bytes'')
                               else Inr (CHR ''$'' # enc_str salt @ pw)),
      bc_Compare = (\<lambda>h pw. if h \<noteq> [] \<and> snd (dec_str (tl h)) = pw then None
                            else Some (ErrNew ''bcrypt: hash mismatch''))\<rparr>"

lemma mem_bcrypt_ok: "bcrypt_ok mem_bcrypt"
  by (auto simp: bcrypt_ok_def mem_bcrypt_def split: if_splits)

definition enc_method :: "signing_method \<Rightarrow> string" where
  "enc_method m = (case m of HMAC a \<Rightarrow> ''h'' @ enc_str a | OtherMethod a \<Rightarrow> ''o'' @ enc_str a)"

definition dec_method :: "string \<Rightarrow> signing_method \<times> string" where
  "dec_method s =
     (let (a, r) = dec_str (tl s) in (if hd s = CHR ''h'' then HMAC a else OtherMethod a, r))"

definition enc_date :: "instant option \<Rightarrow> string" where
  "enc_date d = (case d of None \<Rightarrow> ''n'' | Some t \<Rightarrow> ''s'' @ enc_int t)"

definition dec_date :: "string \<Rightarrow> instant option \<times> string" where
  "dec_date s = (if hd s = CHR ''n'' then (None, tl s)
                 else let (t, r) = dec_int (tl s) in (Some t, r))"

lemma dec_enc_method [simp]: "dec_method (enc_method m @ t) = (m, t)"
  by (cases m) (simp_all add: dec_method_def enc_method_def)

lemma dec_enc_date [simp]: "dec_date (enc_date d @ t) = (d, t)"
  by (cases d) (simp_all add: dec_date_def enc_date_def)

definition mem_token :: "signing_method \<Rightarrow> string \<Rightarrow> claims \<Rightarrow> string" where
  "mem_token m key c =
     enc_method m @ enc_str key @ enc_str (cl_UserID c) @ enc_str (cl_Email c) @ enc_str (cl_Subject c) @
     enc_date (cl_IssuedAt c) @ enc_date (cl_ExpiresAt c) @ []"

definition mem_untoken :: "string \<Rightarrow> signing_method \<times> string \<times> claims" where
  "mem_untoken s =
     (let (m, s0) = dec_method s; (k, s1) = dec_str s0; (u, s2) = dec_str s1; (e, s3) = dec_str s2;
          (b, s4) = dec_str s3; (i, s5) = dec_date s4; (x, s6) = dec_date s5
      in (m, k, \<lparr>cl_UserID = u, cl_Email = e, cl_Subject = b, cl_IssuedAt = i, cl_ExpiresAt = x\<rparr>))"

lemma mem_untoken_token [simp]: "mem_untoken (mem_token m key c) = (m, key, c)"
  unfolding mem_untoken_def mem_token_def
  by (simp only: dec_enc_method dec_enc_str dec_enc_date Let_def prod.case) simp

definition mem_jwt :: jwt_ops where
  "mem_jwt =
     \<lparr>jw_Sign = (\<lambda>m key c. Inr (mem_token m key c)),
      jw_Parse = (\<lambda>kf now tok.
        let (m, key, c) = mem_untoken tok in
        if tok \<noteq> mem_token m key c \<or> kf m \<noteq> Inr key then Inl (ErrNew ''token is malformed'')
        else if \<not> unexpired now c then Inl (Errorf ''token has invalid claims: '' JwtErrTokenExpired [])
        else Inr (c, True))\<rparr>"

definition mem_verified :: "signing_method \<Rightarrow> string \<Rightarrow> string \<Rightarrow> claims \<Rightarrow> bool" where
  "mem_verified m key tok c = (tok = mem_token m key c)"

lemma mem_jwt_sound: "jwt_sound mem_jwt mem_verified"
  unfolding jwt_sound_def
proof (intro allI impI)
  fix kf now tok c v
  assume p: "jw_Parse mem_jwt kf now tok = Inr (c, v)"
  obtain m key c' where u: "mem_untoken tok = (m, key, c')" by (cases "mem_untoken tok")
  with p have "tok = mem_token m key c'" "kf m = Inr key" "unexpired now c'" "c = c'"
    by (auto simp: mem_jwt_def Let_def split: if_splits)
  then show "unexpired now c \<and> (\<exists>m key. kf m = Inr key \<and> mem_verified m key tok c)"
    by (auto simp: mem_verified_def)
qed

lemma mem_jwt_roundtrip: "jwt_roundtrip mem_jwt"
  unfolding jwt_roundtrip_def by (intro allI impI conjI) (auto simp: mem_jwt_def)

lemma mem_jwt_ok: "jwt_ok mem_jwt mem_verified"
  unfolding jwt_ok_def
  by (intro conjI mem_jwt_sound mem_jwt_roundtrip) (simp add: jwt_signs_def mem_jwt_def)

section \<open>Lemmas\<close>

lemma bcrypt_checks: "bcrypt_ok B \<Longrightarrow> HashPassword B salt pw = Inr h \<Longrightarrow> CheckPasswordHash B pw h"
  by (auto simp: bcrypt_ok_def HashPassword_def CheckPasswordHash_def split: sum.splits)

lemma bcrypt_long: "bcrypt_ok B \<Longrightarrow> 72 < length pw \<Longrightarrow> \<exists>e. HashPassword B salt pw = Inl e"
proof -
  assume "bcrypt_ok B" "72 < length pw"
  then obtain e where "bc_Generate B salt pw = Inl e" unfolding bcrypt_ok_def by blast
  then show ?thesis by (simp add: HashPassword_def)
qed

lemma jwt_ok_sign: "jwt_ok J V \<Longrightarrow> \<exists>tok. jw_Sign J (HMAC ''HS256'') key c = Inr tok"
  unfolding jwt_ok_def jwt_signs_def by blast

lemma jwt_ok_fresh: "jwt_ok J V \<Longrightarrow> jw_Sign J m key c = Inr tok \<Longrightarrow> kf m = Inr key \<Longrightarrow> unexpired now c \<Longrightarrow>
  jw_Parse J kf now tok = Inr (c, True)"
  unfolding jwt_ok_def jwt_roundtrip_def by blast

lemma jwt_ok_expired: "jwt_ok J V \<Longrightarrow> jw_Sign J m key c = Inr tok \<Longrightarrow> kf m = Inr key \<Longrightarrow> \<not> unexpired now c \<Longrightarrow>
  \<exists>e. jw_Parse J kf now tok = Inl e \<and> errors_is e JwtErrTokenExpired"
  unfolding jwt_ok_def jwt_roundtrip_def by blast

lemma jwt_ok_parsed: "jwt_ok J V \<Longrightarrow> jw_Parse J kf now tok = Inr (c, v) \<Longrightarrow>
  unexpired now c \<and> (\<exists>m key. kf m = Inr key \<and> V m key tok c)"
  unfolding jwt_ok_def jwt_sound_def by blast

lemma GenerateToken_ok: "jwt_ok J V \<Longrightarrow> \<exists>tok. GenerateToken J s u e now = Inr tok"
  using jwt_ok_sign [of J V "js_secretKey s" "token_claims s u e now"]
  by (auto simp: GenerateToken_def)

lemma ValidateToken_generated:
  assumes J: "jwt_ok J V" and gen: "GenerateToken J s u e t = Inr tok"
  shows "ValidateToken J s now tok =
    (if now < numeric_date (t + js_expiryHours s) then Inr (token_claims s u e t) else Inl ErrExpiredToken)"
proof -
  have sign: "jw_Sign J (HMAC ''HS256'') (js_secretKey s) (token_claims s u e t) = Inr tok"
    using gen by (auto simp: GenerateToken_def split: sum.splits)
  have kf: "jwt_keyfunc s (HMAC ''HS256'') = Inr (js_secretKey s)" by (simp add: jwt_keyfunc_def)
  have un: "unexpired now (token_claims s u e t) \<longleftrightarrow> now < numeric_date (t + js_expiryHours s)"
    by (simp add: unexpired_def token_claims_def)
  show ?thesis
  proof (cases "unexpired now (token_claims s u e t)")
    case True
    with un jwt_ok_fresh [where kf = "jwt_keyfunc s", OF J sign kf True] show ?thesis
      by (simp add: ValidateToken_def)
  next
    case False
    with jwt_ok_expired [where kf = "jwt_keyfunc s", OF J sign kf False]
    obtain x where "jw_Parse J (jwt_keyfunc s) now tok = Inl x" "errors_is x JwtErrTokenExpired" by blast
    with un False show ?thesis by (simp add: ValidateToken_def)
  qed
qed

lemma ValidateToken_sound:
  assumes "jwt_ok J V" "ValidateToken J s now tok = Inr c"
  shows "unexpired now c \<and> (\<exists>alg. V (HMAC alg) (js_secretKey s) tok c)"
proof -
  obtain v where "jw_Parse J (jwt_keyfunc s) now tok = Inr (c, v)"
    using assms(2) by (auto simp: ValidateToken_def split: sum.splits if_splits)
  with jwt_ok_parsed [OF assms(1)] obtain m key where
    "unexpired now c" "jwt_keyfunc s m = Inr key" "V m key tok c" by blast
  then show ?thesis by (cases m) (auto simp: jwt_keyfunc_def)
qed

lemma token_claims_simps [simp]:
  "cl_UserID (token_claims s u e now) = u" "cl_Email (token_claims s u e now) = e"
  by (simp_all add: token_claims_def)

end
