(* ===== verification/User_Usecase.thy ===== *)
theory User_Usecase
  imports User_Repository Credentials Redis_Client Queue_Core Worker_Pool
begin

text \<open>
  \<open>internal/usecase/user_usecase.go\<close>: registration, login, the cached reads, the listing, update
  and removal of users. \<open>user_usecase\<close> is the struct with its collaborators: the repository, the
  cache client, the token service, the queue (or the worker pool, which the constructor never
  sets). \<open>app_state\<close> is what they act on. The libraries are the record \<open>libs\<close>: bcrypt, JWT,
  and the JSON codec of a cached user. Salts, identifiers and clock readings are arguments.

  Lemmas: every operation on each of its branches, over any repository that meets its contract;
  the coherence of the cache and what preserves it; the windows of the listing.
\<close>

section \<open>The use case and its state\<close>

record libs =
  lib_bcrypt :: bcrypt
  lib_jwt :: jwt_ops
  lib_enc :: "user_response \<Rightarrow> err + string"
  lib_dec :: "string \<Rightarrow> err + user_response"

type_synonym 'q dispatcher =
  "go_context \<Rightarrow> string \<Rightarrow> welcome_email_payload payload \<Rightarrow> 'q \<Rightarrow> ('q \<times> err option) outcome"

record ('r, 'd, 'q, 'w) user_usecase =
  uu_userRepo :: "'r user_repository_ops"
  uu_cache :: "'d redis_client option"
  uu_jwt :: jwt_service
  uu_worker :: "('w mailer option \<Rightarrow> welcome_email_job \<Rightarrow> 'q \<Rightarrow> ('q \<times> bool) outcome) option"
  uu_queue :: "'q dispatcher option"
  uu_mailer :: "'w mailer option"

record ('r, 'd, 'q) app_state =
  as_repo :: 'r
  as_cache :: 'd
  as_queue :: 'q

definition NewUserUsecase ::
  "'r user_repository_ops \<Rightarrow> 'd redis_client option \<Rightarrow> jwt_service \<Rightarrow> 'q dispatcher option \<Rightarrow>
   'w mailer list \<Rightarrow> ('r, 'd, 'q, 'w) user_usecase" where
  "NewUserUsecase repo cache jwt queue mailers =
     \<lparr>uu_userRepo = repo, uu_cache = cache, uu_jwt = jwt, uu_worker = None, uu_queue = queue,
      uu_mailer = (case mailers of [] \<Rightarrow> None | m # ms \<Rightarrow> Some m)\<rparr>"

section \<open>The queue handler\<close>

text \<open>\<open>json.Unmarshal\<close> of the payload is \<open>unmarshal\<close>, \<open>time.Now().Year()\<close> is \<open>year\<close>.\<close>

definition welcome_handler ::
  "(string \<Rightarrow> err + welcome_email_payload) \<Rightarrow> int \<Rightarrow> 'w mailer option \<Rightarrow> 'w handler" where
  "welcome_handler unmarshal year mailer ctx payload w =
     (case unmarshal payload of
        Inl e \<Rightarrow> (w, Ret (Some e))
      | Inr data \<Rightarrow>
          (case mailer of
             Some m \<Rightarrow>
               apsnd Ret (ml_SendTemplate m ctx (wep_Email data)
                 (''Welcome to Gin Starter Pack, '' @ wep_UserName data @ ''!'') ''welcome.html''
                 [(''AppName'', TmplStr ''Gin Starter Pack''), (''UserName'', TmplStr (wep_UserName data)),
                  (''Email'', TmplStr (wep_Email data)), (''ActionURL'', TmplStr ''http://localhost:8080''),
                  (''Year'', TmplInt year)] w)
           | None \<Rightarrow> (w, Ret None)))"

definition RegisterUserQueueHandlers ::
  "(string \<Rightarrow> err + welcome_email_payload) \<Rightarrow> int \<Rightarrow> 'w registry \<Rightarrow> 'w mailer option \<Rightarrow> 'w registry" where
  "RegisterUserQueueHandlers unmarshal year reg mailer =
     Register reg JobWelcomeEmail (welcome_handler unmarshal year mailer)"

section \<open>Register and login\<close>

text \<open>The welcome mail: its error is ignored, but not a panic.\<close>

definition dispatch_welcome ::
  "('r, 'd, 'q, 'w) user_usecase \<Rightarrow> go_context \<Rightarrow> user \<Rightarrow> 'q \<Rightarrow> 'q outcome" where
  "dispatch_welcome uc ctx u q =
     (case uu_queue uc of
        Some dispatch \<Rightarrow>
          bind_outcome
            (dispatch ctx JobWelcomeEmail
              (Val \<lparr>wep_UserID = user_ID u, wep_Email = user_Email u, wep_UserName = user_Name u\<rparr>) q)
            (\<lambda>(q', e). Ret q')
      | None \<Rightarrow>
          (case uu_worker uc of
             Some dispatch \<Rightarrow>
               bind_outcome
                 (dispatch (uu_mailer uc)
                   \<lparr>wej_UserID = user_ID u, wej_Email = user_Email u, wej_UserName = user_Name u\<rparr> q)
                 (\<lambda>(q', b). Ret q')
           | None \<Rightarrow> Ret q))"

text \<open>A panic of the queue ends the call after the user was created.\<close>

definition usecase_Register ::
  "libs \<Rightarrow> ('r, 'd, 'q, 'w) user_usecase \<Rightarrow> go_context \<Rightarrow> create_user_request \<Rightarrow> string \<Rightarrow> string \<Rightarrow>
   instant \<Rightarrow> instant \<Rightarrow> ('r, 'd, 'q) app_state \<Rightarrow>
   ('r, 'd, 'q) app_state \<times> (err + user_response) outcome" where
  "usecase_Register L uc ctx req salt uuid t1 t2 s =
     (case repo_FindByEmail (uu_userRepo uc) (as_repo s) (cur_Email req) of
        Inr existing \<Rightarrow> (s, Ret (Inl ErrAlreadyExists))
      | Inl e0 \<Rightarrow>
          (case HashPassword (lib_bcrypt L) salt (cur_Password req) of
             Inl e \<Rightarrow> (s, Ret (Inl e))
           | Inr hashed \<Rightarrow>
               let u = \<lparr>user_ID = uuid, user_Name = cur_Name req, user_Email = cur_Email req,
                        user_Password = hashed, user_CreatedAt = t1, user_UpdatedAt = t2\<rparr> in
               (case repo_Create (uu_userRepo uc) (as_repo s) u of
                  (r', Some e) \<Rightarrow> (s\<lparr>as_repo := r'\<rparr>, Ret (Inl e))
                | (r', None) \<Rightarrow>
                    (case dispatch_welcome uc ctx u (as_queue s) of
                       Panic msg \<Rightarrow> (s\<lparr>as_repo := r'\<rparr>, Panic msg)
                     | Ret q' \<Rightarrow> (s\<lparr>as_repo := r', as_queue := q'\<rparr>, Ret (Inr (ToResponse u)))))))"

definition usecase_Login ::
  "libs \<Rightarrow> ('r, 'd, 'q, 'w) user_usecase \<Rightarrow> login_request \<Rightarrow> instant \<Rightarrow> ('r, 'd, 'q) app_state \<Rightarrow>
   err + login_response" where
  "usecase_Login L uc req now s =
     (case repo_FindByEmail (uu_userRepo uc) (as_repo s) (lr_Email req) of
        Inl e \<Rightarrow> Inl ErrInvalidCredentials
      | Inr u \<Rightarrow>
          if \<not> CheckPasswordHash (lib_bcrypt L) (lr_Password req) (user_Password u)
          then Inl ErrInvalidCredentials
          else case GenerateToken (lib_jwt L) (uu_jwt uc) (user_ID u) (user_Email u) now of
            Inl e \<Rightarrow> Inl (Errorf ''failed to generate auth token: '' e [])
          | Inr tok \<Rightarrow> Inr \<lparr>lresp_Token = tok, lresp_User = ToResponse u\<rparr>)"

section \<open>Reads\<close>

definition user_cache_key :: "string \<Rightarrow> string" where
  "user_cache_key i = ''user:'' @ i"

definition fetch_user ::
  "('r, 'd, 'q, 'w) user_usecase \<Rightarrow> string \<Rightarrow> 'r \<Rightarrow> 'r \<times> (err + user_response option)" where
  "fetch_user uc i r =
     (r, case repo_FindByID (uu_userRepo uc) r i of Inl e \<Rightarrow> Inl e | Inr u \<Rightarrow> Inr (Some (ToResponse u)))"

definition usecase_GetByID ::
  "libs \<Rightarrow> ('r, 'd, 'q, 'w) user_usecase \<Rightarrow> string \<Rightarrow> ('r, 'd, 'q) app_state \<Rightarrow>
   ('r, 'd, 'q) app_state \<times> (err + user_response option)" where
  "usecase_GetByID L uc i s =
     (case Remember (lib_enc L) (lib_dec L) (uu_cache uc) (user_cache_key i) (10 * minute)
             (fetch_user uc i) (as_cache s, as_repo s) of
        ((d', r'), res) \<Rightarrow> (s\<lparr>as_cache := d', as_repo := r'\<rparr>, res))"

definition usecase_GetProfile ::
  "libs \<Rightarrow> ('r, 'd, 'q, 'w) user_usecase \<Rightarrow> string \<Rightarrow> ('r, 'd, 'q) app_state \<Rightarrow>
   ('r, 'd, 'q) app_state \<times> (err + user_response option)" where
  "usecase_GetProfile L uc userID s = usecase_GetByID L uc userID s"

definition clamp_page :: "int \<Rightarrow> int" where
  "clamp_page page = (if page < 1 then 1 else page)"

definition clamp_size :: "int \<Rightarrow> int" where
  "clamp_size pageSize = (if pageSize < 1 \<or> pageSize > 100 then 10 else pageSize)"

definition page_offset :: "int \<Rightarrow> int \<Rightarrow> int" where
  "page_offset page pageSize = wrap64 (wrap64 (clamp_page page - 1) * clamp_size pageSize)"

definition usecase_GetAll ::
  "('r, 'd, 'q, 'w) user_usecase \<Rightarrow> int \<Rightarrow> int \<Rightarrow> ('r, 'd, 'q) app_state \<Rightarrow>
   err + (user_response list \<times> int)" where
  "usecase_GetAll uc page pageSize s =
     (case repo_FindAll (uu_userRepo uc) (as_repo s) (clamp_size pageSize) (page_offset page pageSize) of
        Inl e \<Rightarrow> Inl e
      | Inr (us, n) \<Rightarrow> Inr (map ToResponse us, n))"

section \<open>Update and removal\<close>

definition updated_name :: "update_user_request \<Rightarrow> user \<Rightarrow> user" where
  "updated_name req u = (if uur_Name req \<noteq> [] then u\<lparr>user_Name := uur_Name req\<rparr> else u)"

text \<open>The two halves of \<open>Update\<close>: the reads with the checks, and the writes.\<close>

definition update_prepare ::
  "('r, 'd, 'q, 'w) user_usecase \<Rightarrow> string \<Rightarrow> update_user_request \<Rightarrow> instant \<Rightarrow> 'r \<Rightarrow> err + user" where
  "update_prepare uc i req now r =
     (case repo_FindByID (uu_userRepo uc) r i of
        Inl e \<Rightarrow> Inl e
      | Inr u \<Rightarrow>
          let u1 = updated_name req u;
              change = uur_Email req \<noteq> [] \<and> uur_Email req \<noteq> user_Email u1;
              taken = change \<and>
                (case repo_FindByEmail (uu_userRepo uc) r (uur_Email req) of
                   Inl e \<Rightarrow> False | Inr existing \<Rightarrow> user_ID existing \<noteq> i)
          in if taken then Inl ErrAlreadyExists
             else Inr ((if change then u1\<lparr>user_Email := uur_Email req\<rparr> else u1)\<lparr>user_UpdatedAt := now\<rparr>))"

definition update_commit ::
  "('r, 'd, 'q, 'w) user_usecase \<Rightarrow> string \<Rightarrow> user \<Rightarrow>
   ('r, 'd, 'q) app_state \<Rightarrow> ('r, 'd, 'q) app_state \<times> (err + user_response)" where
  "update_commit uc i u s =
     (case repo_Update (uu_userRepo uc) (as_repo s) u of
        (r', Some e) \<Rightarrow> (s\<lparr>as_repo := r'\<rparr>, Inl e)
      | (r', None) \<Rightarrow>
          (s\<lparr>as_repo := r',
             as_cache := fst (Invalidate (uu_cache uc) [user_cache_key i] (as_cache s))\<rparr>,
           Inr (ToResponse u)))"

definition usecase_Update ::
  "('r, 'd, 'q, 'w) user_usecase \<Rightarrow> string \<Rightarrow> update_user_request \<Rightarrow> instant \<Rightarrow>
   ('r, 'd, 'q) app_state \<Rightarrow> ('r, 'd, 'q) app_state \<times> (err + user_response)" where
  "usecase_Update uc i req now s =
     (case update_prepare uc i req now (as_repo s) of
        Inl e \<Rightarrow> (s, Inl e)
      | Inr u \<Rightarrow> update_commit uc i u s)"

definition usecase_Delete ::
  "('r, 'd, 'q, 'w) user_usecase \<Rightarrow> string \<Rightarrow> ('r, 'd, 'q) app_state \<Rightarrow>
   ('r, 'd, 'q) app_state \<times> err option" where
  "usecase_Delete uc i s =
     (case repo_Delete (uu_userRepo uc) (as_repo s) i of
        (r', Some e) \<Rightarrow> (s\<lparr>as_repo := r'\<rparr>, Some e)
      | (r', None) \<Rightarrow>
          (s\<lparr>as_repo := r',
             as_cache := fst (Invalidate (uu_cache uc) [user_cache_key i] (as_cache s))\<rparr>, None))"

section \<open>The cache and the table\<close>

text \<open>Every entry under the key of a user decodes to the user as the table has it now.\<close>

definition cache_coherent ::
  "(string \<Rightarrow> err + user_response) \<Rightarrow> (string \<rightharpoonup> user) \<Rightarrow> (string \<rightharpoonup> string) \<Rightarrow> bool" where
  "cache_coherent dec t c \<longleftrightarrow>
     (\<forall>i v. c (user_cache_key i) = Some v \<longrightarrow> (\<exists>u. t i = Some u \<and> dec v = Inr (ToResponse u)))"

text \<open>The operations in any order, and entries that expire.\<close>

inductive user_step ::
  "libs \<Rightarrow> ('r, 'd, 'q, 'w) user_usecase \<Rightarrow> ('d \<Rightarrow> string \<rightharpoonup> string) \<Rightarrow>
   ('r, 'd, 'q) app_state \<Rightarrow> ('r, 'd, 'q) app_state \<Rightarrow> bool" for L uc strs where
  register: "usecase_Register L uc ctx req salt uuid t1 t2 s = (s', res) \<Longrightarrow> user_step L uc strs s s'"
| get: "usecase_GetByID L uc i s = (s', res) \<Longrightarrow> user_step L uc strs s s'"
| update: "usecase_Update uc i req now s = (s', res) \<Longrightarrow> user_step L uc strs s s'"
| delete: "usecase_Delete uc i s = (s', e) \<Longrightarrow> user_step L uc strs s s'"
| expire: "strs d' \<subseteq>\<^sub>m strs (as_cache s) \<Longrightarrow> user_step L uc strs s (s\<lparr>as_cache := d'\<rparr>)"

section \<open>Lemmas\<close>

lemma user_cache_key_inj [simp]: "user_cache_key i = user_cache_key j \<longleftrightarrow> i = j"
  by (simp add: user_cache_key_def)

lemma clamp_bounds: "1 \<le> clamp_page p" "1 \<le> clamp_size n" "clamp_size n \<le> 100"
  by (auto simp: clamp_page_def clamp_size_def)

text \<open>Small page numbers do not overflow the offset.\<close>

lemma page_offset_exact:
  assumes "p \<le> 2 ^ 56"
  shows "page_offset p n = (clamp_page p - 1) * clamp_size n"
proof -
  let ?p = "clamp_page p - 1" and ?n = "clamp_size n"
  have p: "0 \<le> ?p" "?p \<le> 2 ^ 56" using assms by (auto simp: clamp_page_def)
  have n: "0 \<le> ?n" "?n \<le> 100" using clamp_bounds [of n] by auto
  have "?p * ?n \<le> 2 ^ 56 * 100" using p n by (intro mult_mono) auto
  moreover have "0 \<le> ?p * ?n" using p n by simp
  ultimately have "wrap64 (?p * ?n) = ?p * ?n" by (intro wrap64_id) auto
  moreover have "wrap64 ?p = ?p" using p by (intro wrap64_id) auto
  ultimately show ?thesis by (simp add: page_offset_def)
qed

lemma coherent_delete: "cache_coherent dec t c \<Longrightarrow> cache_coherent dec t (c(k := None))"
  by (auto simp: cache_coherent_def)

lemma coherent_expire: "cache_coherent dec t c \<Longrightarrow> c' \<subseteq>\<^sub>m c \<Longrightarrow> cache_coherent dec t c'"
  by (auto simp: cache_coherent_def map_le_def dom_def)

lemma coherent_set:
  "cache_coherent dec t c \<Longrightarrow> t i = Some u \<Longrightarrow> dec v = Inr (ToResponse u) \<Longrightarrow>
   cache_coherent dec t (c(user_cache_key i \<mapsto> v))"
  by (auto simp: cache_coherent_def)

lemma coherent_insert: "cache_coherent dec t c \<Longrightarrow> t i = None \<Longrightarrow> cache_coherent dec (t(i \<mapsto> u)) c"
  by (fastforce simp: cache_coherent_def)

lemma coherent_change:
  "cache_coherent dec t c \<Longrightarrow> c (user_cache_key i) = None \<Longrightarrow> cache_coherent dec (t(i := r)) c"
  by (fastforce simp: cache_coherent_def)

lemma email_index_update:
  assumes t: "email_index t"
    and other: "\<And>k w. t k = Some w \<Longrightarrow> k \<noteq> i \<Longrightarrow> user_Email w \<noteq> user_Email v"
  shows "email_index (t(i \<mapsto> v))"
  unfolding email_index_def
proof (intro allI impI)
  fix a b x y
  assume a: "(t(i \<mapsto> v)) a = Some x" and b: "(t(i \<mapsto> v)) b = Some y"
    and xy: "user_Email x = user_Email y"
  consider "a = i" "b = i" | "a = i" "b \<noteq> i" | "a \<noteq> i" "b = i" | "a \<noteq> i" "b \<noteq> i" by blast
  then show "a = b"
  proof cases
    case 2
    with a b xy other [of b y] show ?thesis by simp
  next
    case 3
    with a b xy other [of a x] show ?thesis by simp
  next
    case 4
    with a b have "t a = Some x" "t b = Some y" by simp_all
    with t xy show ?thesis unfolding email_index_def by blast
  qed simp
qed

context user_repository
begin

lemma users_count: "card (dom (users r)) = length (listed r)"
proof -
  have row: "u \<in> set (listed r) \<longleftrightarrow> users r (user_ID u) = Some u" for u
  proof
    assume "u \<in> set (listed r)"
    then obtain i where i: "users r i = Some u" unfolding listed_users ran_def by blast
    then have "user_ID u = i" by (rule user_key)
    with i show "users r (user_ID u) = Some u" by simp
  next
    assume "users r (user_ID u) = Some u"
    then show "u \<in> set (listed r)" unfolding listed_users ran_def by blast
  qed
  have inj: "inj_on user_ID (set (listed r))"
  proof (rule inj_onI)
    fix u v assume u: "u \<in> set (listed r)" and v: "v \<in> set (listed r)" and e: "user_ID u = user_ID v"
    have "Some u = users r (user_ID v)" using u e by (metis row)
    also have "\<dots> = Some v" using v row by metis
    finally show "u = v" by (rule option.inject [THEN iffD1])
  qed
  have "dom (users r) = user_ID ` set (listed r)"
  proof
    show "dom (users r) \<subseteq> user_ID ` set (listed r)"
    proof
      fix i assume "i \<in> dom (users r)"
      then obtain u where "users r i = Some u" by auto
      moreover from this have "user_ID u = i" by (rule user_key)
      ultimately show "i \<in> user_ID ` set (listed r)" using row by blast
    qed
    show "user_ID ` set (listed r) \<subseteq> dom (users r)"
      by (rule image_subsetI) (metis row domI)
  qed
  then show ?thesis
    using inj listed_distinct [of r] by (simp add: card_image distinct_card)
qed

lemma register_cases:
  assumes "usecase_Register L uc ctx req salt uuid t1 t2 s = (s', res)" "uu_userRepo uc = repo"
  shows "as_cache s' = as_cache s \<and>
    ((\<exists>e. res = Ret (Inl e) \<and> users (as_repo s') = users (as_repo s) \<and> as_queue s' = as_queue s) \<or>
     (\<exists>h u. HashPassword (lib_bcrypt L) salt (cur_Password req) = Inr h \<and>
        u = \<lparr>user_ID = uuid, user_Name = cur_Name req, user_Email = cur_Email req, user_Password = h,
             user_CreatedAt = t1, user_UpdatedAt = t2\<rparr> \<and>
        users (as_repo s) uuid = None \<and> users (as_repo s') = (users (as_repo s))(uuid \<mapsto> u) \<and>
        (case dispatch_welcome uc ctx u (as_queue s) of
           Panic msg \<Rightarrow> res = Panic msg | Ret q' \<Rightarrow> res = Ret (Inr (ToResponse u)) \<and> as_queue s' = q')))"
proof (cases "repo_FindByEmail repo (as_repo s) (cur_Email req)")
  case (Inr existing)
  with assms show ?thesis by (auto simp: usecase_Register_def)
next
  case (Inl e0)
  show ?thesis
  proof (cases "HashPassword (lib_bcrypt L) salt (cur_Password req)")
    case (Inl e)
    with assms \<open>repo_FindByEmail repo (as_repo s) (cur_Email req) = Inl e0\<close> show ?thesis
      by (auto simp: usecase_Register_def)
  next
    case (Inr h)
    let ?u = "\<lparr>user_ID = uuid, user_Name = cur_Name req, user_Email = cur_Email req, user_Password = h,
             user_CreatedAt = t1, user_UpdatedAt = t2\<rparr>"
    obtain r' e where c: "repo_Create repo (as_repo s) ?u = (r', e)"
      by (cases "repo_Create repo (as_repo s) ?u")
    show ?thesis
    proof (cases e)
      case None
      with c repo_create_ok [of "as_repo s" ?u r'] Inr Inl assms show ?thesis
        by (cases "dispatch_welcome uc ctx ?u (as_queue s)") (auto simp: usecase_Register_def)
    next
      case (Some x)
      with c repo_create_err [of "as_repo s" ?u r' x] Inr Inl assms show ?thesis
        by (auto simp: usecase_Register_def)
    qed
  qed
qed

lemma update_prepare_ok:
  assumes "update_prepare uc i req now r = Inr v" "uu_userRepo uc = repo"
  shows "\<exists>u. users r i = Some u \<and> user_ID v = i \<and>
    user_Name v = (if uur_Name req \<noteq> [] then uur_Name req else user_Name u) \<and>
    user_Email v = (if uur_Email req \<noteq> [] then uur_Email req else user_Email u) \<and>
    user_Password v = user_Password u \<and> user_CreatedAt v = user_CreatedAt u \<and> user_UpdatedAt v = now"
proof -
  obtain u where u: "repo_FindByID repo r i = Inr u"
    using assms by (auto simp: update_prepare_def split: sum.splits)
  have row: "users r i = Some u" by (rule repo_id_ok [OF u])
  then have id: "user_ID u = i" by (rule user_key)
  have "v = (if uur_Email req \<noteq> [] \<and> uur_Email req \<noteq> user_Email (updated_name req u)
      then (updated_name req u)\<lparr>user_Email := uur_Email req\<rparr> else updated_name req u)\<lparr>user_UpdatedAt := now\<rparr>"
    using assms u by (auto simp: update_prepare_def Let_def split: if_splits)
  with row id show ?thesis by (auto simp: updated_name_def)
qed

text \<open>The new address is not that of another user, as far as the reads could tell.\<close>

lemma update_prepare_email:
  assumes "update_prepare uc i req now r = Inr v" "uu_userRepo uc = repo"
    and up: "\<And>m e. repo_FindByEmail repo r m = Inl e \<Longrightarrow> e = ErrNotFound"
  shows "email_index ((users r)(i \<mapsto> v))"
proof -
  obtain u where u: "repo_FindByID repo r i = Inr u"
    using assms(1,2) by (auto simp: update_prepare_def split: sum.splits)
  have row: "users r i = Some u" by (rule repo_id_ok [OF u])
  have v: "v = (if uur_Email req \<noteq> [] \<and> uur_Email req \<noteq> user_Email (updated_name req u)
      then (updated_name req u)\<lparr>user_Email := uur_Email req\<rparr> else updated_name req u)\<lparr>user_UpdatedAt := now\<rparr>"
    using assms(1,2) u by (auto simp: update_prepare_def Let_def split: if_splits)
  have other: "user_Email w \<noteq> user_Email v" if w: "users r k = Some w" "k \<noteq> i" for k w
  proof (cases "uur_Email req \<noteq> [] \<and> uur_Email req \<noteq> user_Email (updated_name req u)")
    case True
    then have e: "user_Email v = uur_Email req" by (simp add: v)
    show ?thesis
    proof (cases "repo_FindByEmail repo r (uur_Email req)")
      case (Inl x)
      with up have "x = ErrNotFound" by blast
      with Inl repo_email_none w(1) e show ?thesis by metis
    next
      case (Inr y)
      with True assms(1,2) u have "user_ID y = i"
        by (auto simp: update_prepare_def Let_def split: if_splits)
      moreover from repo_email_ok [OF Inr] have "users r (user_ID y) = Some y" "user_Email y = uur_Email req"
        by auto
      ultimately show ?thesis
        using emails_unique [of r] w e unfolding email_index_def by metis
    qed
  next
    case False
    then have "user_Email v = user_Email u" by (auto simp: v updated_name_def)
    with emails_unique [of r] w row show ?thesis unfolding email_index_def by metis
  qed
  show ?thesis by (rule email_index_update [OF emails_unique other])
qed

lemma update_commit_cases:
  assumes "update_commit uc i v s = (s', res)" "uu_userRepo uc = repo" "user_ID v = i"
  shows "as_queue s' = as_queue s \<and>
    ((\<exists>e. res = Inl e \<and> users (as_repo s') = users (as_repo s) \<and> as_cache s' = as_cache s) \<or>
     (res = Inr (ToResponse v) \<and> users (as_repo s') = (users (as_repo s))(i \<mapsto> v) \<and>
      as_cache s' = fst (Invalidate (uu_cache uc) [user_cache_key i] (as_cache s))))"
proof -
  obtain r' e where up: "repo_Update repo (as_repo s) v = (r', e)"
    by (cases "repo_Update repo (as_repo s) v")
  show ?thesis
    using up assms repo_update_ok [of "as_repo s" v r'] repo_update_err [of "as_repo s" v r']
    by (cases e) (auto simp: update_commit_def)
qed

lemma update_cases:
  assumes "usecase_Update uc i req now s = (s', res)" "uu_userRepo uc = repo"
  shows "as_queue s' = as_queue s \<and>
    ((\<exists>e. res = Inl e \<and> users (as_repo s') = users (as_repo s) \<and> as_cache s' = as_cache s) \<or>
     (\<exists>v. update_prepare uc i req now (as_repo s) = Inr v \<and> user_ID v = i \<and> res = Inr (ToResponse v) \<and>
        users (as_repo s') = (users (as_repo s))(i \<mapsto> v) \<and>
        as_cache s' = fst (Invalidate (uu_cache uc) [user_cache_key i] (as_cache s))))"
proof (cases "update_prepare uc i req now (as_repo s)")
  case (Inl e)
  with assms(1) have "s' = s" "res = Inl e" by (simp_all add: usecase_Update_def)
  then show ?thesis by simp
next
  case (Inr v)
  then have id: "user_ID v = i" using update_prepare_ok [OF _ assms(2)] by blast
  from Inr assms(1) have "update_commit uc i v s = (s', res)" by (simp add: usecase_Update_def)
  from update_commit_cases [OF this assms(2) id] Inr id show ?thesis by auto
qed

lemma delete_cases:
  assumes "usecase_Delete uc i s = (s', e)" "uu_userRepo uc = repo"
  shows "as_queue s' = as_queue s \<and>
    (e \<noteq> None \<and> users (as_repo s') = users (as_repo s) \<and> as_cache s' = as_cache s \<or>
     e = None \<and> users (as_repo s) i \<noteq> None \<and> users (as_repo s') = (users (as_repo s))(i := None) \<and>
     as_cache s' = fst (Invalidate (uu_cache uc) [user_cache_key i] (as_cache s)))"
proof -
  obtain r' x where d: "repo_Delete repo (as_repo s) i = (r', x)"
    by (cases "repo_Delete repo (as_repo s) i")
  show ?thesis
    using d assms repo_delete_ok [of "as_repo s" i r'] repo_delete_err [of "as_repo s" i r']
    by (cases x) (auto simp: usecase_Delete_def)
qed

lemma fetch_user_cases:
  assumes "uu_userRepo uc = repo"
  obtains (found) u where "users r i = Some u" "fetch_user uc i r = (r, Inr (Some (ToResponse u)))"
    | (failed) e where "fetch_user uc i r = (r, Inl e)"
  using assms repo_id_ok [of r i] by (cases "repo_FindByID repo r i") (auto simp: fetch_user_def)

lemma get_all_window:
  assumes "usecase_GetAll uc page pageSize s = Inr (us, n)" "uu_userRepo uc = repo"
  shows "us = map ToResponse (window (clamp_size pageSize) (page_offset page pageSize) (listed (as_repo s)))"
    "n = int (length (listed (as_repo s)))"
proof -
  obtain vs where all: "repo_FindAll repo (as_repo s) (clamp_size pageSize) (page_offset page pageSize) =
      Inr (vs, n)" "us = map ToResponse vs"
    using assms by (auto simp: usecase_GetAll_def split: sum.splits)
  have "0 \<le> clamp_size pageSize" using clamp_bounds(2) [of pageSize] by simp
  from repo_all_ok [OF all(1) this] all(2)
  show "us = map ToResponse (window (clamp_size pageSize) (page_offset page pageSize) (listed (as_repo s)))"
    and n: "n = int (length (listed (as_repo s)))"
    by (simp_all add: users_count)
qed

end

end
