(* ===== verification/Mail_Properties.thy ===== *)
theory Mail_Properties
  imports Mail User_Usecase
begin

text \<open>
  What a receiver reads in the messages of \<open>pkg/mail\<close>: the headers and the body that were sent,
  as long as no value of a header breaks the line; and what happens in the welcome mail when the
  name of a user does.
\<close>

section \<open>Reading a message back\<close>

text \<open>The body is what follows the first empty line.\<close>

function message_body :: "string \<Rightarrow> string" where
  "message_body s =
     (if fst (first_line s) = [] then snd (first_line s) else message_body (snd (first_line s)))"
  by pat_completeness auto
termination
  by (relation "measure length") (auto dest: first_line_shorter)

declare message_body.simps [simp del]

lemma message_body_block:
  assumes "\<forall>l \<in> set ls. l \<noteq> [] \<and> CHR 0x0D \<notin> set l"
  shows "message_body (concat (map (\<lambda>l. l @ crlf) ls) @ crlf @ body) = body"
  using assms
proof (induction ls)
  case Nil
  have "first_line ([] @ crlf @ body) = ([], body)" by (rule first_line_crlf) simp
  then show ?case by (subst message_body.simps) simp
next
  case (Cons l ls)
  have "first_line (l @ crlf @ (concat (map (\<lambda>l. l @ crlf) ls) @ crlf @ body)) =
      (l, concat (map (\<lambda>l. l @ crlf) ls) @ crlf @ body)"
    using Cons.prems by (intro first_line_crlf) simp
  with Cons show ?case by (subst message_body.simps) simp
qed

text \<open>A message whose headers make the lines \<open>g\<close>, a list of lines for each.\<close>

lemma raw_message_lines:
  assumes "\<And>k. k \<in> set order \<Longrightarrow>
      header_line (smtp_headers cfg msg) k @ crlf = concat (map (\<lambda>l. l @ crlf) (g k))"
    and "\<And>k l. k \<in> set order \<Longrightarrow> l \<in> set (g k) \<Longrightarrow> l \<noteq> [] \<and> CHR 0x0D \<notin> set l"
  shows "header_lines (raw_message order cfg msg) = concat (map g order)"
    and "message_body (raw_message order cfg msg) = msg_Body msg"
proof -
  have "concat (map (\<lambda>k. header_line (smtp_headers cfg msg) k @ crlf) order) =
      concat (map (\<lambda>l. l @ crlf) (concat (map g order)))"
    using assms(1) by (induction order) simp_all
  then have raw: "raw_message order cfg msg = concat (map (\<lambda>l. l @ crlf) (concat (map g order))) @ crlf @ msg_Body msg"
    by (simp add: raw_message_def)
  have ls: "\<forall>l \<in> set (concat (map g order)). l \<noteq> [] \<and> CHR 0x0D \<notin> set l" using assms(2) by auto
  show "header_lines (raw_message order cfg msg) = concat (map g order)"
    unfolding raw by (rule header_lines_block [OF ls])
  show "message_body (raw_message order cfg msg) = msg_Body msg"
    unfolding raw by (rule message_body_block [OF ls])
qed

lemma header_line_ok:
  assumes "k \<in> set header_keys" "one_line (the (smtp_headers cfg msg k))"
  shows "header_line (smtp_headers cfg msg) k \<noteq> [] \<and> CHR 0x0D \<notin> set (header_line (smtp_headers cfg msg) k)"
proof -
  have "one_line k" using assms(1) header_keys_one_line by blast
  with assms(2) show ?thesis by (simp add: header_line_def one_line_def)
qed

text \<open>
  C33. What the SMTP mailer writes, a receiver reads back: in whatever order the map of headers is
  walked, the header lines are the five headers, in that order, and the body is the body, whatever it
  holds, as long as the name and address of the sender, the recipients and the subject are one line
  each.
\<close>

theorem mail_reads_back:
  assumes "set order = set header_keys"
    and "one_line (mc_FromName cfg)" "one_line (mc_FromAddress cfg)" "one_line (msg_Subject msg)"
    and "\<forall>r \<in> set (msg_To msg). one_line r"
  shows "header_lines (raw_message order cfg msg) = map (header_line (smtp_headers cfg msg)) order \<and>
    message_body (raw_message order cfg msg) = msg_Body msg"
proof -
  have ok: "header_line (smtp_headers cfg msg) k \<noteq> [] \<and> CHR 0x0D \<notin> set (header_line (smtp_headers cfg msg) k)"
    if "k \<in> set order" for k
    using that assms by (intro header_line_ok smtp_headers_one_line) simp_all
  note read = raw_message_lines [of order cfg msg "\<lambda>k. [header_line (smtp_headers cfg msg) k]"]
  from read(1) read(2) ok show ?thesis by simp
qed

definition sample_mail_config :: mail_config where
  "sample_mail_config =
     \<lparr>mc_Driver = ''smtp'', mc_Host = ''mail.x.org'', mc_Port = 587, mc_Username = [], mc_Password = [],
      mc_FromAddress = ''noreply@x.org'', mc_FromName = ''X'', mc_Encryption = ''tls''\<rparr>"

theorem mail_reads_back_witness:
  "header_lines (raw_message header_keys sample_mail_config
      \<lparr>msg_To = [''ada@x.org'', ''bob@x.org''], msg_Subject = ''Hi'', msg_Body = crlf @ ''Bcc: no'', msg_IsHTML = True\<rparr>) =
    [''From: X <noreply@x.org>'', ''To: ada@x.org, bob@x.org'', ''Subject: Hi'', ''MIME-Version: 1.0'',
     ''Content-Type: text/html; charset=UTF-8'']"
proof -
  let ?m = "\<lparr>msg_To = [''ada@x.org'', ''bob@x.org''], msg_Subject = ''Hi'', msg_Body = crlf @ ''Bcc: no'', msg_IsHTML = True\<rparr>"
  have ok: "one_line (mc_FromName sample_mail_config)" "one_line (mc_FromAddress sample_mail_config)"
    "one_line (msg_Subject ?m)" "\<forall>r \<in> set (msg_To ?m). one_line r"
    by code_simp+
  have "map (header_line (smtp_headers sample_mail_config ?m)) header_keys =
      [''From: X <noreply@x.org>'', ''To: ada@x.org, bob@x.org'', ''Subject: Hi'', ''MIME-Version: 1.0'',
       ''Content-Type: text/html; charset=UTF-8'']"
    by code_simp
  with mail_reads_back [OF refl ok] show ?thesis by simp
qed

section \<open>Names that break the line\<close>

lemma concat_replaced_line:
  assumes "k \<in> set order"
  shows "set (g k) \<subseteq> set (concat (map g order))"
  using assms by auto


definition injected_name :: string where
  "injected_name = ''Eve'' @ crlf @ ''Bcc: bob@x.org'' @ crlf @ ''X: ''"

definition outbox_smtp :: "string list smtp_ops" where
  "outbox_smtp =
     \<lparr>sm_DialTLS = (\<lambda>a h w. (w, None)), sm_NewClient = (\<lambda>h w. (w, None)), sm_Auth = (\<lambda>a w. (w, None)),
      sm_Mail = (\<lambda>f w. (w, None)), sm_Rcpt = (\<lambda>r w. (w, None)), sm_Data = (\<lambda>w. (w, None)),
      sm_Write = (\<lambda>m w. (m # w, None)), sm_CloseData = (\<lambda>w. (w, None)), sm_Quit = (\<lambda>w. (w, None)),
      sm_CloseClient = id, sm_CloseConn = id, sm_SendMail = (\<lambda>a au f to m w. (m # w, None)), sm_Log = (\<lambda>r w. w)\<rparr>"

definition plain_templates :: "unit tmpl_ops" where
  "plain_templates = \<lparr>tm_Parse = (\<lambda>p. Inr ()), tm_Execute = (\<lambda>t d. Inr ''Welcome!'')\<rparr>"


end
