(* ===== verification/Http_Core.thy ===== *)
theory Http_Core
  imports Domain
begin

text \<open>
  What the HTTP layer shares: the request, the Gin context, and the response helpers of
  \<open>pkg/response/response.go\<close>. Gin and \<open>net/http\<close> are libraries: \<open>gin_context\<close> is the part of
  \<open>*gin.Context\<close> the code uses. Its keys are the context values the middlewares set, its header
  map that of the response writer, \<open>replies\<close> the responses written, in order, and \<open>world\<close> the
  state behind the handlers.

  A middleware is a function of the rest of the chain, which is what \<open>c.Next()\<close> runs; every
  middleware of the repository either calls \<open>Next\<close> once or aborts. A handler may panic, and
  then the context is as it was at that moment: the result of running a chain is \<open>Served\<close> or
  \<open>Panicked\<close>, both with a context.

  JSON bodies are values of \<open>reply_data\<close>; the text they are encoded to is not modelled.
\<close>

section \<open>Requests and contexts\<close>

record request =
  rq_Method :: string
  rq_Path :: string
  rq_Header :: "string \<Rightarrow> string" \<comment> \<open>\<open>c.GetHeader\<close>: empty when it is missing\<close>
  rq_Query :: "string \<rightharpoonup> string"
  rq_Body :: string
  rq_ClientIP :: string
  rq_Time :: instant

record pagination_meta =
  pm_CurrentPage :: int
  pm_PageSize :: int
  pm_TotalItems :: int
  pm_TotalPages :: int

datatype reply_data =
    NoData
  | UserData "user_response option"
  | LoginData login_response
  | PageData "user_response list" pagination_meta
  | Fields "(string \<times> string) list"

record api_response =
  ar_Success :: bool
  ar_Message :: string
  ar_Data :: reply_data
  ar_Error :: "string option"

datatype reply = ApiReply int api_response | JsonReply int "(string \<times> string) list" | StatusReply int

datatype log_level = LevelDebug | LevelInfo | LevelWarn | LevelError

text \<open>A line of the access log, without the latency and the raw query.\<close>

record access_line =
  al_Level :: log_level
  al_Status :: int
  al_Method :: string
  al_Path :: string
  al_ClientIP :: string
  al_RequestID :: string

record 's gin_context =
  c_Request :: request
  c_Params :: "string \<rightharpoonup> string"
  c_Keys :: "string \<rightharpoonup> string"
  c_Headers :: "string \<rightharpoonup> string"
  c_Replies :: "reply list"
  c_Aborted :: bool
  c_Log :: "access_line list"
  c_World :: 's

datatype 's served = Served "'s gin_context" | Panicked "'s gin_context" string

type_synonym 's handler_func = "'s gin_context \<Rightarrow> 's served"
type_synonym 's middleware = "'s handler_func \<Rightarrow> 's gin_context \<Rightarrow> 's served"

fun reply_status :: "reply \<Rightarrow> int" where
  "reply_status (ApiReply n r) = n"
| "reply_status (JsonReply n fs) = n"
| "reply_status (StatusReply n) = n"

text \<open>\<open>c.Writer.Status()\<close>: that of the reply, 200 as long as there is none.\<close>

definition writer_Status :: "'s gin_context \<Rightarrow> int" where
  "writer_Status c = (if c_Replies c = [] then 200 else reply_status (last (c_Replies c)))"

definition new_context :: "request \<Rightarrow> 's \<Rightarrow> 's gin_context" where
  "new_context rq w =
     \<lparr>c_Request = rq, c_Params = Map.empty, c_Keys = Map.empty, c_Headers = Map.empty, c_Replies = [],
      c_Aborted = False, c_Log = [], c_World = w\<rparr>"

text \<open>\<open>c.Set\<close>, \<open>c.Get\<close>, \<open>c.Abort\<close>, \<open>c.JSON\<close>, \<open>c.Writer.Header().Set\<close>, \<open>c.Param\<close>,
  \<open>c.DefaultQuery\<close>.\<close>

definition ctx_Set :: "string \<Rightarrow> string \<Rightarrow> 's gin_context \<Rightarrow> 's gin_context" where
  "ctx_Set k v c = c\<lparr>c_Keys := (c_Keys c)(k \<mapsto> v)\<rparr>"

definition ctx_Get :: "string \<Rightarrow> 's gin_context \<Rightarrow> string option" where
  "ctx_Get k c = c_Keys c k"

definition ctx_Abort :: "'s gin_context \<Rightarrow> 's gin_context" where
  "ctx_Abort c = c\<lparr>c_Aborted := True\<rparr>"

definition ctx_Reply :: "reply \<Rightarrow> 's gin_context \<Rightarrow> 's gin_context" where
  "ctx_Reply r c = c\<lparr>c_Replies := c_Replies c @ [r]\<rparr>"

definition ctx_Header :: "string \<Rightarrow> string \<Rightarrow> 's gin_context \<Rightarrow> 's gin_context" where
  "ctx_Header k v c = c\<lparr>c_Headers := (c_Headers c)(k \<mapsto> v)\<rparr>"

definition ctx_Param :: "string \<Rightarrow> 's gin_context \<Rightarrow> string" where
  "ctx_Param k c = (case c_Params c k of None \<Rightarrow> [] | Some v \<Rightarrow> v)"

definition ctx_DefaultQuery :: "string \<Rightarrow> string \<Rightarrow> 's gin_context \<Rightarrow> string" where
  "ctx_DefaultQuery k dflt c = (case rq_Query (c_Request c) k of None \<Rightarrow> dflt | Some v \<Rightarrow> v)"

section \<open>Response helpers\<close>

definition response_Success :: "int \<Rightarrow> string \<Rightarrow> reply_data \<Rightarrow> 's gin_context \<Rightarrow> 's gin_context" where
  "response_Success statusCode message data c =
     ctx_Reply (ApiReply statusCode
       \<lparr>ar_Success = True, ar_Message = message, ar_Data = data, ar_Error = None\<rparr>) c"

definition response_OK :: "string \<Rightarrow> reply_data \<Rightarrow> 's gin_context \<Rightarrow> 's gin_context" where
  "response_OK message data c = response_Success 200 message data c"

definition response_Created :: "string \<Rightarrow> reply_data \<Rightarrow> 's gin_context \<Rightarrow> 's gin_context" where
  "response_Created message data c = response_Success 201 message data c"

definition total_pages :: "int \<Rightarrow> int \<Rightarrow> int" where
  "total_pages totalItems pageSize =
     (if pageSize > 0 then go_quot (wrap64 (wrap64 (totalItems + pageSize) - 1)) pageSize else 0)"

definition response_Paginated ::
  "string \<Rightarrow> user_response list \<Rightarrow> int \<Rightarrow> int \<Rightarrow> int \<Rightarrow> 's gin_context \<Rightarrow> 's gin_context" where
  "response_Paginated message items totalItems page pageSize c =
     response_Success 200 message
       (PageData items
         \<lparr>pm_CurrentPage = page, pm_PageSize = pageSize, pm_TotalItems = totalItems,
          pm_TotalPages = total_pages totalItems pageSize\<rparr>) c"

definition response_Error :: "int \<Rightarrow> string \<Rightarrow> string option \<Rightarrow> 's gin_context \<Rightarrow> 's gin_context" where
  "response_Error statusCode message errDetail c =
     ctx_Reply (ApiReply statusCode
       \<lparr>ar_Success = False, ar_Message = message, ar_Data = NoData, ar_Error = errDetail\<rparr>) c"

section \<open>Chains\<close>

text \<open>The chain of a route: its middlewares around its last handler.\<close>

definition chain :: "'s middleware list \<Rightarrow> 's handler_func \<Rightarrow> 's handler_func" where
  "chain ms h = foldr (\<lambda>m next. m next) ms h"

fun served_context :: "'s served \<Rightarrow> 's gin_context" where
  "served_context (Served c) = c"
| "served_context (Panicked c msg) = c"

fun is_served :: "'s served \<Rightarrow> bool" where
  "is_served (Served c) = True"
| "is_served (Panicked c msg) = False"

section \<open>Lemmas\<close>

lemma chain_simps [simp]: "chain [] h = h" "chain (m # ms) h = m (chain ms h)"
  by (simp_all add: chain_def)

lemma chain_append: "chain (ms @ ns) h = chain ms (chain ns h)"
  by (simp add: chain_def)

text \<open>What the small context operations change and what they keep.\<close>

named_theorems ctx_simps \<open>projections of context updates\<close>

lemma ctx_Set_simps [ctx_simps]:
  "c_Keys (ctx_Set k v c) = (c_Keys c)(k \<mapsto> v)" "c_Request (ctx_Set k v c) = c_Request c"
  "c_Headers (ctx_Set k v c) = c_Headers c" "c_Replies (ctx_Set k v c) = c_Replies c"
  "c_Log (ctx_Set k v c) = c_Log c" "c_World (ctx_Set k v c) = c_World c" "c_Params (ctx_Set k v c) = c_Params c"
  by (simp_all add: ctx_Set_def)

lemma ctx_Abort_simps [ctx_simps]:
  "c_Keys (ctx_Abort c) = c_Keys c" "c_Request (ctx_Abort c) = c_Request c"
  "c_Headers (ctx_Abort c) = c_Headers c" "c_Replies (ctx_Abort c) = c_Replies c"
  "c_Log (ctx_Abort c) = c_Log c" "c_World (ctx_Abort c) = c_World c" "c_Params (ctx_Abort c) = c_Params c"
  by (simp_all add: ctx_Abort_def)

lemma ctx_Reply_simps [ctx_simps]:
  "c_Keys (ctx_Reply r c) = c_Keys c" "c_Request (ctx_Reply r c) = c_Request c"
  "c_Headers (ctx_Reply r c) = c_Headers c" "c_Replies (ctx_Reply r c) = c_Replies c @ [r]"
  "c_Log (ctx_Reply r c) = c_Log c" "c_World (ctx_Reply r c) = c_World c" "c_Params (ctx_Reply r c) = c_Params c"
  by (simp_all add: ctx_Reply_def)

lemma ctx_Header_simps [ctx_simps]:
  "c_Keys (ctx_Header k v c) = c_Keys c" "c_Request (ctx_Header k v c) = c_Request c"
  "c_Headers (ctx_Header k v c) = (c_Headers c)(k \<mapsto> v)" "c_Replies (ctx_Header k v c) = c_Replies c"
  "c_Log (ctx_Header k v c) = c_Log c" "c_World (ctx_Header k v c) = c_World c" "c_Params (ctx_Header k v c) = c_Params c"
  by (simp_all add: ctx_Header_def)

lemmas response_defs =
  response_Success_def response_OK_def response_Created_def response_Paginated_def response_Error_def

text \<open>Within the range of an \<open>int64\<close> the number of pages is the quotient rounded up.\<close>

lemma total_pages_exact:
  assumes "0 \<le> n" "0 < sz" "n + sz < 2 ^ 63"
  shows "total_pages n sz = (n + sz - 1) div sz"
proof -
  have "wrap64 (n + sz) = n + sz" "wrap64 (n + sz - 1) = n + sz - 1"
    using assms by (auto intro!: wrap64_id)
  with assms show ?thesis by (simp add: total_pages_def go_quot_pos)
qed

lemma total_pages_cover:
  assumes "0 \<le> n" "0 < sz" "n + sz < 2 ^ 63"
  shows "n \<le> total_pages n sz * sz \<and> (total_pages n sz - 1) * sz < n \<or>
    n = 0 \<and> total_pages n sz = 0"
proof -
  let ?q = "(n + sz - 1) div sz"
  have "?q * sz + (n + sz - 1) mod sz = n + sz - 1" by simp
  moreover have "0 \<le> (n + sz - 1) mod sz" "(n + sz - 1) mod sz < sz" using assms by simp_all
  ultimately have a: "n \<le> ?q * sz" and b: "?q * sz \<le> n + sz - 1" by linarith+
  have c: "(?q - 1) * sz = ?q * sz - sz" by (simp add: algebra_simps)
  show ?thesis
  proof (cases "n = 0")
    case True
    with assms have "?q = 0" by simp
    with True total_pages_exact [OF assms] show ?thesis by simp
  next
    case False
    with a b c total_pages_exact [OF assms] assms show ?thesis by simp
  qed
qed

end
