(* ===== verification/Middleware.thy ===== *)
theory Middleware
  imports Http_Core Credentials Config
begin

text \<open>
  \<open>internal/delivery/http/middleware\<close>: request identifiers, logging, panic recovery, security
  headers, CORS, the rate limiter per client address, and the bearer-token check. The clock of a
  request is \<open>rq_Time\<close>; a fresh identifier is an argument. \<open>golang.org/x/time/rate\<close> is the
  record \<open>limiter_ops\<close>. The limiter's map of clients is part of the world behind the handlers.
  The lines of the access log are kept in the context.

  Lemmas: what each middleware does to the context; what it lets through.
\<close>

section \<open>Request identifiers\<close>

definition RequestIDHeader :: string where "RequestIDHeader = ''X-Request-ID''"
definition RequestIDKey :: string where "RequestIDKey = ''RequestID''"

definition request_id_char :: "char \<Rightarrow> bool" where
  "request_id_char c =
     (let n = (of_char c :: nat) in
      97 \<le> n \<and> n \<le> 122 \<or> 65 \<le> n \<and> n \<le> 90 \<or> 48 \<le> n \<and> n \<le> 57 \<or>
      c = CHR ''-'' \<or> c = CHR ''_'' \<or> c = CHR ''.'')"

definition isValidRequestID :: "string \<Rightarrow> bool" where
  "isValidRequestID i \<longleftrightarrow> length i \<noteq> 0 \<and> length i \<le> 64 \<and> list_all request_id_char i"

definition RequestID :: "string \<Rightarrow> 's middleware" where
  "RequestID uuid next c =
     (let h = rq_Header (c_Request c) RequestIDHeader;
          reqID = (if isValidRequestID h then h else uuid)
      in next (ctx_Header RequestIDHeader reqID (ctx_Set RequestIDKey reqID c)))"

definition GetRequestID :: "'s gin_context \<Rightarrow> string" where
  "GetRequestID c = (case ctx_Get RequestIDKey c of None \<Rightarrow> [] | Some i \<Rightarrow> i)"

section \<open>Logging and recovery\<close>

definition log_level_of :: "int \<Rightarrow> log_level" where
  "log_level_of statusCode =
     (if statusCode \<ge> 500 then LevelError else if statusCode \<ge> 400 then LevelWarn else LevelInfo)"

definition log_request :: "request \<Rightarrow> 's gin_context \<Rightarrow> 's gin_context" where
  "log_request rq c =
     c\<lparr>c_Log := c_Log c @
        [\<lparr>al_Level = log_level_of (writer_Status c), al_Status = writer_Status c, al_Method = rq_Method rq,
          al_Path = rq_Path rq, al_ClientIP = rq_ClientIP rq, al_RequestID = GetRequestID c\<rparr>]\<rparr>"

definition Logger :: "'s middleware" where
  "Logger next c =
     (case next c of
        Served c' \<Rightarrow> Served (log_request (c_Request c) c')
      | Panicked c' msg \<Rightarrow> Panicked c' msg)"

definition Recovery :: "'s middleware" where
  "Recovery next c =
     (case next c of
        Served c' \<Rightarrow> Served c'
      | Panicked c' msg \<Rightarrow>
          Served (ctx_Abort (response_Error 500 ''Internal server error occurred'' None c')))"

section \<open>Headers\<close>

definition SecurityHeaders :: "string \<Rightarrow> 's middleware" where
  "SecurityHeaders appEnv next c =
     (let c1 = ctx_Header ''X-Content-Type-Options'' ''nosniff'' c;
          c2 = ctx_Header ''X-Frame-Options'' ''DENY'' c1;
          c3 = ctx_Header ''X-XSS-Protection'' ''1; mode=block'' c2;
          c4 = ctx_Header ''Referrer-Policy'' ''strict-origin-when-cross-origin'' c3
      in next (if appEnv = ''production''
               then ctx_Header ''Strict-Transport-Security'' ''max-age=31536000; includeSubDomains'' c4
               else c4))"

definition allow_origin :: string where "allow_origin = ''Access-Control-Allow-Origin''"
definition allow_credentials :: string where "allow_credentials = ''Access-Control-Allow-Credentials''"
definition allow_headers :: string where "allow_headers = ''Access-Control-Allow-Headers''"
definition allow_methods :: string where "allow_methods = ''Access-Control-Allow-Methods''"

definition cors_methods :: "cors_config \<Rightarrow> string" where
  "cors_methods cfg =
     (if cors_AllowedMethods cfg \<noteq> [] then join '', '' (cors_AllowedMethods cfg)
      else ''GET, POST, PUT, PATCH, DELETE, OPTIONS'')"

definition cors_headers :: "cors_config \<Rightarrow> string" where
  "cors_headers cfg =
     (if cors_AllowedHeaders cfg \<noteq> [] then join '', '' (cors_AllowedHeaders cfg)
      else ''Content-Type, Content-Length, Accept-Encoding, X-CSRF-Token, Authorization, Accept, Origin, Cache-Control, X-Requested-With'')"

text \<open>The value for \<open>Access-Control-Allow-Origin\<close>, if the header is set.\<close>

definition cors_origin :: "cors_config \<Rightarrow> string \<Rightarrow> string option" where
  "cors_origin cfg reqOrigin =
     (let allowAll = ''*'' \<in> set (cors_AllowedOrigins cfg) in
      if reqOrigin \<noteq> [] then
        (if allowAll then Some (if cors_AllowCredentials cfg then reqOrigin else ''*'')
         else if reqOrigin \<in> set (cors_AllowedOrigins cfg) then Some reqOrigin
         else None)
      else if allowAll \<and> \<not> cors_AllowCredentials cfg then Some ''*''
      else None)"

definition CORS :: "cors_config \<Rightarrow> 's middleware" where
  "CORS cfg next c =
     (let c1 = (case cors_origin cfg (rq_Header (c_Request c) ''Origin'') of
                  None \<Rightarrow> c | Some o' \<Rightarrow> ctx_Header allow_origin o' c);
          c2 = (if cors_AllowCredentials cfg then ctx_Header allow_credentials ''true'' c1 else c1);
          c3 = ctx_Header ''Vary'' ''Origin''
                 (ctx_Header allow_methods (cors_methods cfg)
                   (ctx_Header allow_headers (cors_headers cfg) c2))
      in if rq_Method (c_Request c) = ''OPTIONS''
         then Served (ctx_Abort (ctx_Reply (StatusReply 204) c3))
         else next c3)"

section \<open>The rate limiter\<close>

record 'l limiter_ops =
  lm_New :: "rat \<Rightarrow> int \<Rightarrow> 'l"
  lm_Allow :: "'l \<Rightarrow> instant \<Rightarrow> 'l \<times> bool"

record ip_rate_limiter =
  irl_rps :: rat
  irl_burst :: int
  irl_enabled :: bool

type_synonym 'l clients = "string \<rightharpoonup> 'l \<times> instant"

record ('s, 'l) server_world =
  sw_app :: 's
  sw_clients :: "'l clients"

definition NewIPRateLimiter :: "rate_limit_config \<Rightarrow> ip_rate_limiter" where
  "NewIPRateLimiter cfg =
     \<lparr>irl_rps = rl_RequestsPerSecond cfg, irl_burst = rl_Burst cfg, irl_enabled = rl_Enabled cfg\<rparr>"

definition getLimiter ::
  "'l limiter_ops \<Rightarrow> ip_rate_limiter \<Rightarrow> string \<Rightarrow> instant \<Rightarrow> 'l clients \<Rightarrow> 'l clients \<times> 'l" where
  "getLimiter M l ip now clients =
     (case clients ip of
        None \<Rightarrow> (let lmt = lm_New M (irl_rps l) (irl_burst l) in (clients(ip \<mapsto> (lmt, now)), lmt))
      | Some (lmt, seen) \<Rightarrow> (clients(ip \<mapsto> (lmt, now)), lmt))"

text \<open>One tick of \<open>cleanupStaleClients\<close>.\<close>

definition cleanupStaleClients :: "duration \<Rightarrow> instant \<Rightarrow> 'l clients \<Rightarrow> 'l clients" where
  "cleanupStaleClients interval now clients ip =
     (case clients ip of
        None \<Rightarrow> None
      | Some (lmt, seen) \<Rightarrow> if now - seen > interval then None else Some (lmt, seen))"

text \<open>\<open>limiter.Allow()\<close> changes the limiter that the map points to.\<close>

definition RateLimit :: "'l limiter_ops \<Rightarrow> ip_rate_limiter \<Rightarrow> ('s, 'l) server_world middleware" where
  "RateLimit M l next c =
     (if \<not> irl_enabled l then next c
      else
        let ip = rq_ClientIP (c_Request c); now = rq_Time (c_Request c);
            (clients, lmt) = getLimiter M l ip now (sw_clients (c_World c));
            (lmt', allowed) = lm_Allow M lmt now;
            c1 = c\<lparr>c_World := (c_World c)\<lparr>sw_clients := clients(ip \<mapsto> (lmt', now))\<rparr>\<rparr>
        in if \<not> allowed
           then Served (ctx_Abort (response_Error 429 ''Too many requests. Please try again later.'' None c1))
           else next c1)"

section \<open>Authentication\<close>

definition ContextUserIDKey :: string where "ContextUserIDKey = ''userID''"
definition ContextUserEmailKey :: string where "ContextUserEmailKey = ''userEmail''"

definition unauthorized :: "string \<Rightarrow> string option \<Rightarrow> 's gin_context \<Rightarrow> 's served" where
  "unauthorized message detail c = Served (ctx_Abort (response_Error 401 message detail c))"

definition AuthMiddleware :: "jwt_ops \<Rightarrow> jwt_service \<Rightarrow> 's middleware" where
  "AuthMiddleware J svc next c =
     (let authHeader = rq_Header (c_Request c) ''Authorization'' in
      if authHeader = [] then unauthorized ''Authorization header is required'' None c
      else let parts = split_2 CHR '' '' authHeader in
        if length parts \<noteq> 2 \<or> \<not> equal_fold (parts ! 0) ''Bearer''
        then unauthorized ''Authorization header must be in Bearer token format'' None c
        else let tokenString = trim_space (parts ! 1) in
          if tokenString = [] then unauthorized ''Bearer token is empty'' None c
          else case ValidateToken J svc (rq_Time (c_Request c)) tokenString of
            Inl e \<Rightarrow> unauthorized ''Invalid or expired token'' (Some (error_text e)) c
          | Inr claims \<Rightarrow>
              next (ctx_Set ContextUserEmailKey (cl_Email claims)
                     (ctx_Set ContextUserIDKey (cl_UserID claims) c)))"

definition GetUserIDFromContext :: "'s gin_context \<Rightarrow> string option" where
  "GetUserIDFromContext c = ctx_Get ContextUserIDKey c"

section \<open>Lemmas\<close>

lemma key_names [simp]:
  "ContextUserIDKey \<noteq> ContextUserEmailKey" "RequestIDKey \<noteq> ContextUserIDKey"
  "RequestIDKey \<noteq> ContextUserEmailKey"
  by code_simp+

lemma log_request_simps [ctx_simps]:
  "c_Keys (log_request rq c) = c_Keys c" "c_Request (log_request rq c) = c_Request c"
  "c_Headers (log_request rq c) = c_Headers c" "c_Replies (log_request rq c) = c_Replies c"
  "c_World (log_request rq c) = c_World c" "c_Params (log_request rq c) = c_Params c"
  by (simp_all add: log_request_def)

text \<open>The token a request carries, as the middleware reads it.\<close>

definition bearer_token :: "request \<Rightarrow> string option" where
  "bearer_token rq =
     (let parts = split_2 CHR '' '' (rq_Header rq ''Authorization'') in
      if length parts = 2 \<and> equal_fold (parts ! 0) ''Bearer'' \<and> trim_space (parts ! 1) \<noteq> []
      then Some (trim_space (parts ! 1)) else None)"

lemma AuthMiddleware_cases:
  obtains (ok) tok claims where "bearer_token (c_Request c) = Some tok"
      "ValidateToken J svc (rq_Time (c_Request c)) tok = Inr claims"
      "AuthMiddleware J svc next c =
        next (ctx_Set ContextUserEmailKey (cl_Email claims) (ctx_Set ContextUserIDKey (cl_UserID claims) c))"
  | (refused) msg detail where "AuthMiddleware J svc next c = unauthorized msg detail c"
      "\<And>tok claims. bearer_token (c_Request c) = Some tok \<Longrightarrow>
         ValidateToken J svc (rq_Time (c_Request c)) tok \<noteq> Inr claims"
proof -
  let ?h = "rq_Header (c_Request c) ''Authorization''"
  let ?p = "split_2 CHR '' '' ?h"
  let ?t = "trim_space (?p ! 1)"
  have empty: "?h = [] \<Longrightarrow> length ?p = 1" by (simp add: split_2_def)
  show ?thesis
  proof (cases "?h = [] \<or> length ?p \<noteq> 2 \<or> \<not> equal_fold (?p ! 0) ''Bearer'' \<or> ?t = []")
    case True
    then have "bearer_token (c_Request c) = None"
      using empty by (auto simp: bearer_token_def Let_def)
    moreover have "\<exists>msg. AuthMiddleware J svc next c = unauthorized msg None c"
      using True by (auto simp: AuthMiddleware_def Let_def)
    ultimately show ?thesis by (metis option.distinct(1) refused)
  next
    case False
    then have tok: "bearer_token (c_Request c) = Some ?t"
      by (simp add: bearer_token_def Let_def)
    have auth: "AuthMiddleware J svc next c =
        (case ValidateToken J svc (rq_Time (c_Request c)) ?t of
           Inl e \<Rightarrow> unauthorized ''Invalid or expired token'' (Some (error_text e)) c
         | Inr claims \<Rightarrow> next (ctx_Set ContextUserEmailKey (cl_Email claims)
             (ctx_Set ContextUserIDKey (cl_UserID claims) c)))"
      using False by (simp add: AuthMiddleware_def Let_def)
    show ?thesis
    proof (cases "ValidateToken J svc (rq_Time (c_Request c)) ?t")
      case (Inl e)
      with auth tok show ?thesis by (intro refused [of _ "Some (error_text e)"]) auto
    next
      case (Inr claims)
      with auth tok show ?thesis by (intro ok) auto
    qed
  qed
qed

lemma RateLimit_other_clients:
  assumes "RateLimit M l next c = Served c'" "\<And>d. next d = Served d"
    and "ip \<noteq> rq_ClientIP (c_Request c)"
  shows "sw_clients (c_World c') ip = sw_clients (c_World c) ip"
  using assms
  by (auto simp: RateLimit_def getLimiter_def response_defs ctx_simps Let_def
      split: if_splits prod.splits option.splits)

lemma cors_origin_listed:
  "cors_origin cfg o' = Some v \<Longrightarrow>
   v = ''*'' \<and> ''*'' \<in> set (cors_AllowedOrigins cfg) \<and> \<not> cors_AllowCredentials cfg \<or>
   v = o' \<and> o' \<noteq> [] \<and> (''*'' \<in> set (cors_AllowedOrigins cfg) \<or> o' \<in> set (cors_AllowedOrigins cfg))"
  by (auto simp: cors_origin_def Let_def split: if_splits)

end
