(* ===== verification/Handlers.thy ===== *)
theory Handlers
  imports Middleware User_Usecase
begin

text \<open>
  \<open>internal/delivery/http/handler\<close>: the handlers of the user routes and of the health probes.
  The world behind them is the state of the use case with the limiter's clients. Decoding and
  validation of a JSON body, \<open>c.ShouldBindJSON\<close>, is a decoder of the library followed by the
  binding tags of \<open>Domain\<close>; \<open>strconv.Atoi\<close> is \<open>go_atoi\<close>. What a request draws at random and
  the clock readings of a registration are its \<open>seed\<close>.

  Lemmas: every handler writes exactly one reply, or panics before it wrote any, and never
  touches a header.
\<close>

section \<open>Libraries\<close>

record http_libs =
  hl_libs :: libs
  hl_decode_create :: "string \<Rightarrow> err + create_user_request"
  hl_decode_login :: "string \<Rightarrow> err + login_request"
  hl_decode_update :: "string \<Rightarrow> err + update_user_request"
  hl_is_email :: "string \<Rightarrow> bool"
  hl_invalid :: err \<comment> \<open>the validator's error\<close>
  hl_time :: "instant \<Rightarrow> string" \<comment> \<open>how a time is printed in JSON\<close>

record seed =
  sd_salt :: string
  sd_uuid :: string
  sd_created :: instant
  sd_updated :: instant

definition bind_json :: "(string \<Rightarrow> err + 'a) \<Rightarrow> ('a \<Rightarrow> bool) \<Rightarrow> err \<Rightarrow> string \<Rightarrow> err + 'a" where
  "bind_json decode ok invalid body =
     (case decode body of
        Inl e \<Rightarrow> Inl e
      | Inr r \<Rightarrow> if ok r then Inr r else Inl invalid)"

text \<open>
  \<open>n, _ := strconv.Atoi(s)\<close>: zero for text that is not a number, the nearest bound of \<open>int\<close> for one
  that does not fit. The library reads digit by digit and gives up as soon as the number exceeds 64 bits,
  so what follows then is not looked at.
\<close>

definition is_digit :: "char \<Rightarrow> bool" where
  "is_digit c = (let n = (of_char c :: nat) in 48 \<le> n \<and> n \<le> 57)"

fun parse_uint :: "int \<Rightarrow> string \<Rightarrow> int option" where
  "parse_uint n [] = Some n"
| "parse_uint n (c # cs) =
     (if \<not> is_digit c then None
      else let n' = n * 10 + (of_char c - 48) in
        if n' > 2 ^ 64 - 1 then Some (2 ^ 64 - 1) else parse_uint n' cs)"

definition go_atoi :: "string \<Rightarrow> int" where
  "go_atoi s =
     (let (neg, ds) = (case s of
            c # r \<Rightarrow> if c = CHR ''-'' then (True, r) else if c = CHR ''+'' then (False, r) else (False, s)
          | [] \<Rightarrow> (False, s))
      in if ds = [] then 0
         else case parse_uint 0 ds of
           None \<Rightarrow> 0
         | Some n \<Rightarrow> max (- (2 ^ 63)) (min max_int64 (if neg then - n else n)))"

section \<open>Users\<close>

type_synonym ('r, 'd, 'q, 'l) world = "(('r, 'd, 'q) app_state, 'l) server_world"

definition with_app ::
  "('r, 'd, 'q) app_state \<Rightarrow> ('r, 'd, 'q, 'l) world gin_context \<Rightarrow> ('r, 'd, 'q, 'l) world gin_context" where
  "with_app s c = c\<lparr>c_World := (c_World c)\<lparr>sw_app := s\<rparr>\<rparr>"

definition app_of :: "('r, 'd, 'q, 'l) world gin_context \<Rightarrow> ('r, 'd, 'q) app_state" where
  "app_of c = sw_app (c_World c)"

definition handler_Create ::
  "http_libs \<Rightarrow> ('r, 'd, 'q, 'w) user_usecase \<Rightarrow> seed \<Rightarrow> ('r, 'd, 'q, 'l) world handler_func" where
  "handler_Create H uc sd c =
     (case bind_json (hl_decode_create H) (create_user_request_ok (hl_is_email H)) (hl_invalid H)
             (rq_Body (c_Request c)) of
        Inl e \<Rightarrow> Served (response_Error 400 ''Invalid request payload'' (Some (error_text e)) c)
      | Inr req \<Rightarrow>
          (case usecase_Register (hl_libs H) uc RequestContext req (sd_salt sd) (sd_uuid sd)
                  (sd_created sd) (sd_updated sd) (app_of c) of
             (s', Panic msg) \<Rightarrow> Panicked (with_app s' c) msg
           | (s', Ret (Inl e)) \<Rightarrow>
               if errors_is e ErrAlreadyExists
               then Served (response_Error 409 ''Email already registered'' None (with_app s' c))
               else Served (response_Error 500 ''Failed to create user'' (Some (error_text e)) (with_app s' c))
           | (s', Ret (Inr u)) \<Rightarrow>
               Served (response_Created ''User created successfully'' (UserData (Some u)) (with_app s' c))))"

definition handler_Login ::
  "http_libs \<Rightarrow> ('r, 'd, 'q, 'w) user_usecase \<Rightarrow> ('r, 'd, 'q, 'l) world handler_func" where
  "handler_Login H uc c =
     (case bind_json (hl_decode_login H) (login_request_ok (hl_is_email H)) (hl_invalid H)
             (rq_Body (c_Request c)) of
        Inl e \<Rightarrow> Served (response_Error 400 ''Invalid login credentials format'' (Some (error_text e)) c)
      | Inr req \<Rightarrow>
          (case usecase_Login (hl_libs H) uc req (rq_Time (c_Request c)) (app_of c) of
             Inl e \<Rightarrow>
               if errors_is e ErrInvalidCredentials
               then Served (response_Error 401 ''Invalid email or password'' None c)
               else Served (response_Error 500 ''Failed to process login'' (Some (error_text e)) c)
           | Inr resp \<Rightarrow> Served (response_OK ''Login successful'' (LoginData resp) c)))"

definition handler_Logout :: "('r, 'd, 'q, 'l) world handler_func" where
  "handler_Logout c = Served (response_OK ''Logout successful'' NoData c)"

definition handler_GetProfile ::
  "http_libs \<Rightarrow> ('r, 'd, 'q, 'w) user_usecase \<Rightarrow> ('r, 'd, 'q, 'l) world handler_func" where
  "handler_GetProfile H uc c =
     (case GetUserIDFromContext c of
        None \<Rightarrow> Served (response_Error 401 ''Unauthorized access'' None c)
      | Some userID \<Rightarrow>
          (case usecase_GetProfile (hl_libs H) uc userID (app_of c) of
             (s', Inl e) \<Rightarrow>
               if errors_is e ErrNotFound
               then Served (response_Error 404 ''User not found'' None (with_app s' c))
               else Served (response_Error 500 ''Failed to retrieve profile'' (Some (error_text e)) (with_app s' c))
           | (s', Inr u) \<Rightarrow> Served (response_OK ''Profile retrieved successfully'' (UserData u) (with_app s' c))))"

definition handler_GetByID ::
  "http_libs \<Rightarrow> ('r, 'd, 'q, 'w) user_usecase \<Rightarrow> ('r, 'd, 'q, 'l) world handler_func" where
  "handler_GetByID H uc c =
     (let i = ctx_Param ''id'' c in
      if i = [] then Served (response_Error 400 ''User ID is required'' None c)
      else case usecase_GetByID (hl_libs H) uc i (app_of c) of
        (s', Inl e) \<Rightarrow>
          if errors_is e ErrNotFound
          then Served (response_Error 404 ''User not found'' None (with_app s' c))
          else Served (response_Error 500 ''Failed to retrieve user'' (Some (error_text e)) (with_app s' c))
      | (s', Inr u) \<Rightarrow> Served (response_OK ''User retrieved successfully'' (UserData u) (with_app s' c)))"

definition handler_GetAll ::
  "('r, 'd, 'q, 'w) user_usecase \<Rightarrow> ('r, 'd, 'q, 'l) world handler_func" where
  "handler_GetAll uc c =
     (let page = go_atoi (ctx_DefaultQuery ''page'' ''1'' c);
          pageSize = go_atoi (ctx_DefaultQuery ''page_size'' ''10'' c)
      in case usecase_GetAll uc page pageSize (app_of c) of
        Inl e \<Rightarrow> Served (response_Error 500 ''Failed to list users'' (Some (error_text e)) c)
      | Inr (us, n) \<Rightarrow>
          Served (response_Paginated ''Users retrieved successfully'' us n page pageSize c))"

definition handler_Update ::
  "http_libs \<Rightarrow> ('r, 'd, 'q, 'w) user_usecase \<Rightarrow> ('r, 'd, 'q, 'l) world handler_func" where
  "handler_Update H uc c =
     (let i = ctx_Param ''id'' c in
      case bind_json (hl_decode_update H) (update_user_request_ok (hl_is_email H)) (hl_invalid H)
             (rq_Body (c_Request c)) of
        Inl e \<Rightarrow> Served (response_Error 400 ''Invalid request payload'' (Some (error_text e)) c)
      | Inr req \<Rightarrow>
          (case usecase_Update uc i req (rq_Time (c_Request c)) (app_of c) of
             (s', Inl e) \<Rightarrow>
               if errors_is e ErrNotFound
               then Served (response_Error 404 ''User not found'' None (with_app s' c))
               else if errors_is e ErrAlreadyExists
               then Served (response_Error 409 ''Email is already taken'' None (with_app s' c))
               else Served (response_Error 500 ''Failed to update user'' (Some (error_text e)) (with_app s' c))
           | (s', Inr u) \<Rightarrow>
               Served (response_OK ''User updated successfully'' (UserData (Some u)) (with_app s' c))))"

definition handler_Delete ::
  "('r, 'd, 'q, 'w) user_usecase \<Rightarrow> ('r, 'd, 'q, 'l) world handler_func" where
  "handler_Delete uc c =
     (case usecase_Delete uc (ctx_Param ''id'' c) (app_of c) of
        (s', Some e) \<Rightarrow>
          if errors_is e ErrNotFound
          then Served (response_Error 404 ''User not found'' None (with_app s' c))
          else Served (response_Error 500 ''Failed to delete user'' (Some (error_text e)) (with_app s' c))
      | (s', None) \<Rightarrow> Served (response_OK ''User deleted successfully'' NoData (with_app s' c)))"

section \<open>Health\<close>

text \<open>\<open>h.db.DB()\<close> and \<open>sqlDB.PingContext\<close>.\<close>

record 'r health_ops =
  ho_DB :: "'r \<Rightarrow> err option"
  ho_Ping :: "'r \<Rightarrow> err option"

definition database_status :: "'r health_ops \<Rightarrow> 'r \<Rightarrow> string \<times> bool" where
  "database_status HD r =
     (case ho_DB HD r of
        Some e \<Rightarrow> (''error: '' @ error_text e, False)
      | None \<Rightarrow>
          (case ho_Ping HD r of
             Some e \<Rightarrow> (''error: '' @ error_text e, False)
           | None \<Rightarrow> (''connected'', True)))"

definition redis_status :: "'d redis_client option \<Rightarrow> 'd \<Rightarrow> string" where
  "redis_status cache d =
     (if \<not> IsEnabled cache then ''disabled''
      else case client_Ping cache d of
        Some e \<Rightarrow> ''error: '' @ error_text e
      | None \<Rightarrow> ''connected'')"

definition handler_Check ::
  "http_libs \<Rightarrow> 'r health_ops \<Rightarrow> 'd redis_client option \<Rightarrow> ('r, 'd, 'q, 'l) world handler_func" where
  "handler_Check H HD cache c =
     (let (dbStatus, healthy) = database_status HD (as_repo (app_of c));
          data = Fields
            [(''status'', ''up''), (''database'', dbStatus),
             (''redis'', redis_status cache (as_cache (app_of c))),
             (''time'', hl_time H (rq_Time (c_Request c)))]
      in if \<not> healthy then
           Served (ctx_Reply (ApiReply 503
             \<lparr>ar_Success = False, ar_Message = ''Service dependency degraded or unreachable'',
              ar_Data = data, ar_Error = None\<rparr>) c)
         else Served (response_OK ''Service is healthy'' data c))"

definition handler_Liveness :: "http_libs \<Rightarrow> ('r, 'd, 'q, 'l) world handler_func" where
  "handler_Liveness H c =
     Served (ctx_Reply (JsonReply 200
       [(''status'', ''alive''), (''time'', hl_time H (rq_Time (c_Request c)))]) c)"

definition handler_Readiness ::
  "http_libs \<Rightarrow> 'r health_ops \<Rightarrow> ('r, 'd, 'q, 'l) world handler_func" where
  "handler_Readiness H HD c =
     (let r = as_repo (app_of c); dbErr = ho_DB HD r in
      if dbErr \<noteq> None \<or> ho_Ping HD r \<noteq> None then
        Served (ctx_Reply (JsonReply 503
          [(''status'', ''unready''),
           (''reason'', case dbErr of None \<Rightarrow> ''database unavailable'' | Some e \<Rightarrow> error_text e),
           (''time'', hl_time H (rq_Time (c_Request c)))]) c)
      else
        Served (ctx_Reply (JsonReply 200
          [(''status'', ''ready''), (''time'', hl_time H (rq_Time (c_Request c)))]) c))"

section \<open>Lemmas\<close>

text \<open>A handler answers: one more reply, or a panic before any; the headers are left alone.\<close>

definition answers :: "'s handler_func \<Rightarrow> bool" where
  "answers h \<longleftrightarrow>
     (\<forall>c. c_Headers (served_context (h c)) = c_Headers c \<and>
        (case h c of
           Served c' \<Rightarrow> \<exists>r. c_Replies c' = c_Replies c @ [r]
         | Panicked c' msg \<Rightarrow> c_Replies c' = c_Replies c))"

lemma answersI:
  assumes "\<And>c. (\<exists>c' r. h c = Served c' \<and> c_Replies c' = c_Replies c @ [r] \<and> c_Headers c' = c_Headers c) \<or>
    (\<exists>c' msg. h c = Panicked c' msg \<and> c_Replies c' = c_Replies c \<and> c_Headers c' = c_Headers c)"
  shows "answers h"
  unfolding answers_def
proof
  fix c
  from assms [of c] show "c_Headers (served_context (h c)) = c_Headers c \<and>
        (case h c of
           Served c' \<Rightarrow> \<exists>r. c_Replies c' = c_Replies c @ [r]
         | Panicked c' msg \<Rightarrow> c_Replies c' = c_Replies c)"
    by auto
qed

lemma with_app_simps [ctx_simps]:
  "c_Keys (with_app s c) = c_Keys c" "c_Request (with_app s c) = c_Request c"
  "c_Headers (with_app s c) = c_Headers c" "c_Replies (with_app s c) = c_Replies c"
  "c_Params (with_app s c) = c_Params c" "app_of (with_app s c) = s"
  by (simp_all add: with_app_def app_of_def)

lemma answers_Create: "answers (handler_Create H uc sd)"
  by (rule answersI)
    (auto simp: handler_Create_def response_defs ctx_simps
      split: sum.splits prod.splits outcome.splits if_splits)

lemma answers_Login: "answers (handler_Login H uc)"
  by (rule answersI)
    (auto simp: handler_Login_def response_defs ctx_simps split: sum.splits if_splits)

lemma answers_Logout: "answers handler_Logout"
  by (rule answersI) (auto simp: handler_Logout_def response_defs ctx_simps)

lemma answers_GetProfile: "answers (handler_GetProfile H uc)"
  by (rule answersI)
    (auto simp: handler_GetProfile_def response_defs ctx_simps
      split: option.splits sum.splits prod.splits if_splits)

lemma answers_GetByID: "answers (handler_GetByID H uc)"
  by (rule answersI)
    (auto simp: handler_GetByID_def response_defs ctx_simps Let_def
      split: sum.splits prod.splits if_splits)

lemma answers_GetAll: "answers (handler_GetAll uc)"
  by (rule answersI)
    (auto simp: handler_GetAll_def response_defs ctx_simps Let_def split: sum.splits prod.splits)

lemma answers_Update: "answers (handler_Update H uc)"
  by (rule answersI)
    (auto simp: handler_Update_def response_defs ctx_simps Let_def
      split: sum.splits prod.splits if_splits)

lemma answers_Delete: "answers (handler_Delete uc)"
  by (rule answersI)
    (auto simp: handler_Delete_def response_defs ctx_simps
      split: option.splits prod.splits if_splits)

lemma answers_Check: "answers (handler_Check H HD cache)"
  by (rule answersI)
    (auto simp: handler_Check_def response_defs ctx_simps Let_def split: prod.splits)

lemma answers_Liveness: "answers (handler_Liveness H)"
  by (rule answersI) (auto simp: handler_Liveness_def ctx_simps)

lemma answers_Readiness: "answers (handler_Readiness H HD)"
  by (rule answersI) (auto simp: handler_Readiness_def ctx_simps Let_def)

lemmas answers_handlers =
  answers_Create answers_Login answers_Logout answers_GetProfile answers_GetByID answers_GetAll
  answers_Update answers_Delete answers_Check answers_Liveness answers_Readiness

end
