(* ===== verification/Router.thy ===== *)
theory Router
  imports Handlers
begin

text \<open>
  \<open>internal/delivery/http/router.go\<close>: the global middlewares, the routes and what a request goes
  through. Gin finds the route: \<open>lookup\<close> is its search among the registered methods and paths, with
  the three outcomes of an engine made by \<open>gin.New()\<close>. A request with a route runs the global
  middlewares, those of the route and its handler; one without a route runs the global middlewares and
  is answered with 404; and one whose path differs from that of a route by a trailing slash is
  redirected by gin itself, before any middleware runs. The Swagger pages are the handler \<open>swagger\<close>.

  Lemmas: through the whole chain, a request gets exactly one reply and no panic escapes; the
  headers the outer middlewares set stay; a protected route is reached with a valid token only.
\<close>

section \<open>Routes\<close>

record ('r, 'd, 'q, 'w, 'l) router_config =
  rcf_AppEnv :: string
  rcf_libs :: http_libs
  rcf_usecase :: "('r, 'd, 'q, 'w) user_usecase"
  rcf_health :: "'r health_ops"
  rcf_cache :: "'d redis_client option"
  rcf_JWTService :: jwt_service
  rcf_CORS :: cors_config
  rcf_RateLimit :: rate_limit_config
  rcf_limiter :: "'l limiter_ops"
  rcf_swagger :: "('r, 'd, 'q, 'l) world handler_func"

record 's route =
  rt_Method :: string
  rt_Path :: string
  rt_Middlewares :: "'s middleware list"
  rt_Handler :: "'s handler_func"

definition route_auth ::
  "('r, 'd, 'q, 'w, 'l) router_config \<Rightarrow> ('r, 'd, 'q, 'l) world middleware" where
  "route_auth cfg = AuthMiddleware (lib_jwt (hl_libs (rcf_libs cfg))) (rcf_JWTService cfg)"

definition get_route :: "string \<Rightarrow> 's middleware list \<Rightarrow> 's handler_func \<Rightarrow> 's route" where
  "get_route p ms h = \<lparr>rt_Method = ''GET'', rt_Path = p, rt_Middlewares = ms, rt_Handler = h\<rparr>"

definition post_route :: "string \<Rightarrow> 's middleware list \<Rightarrow> 's handler_func \<Rightarrow> 's route" where
  "post_route p ms h = \<lparr>rt_Method = ''POST'', rt_Path = p, rt_Middlewares = ms, rt_Handler = h\<rparr>"

definition public_routes ::
  "('r, 'd, 'q, 'w, 'l) router_config \<Rightarrow> seed \<Rightarrow> ('r, 'd, 'q, 'l) world route list" where
  "public_routes cfg sd =
     [get_route ''/swagger/*any'' [] (rcf_swagger cfg),
      get_route ''/health'' [] (handler_Check (rcf_libs cfg) (rcf_health cfg) (rcf_cache cfg)),
      get_route ''/health/live'' [] (handler_Liveness (rcf_libs cfg)),
      get_route ''/health/ready'' [] (handler_Readiness (rcf_libs cfg) (rcf_health cfg)),
      post_route ''/api/v1/auth/register'' [] (handler_Create (rcf_libs cfg) (rcf_usecase cfg) sd),
      post_route ''/api/v1/auth/login'' [] (handler_Login (rcf_libs cfg) (rcf_usecase cfg)),
      post_route ''/api/v1/auth/logout'' [] handler_Logout]"

definition protected_routes ::
  "('r, 'd, 'q, 'w, 'l) router_config \<Rightarrow> seed \<Rightarrow> ('r, 'd, 'q, 'l) world route list" where
  "protected_routes cfg sd =
     [get_route ''/api/v1/auth/me'' [route_auth cfg] (handler_GetProfile (rcf_libs cfg) (rcf_usecase cfg)),
      post_route ''/api/v1/users'' [route_auth cfg] (handler_Create (rcf_libs cfg) (rcf_usecase cfg) sd),
      get_route ''/api/v1/users'' [route_auth cfg] (handler_GetAll (rcf_usecase cfg)),
      get_route ''/api/v1/users/:id'' [route_auth cfg] (handler_GetByID (rcf_libs cfg) (rcf_usecase cfg)),
      \<lparr>rt_Method = ''PUT'', rt_Path = ''/api/v1/users/:id'', rt_Middlewares = [route_auth cfg],
       rt_Handler = handler_Update (rcf_libs cfg) (rcf_usecase cfg)\<rparr>,
      \<lparr>rt_Method = ''DELETE'', rt_Path = ''/api/v1/users/:id'', rt_Middlewares = [route_auth cfg],
       rt_Handler = handler_Delete (rcf_usecase cfg)\<rparr>]"

definition routes ::
  "('r, 'd, 'q, 'w, 'l) router_config \<Rightarrow> seed \<Rightarrow> ('r, 'd, 'q, 'l) world route list" where
  "routes cfg sd = public_routes cfg sd @ protected_routes cfg sd"

lemmas route_list_defs = routes_def public_routes_def protected_routes_def get_route_def post_route_def

text \<open>In the order of the calls of \<open>router.Use\<close>.\<close>

definition global_middlewares ::
  "('r, 'd, 'q, 'w, 'l) router_config \<Rightarrow> string \<Rightarrow> ('r, 'd, 'q, 'l) world middleware list" where
  "global_middlewares cfg uuid =
     [RequestID uuid, Logger, Recovery, SecurityHeaders (rcf_AppEnv cfg), CORS (rcf_CORS cfg),
      RateLimit (rcf_limiter cfg) (NewIPRateLimiter (rcf_RateLimit cfg))]"

section \<open>Serving a request\<close>

type_synonym route_key = "string \<times> string"

definition route_key :: "'s route \<Rightarrow> route_key" where
  "route_key r = (rt_Method r, rt_Path r)"

text \<open>What gin finds for a method and a path: a route with its parameters, a trailing slash to add or to
  take away (\<open>RedirectTrailingSlash\<close>, on by default), or nothing.\<close>

datatype gin_match = Handled route_key "string \<rightharpoonup> string" | TrailingSlash | Unrouted

type_synonym route_match = "route_key list \<Rightarrow> string \<Rightarrow> string \<Rightarrow> gin_match"

definition toggle_slash :: "string \<Rightarrow> string" where
  "toggle_slash p = (if p \<noteq> [] \<and> last p = CHR ''/'' then butlast p else p @ ''/'')"

text \<open>The documented behaviour of gin: a route it finds is registered and has the method of the request,
  and it redirects only to a path that has a route.\<close>

definition route_lookup_ok :: "route_match \<Rightarrow> bool" where
  "route_lookup_ok lookup \<longleftrightarrow>
     (\<forall>ks m p. case lookup ks m p of
        Handled k ps \<Rightarrow> k \<in> set ks \<and> fst k = m
      | TrailingSlash \<Rightarrow> (\<exists>k ps. lookup ks m (toggle_slash p) = Handled k ps)
      | Unrouted \<Rightarrow> True)"

definition redirected ::
  "route_match \<Rightarrow> ('r, 'd, 'q, 'w, 'l) router_config \<Rightarrow> seed \<Rightarrow> request \<Rightarrow> bool" where
  "redirected lookup cfg sd rq \<longleftrightarrow>
     (case lookup (map route_key (routes cfg sd)) (rq_Method rq) (rq_Path rq) of
        Handled k ps \<Rightarrow> False | TrailingSlash \<Rightarrow> True | Unrouted \<Rightarrow> False)"

text \<open>What gin answers then: 301 for GET, 307 for every other method. The target is outside the model.\<close>

definition redirect_status :: "request \<Rightarrow> int" where
  "redirect_status rq = (if rq_Method rq = ''GET'' then 301 else 307)"

definition redirect_trailing_slash :: "'s handler_func" where
  "redirect_trailing_slash c = Served (ctx_Reply (StatusReply (redirect_status (c_Request c))) c)"

definition not_found_handler :: "'s handler_func" where
  "not_found_handler c = Served (ctx_Reply (StatusReply 404) c)"

definition matched_route ::
  "route_match \<Rightarrow> ('r, 'd, 'q, 'w, 'l) router_config \<Rightarrow> seed \<Rightarrow> request \<Rightarrow>
   (('r, 'd, 'q, 'l) world route \<times> (string \<rightharpoonup> string)) option" where
  "matched_route lookup cfg sd rq =
     (case lookup (map route_key (routes cfg sd)) (rq_Method rq) (rq_Path rq) of
        TrailingSlash \<Rightarrow> None
      | Unrouted \<Rightarrow> None
      | Handled k ps \<Rightarrow>
          (case find (\<lambda>r. route_key r = k) (routes cfg sd) of None \<Rightarrow> None | Some r \<Rightarrow> Some (r, ps)))"

definition serve ::
  "route_match \<Rightarrow> ('r, 'd, 'q, 'w, 'l) router_config \<Rightarrow> string \<Rightarrow> seed \<Rightarrow> request \<Rightarrow>
   ('r, 'd, 'q, 'l) world \<Rightarrow> ('r, 'd, 'q, 'l) world served" where
  "serve lookup cfg uuid sd rq w =
     (if redirected lookup cfg sd rq then redirect_trailing_slash (new_context rq w)
      else case matched_route lookup cfg sd rq of
        None \<Rightarrow> chain (global_middlewares cfg uuid) not_found_handler (new_context rq w)
      | Some (r, ps) \<Rightarrow>
          chain (global_middlewares cfg uuid @ rt_Middlewares r) (rt_Handler r)
            ((new_context rq w)\<lparr>c_Params := ps\<rparr>))"

section \<open>Lemmas\<close>

lemma answers_not_found: "answers not_found_handler"
  by (rule answersI) (auto simp: not_found_handler_def ctx_simps)

lemma answers_auth:
  fixes "next" :: "'s handler_func"
  assumes a: "answers next"
  shows "answers (AuthMiddleware J svc next)"
proof (rule answersI)
  fix c :: "'s gin_context"
  show "(\<exists>c' r. AuthMiddleware J svc next c = Served c' \<and> c_Replies c' = c_Replies c @ [r] \<and> c_Headers c' = c_Headers c) \<or>
    (\<exists>c' msg. AuthMiddleware J svc next c = Panicked c' msg \<and> c_Replies c' = c_Replies c \<and> c_Headers c' = c_Headers c)"
  proof (cases rule: AuthMiddleware_cases [of c J svc "next"])
    case (ok tok claims)
    let ?d = "ctx_Set ContextUserEmailKey (cl_Email claims) (ctx_Set ContextUserIDKey (cl_UserID claims) c)"
    have "c_Replies ?d = c_Replies c" "c_Headers ?d = c_Headers c" by (simp_all add: ctx_simps)
    with ok(3) a [unfolded answers_def, THEN spec, of ?d] show ?thesis
      by (cases "next ?d") auto
  next
    case (refused msg detail)
    then show ?thesis by (simp add: unauthorized_def response_defs ctx_simps)
  qed
qed

text \<open>Every route answers, and the chain of its middlewares too.\<close>

definition route_answers :: "'s route \<Rightarrow> bool" where
  "route_answers r \<longleftrightarrow> answers (chain (rt_Middlewares r) (rt_Handler r))"

lemma routes_answer:
  assumes "answers (rcf_swagger cfg)" "r \<in> set (routes cfg sd)"
  shows "route_answers r"
proof -
  have "\<forall>r \<in> set (public_routes cfg sd). route_answers r"
    using assms(1) by (simp add: answers_handlers public_routes_def route_answers_def get_route_def post_route_def)
  moreover have "\<forall>r \<in> set (protected_routes cfg sd). route_answers r"
    by (simp add: answers_handlers answers_auth protected_routes_def route_answers_def get_route_def post_route_def route_auth_def)
  ultimately show ?thesis using assms(2) by (auto simp: routes_def)
qed

lemma matched_route_in: "matched_route lookup cfg sd rq = Some (r, ps) \<Longrightarrow> r \<in> set (routes cfg sd)"
  by (auto simp: matched_route_def find_Some_iff in_set_conv_nth split: option.splits gin_match.splits)

lemma redirected_iff:
  "redirected lookup cfg sd rq \<longleftrightarrow>
     lookup (map route_key (routes cfg sd)) (rq_Method rq) (rq_Path rq) = TrailingSlash"
  by (simp add: redirected_def split: gin_match.split)

lemma matched_not_redirected: "matched_route lookup cfg sd rq = Some rps \<Longrightarrow> \<not> redirected lookup cfg sd rq"
  by (simp add: matched_route_def redirected_def split: gin_match.splits)

lemma lookup_handled:
  "route_lookup_ok lookup \<Longrightarrow> lookup ks m p = Handled k ps \<Longrightarrow> k \<in> set ks \<and> fst k = m"
  unfolding route_lookup_ok_def by (drule spec [of _ ks], drule spec [of _ m], drule spec [of _ p]) simp

lemma lookup_toggled:
  "route_lookup_ok lookup \<Longrightarrow> lookup ks m p = TrailingSlash \<Longrightarrow> \<exists>k ps. lookup ks m (toggle_slash p) = Handled k ps"
  unfolding route_lookup_ok_def by (drule spec [of _ ks], drule spec [of _ m], drule spec [of _ p]) simp

lemma serve_redirected:
  "redirected lookup cfg sd rq \<Longrightarrow>
   serve lookup cfg uuid sd rq w = Served (ctx_Reply (StatusReply (redirect_status rq)) (new_context rq w))"
  by (simp add: serve_def redirect_trailing_slash_def new_context_def)

lemma redirect_status_values: "redirect_status rq = 301 \<or> redirect_status rq = 307"
  by (simp add: redirect_status_def)

text \<open>No request with the method OPTIONS is redirected: there is no route with it.\<close>

lemma redirected_method:
  assumes "route_lookup_ok lookup" "redirected lookup cfg sd rq"
  shows "rq_Method rq \<noteq> ''OPTIONS''"
proof -
  obtain k ps where "lookup (map route_key (routes cfg sd)) (rq_Method rq) (toggle_slash (rq_Path rq)) = Handled k ps"
    using lookup_toggled [OF assms(1)] assms(2) unfolding redirected_iff by blast
  from lookup_handled [OF assms(1) this] show ?thesis
    by (auto simp: route_list_defs route_key_def)
qed

text \<open>
  What the rest of a chain must do for the middlewares around it: once a header is set it keeps
  its value, and there is exactly one reply in the end or a panic before any.
\<close>

definition one_reply :: "string \<Rightarrow> 's handler_func \<Rightarrow> bool" where
  "one_reply k h \<longleftrightarrow>
     (\<forall>c. c_Headers (served_context (h c)) k = c_Headers c k \<and>
        (case h c of
           Served c' \<Rightarrow> \<exists>r. c_Replies c' = c_Replies c @ [r]
         | Panicked c' msg \<Rightarrow> c_Replies c' = c_Replies c))"

lemma one_replyI:
  assumes "\<And>c. (\<exists>c' r. h c = Served c' \<and> c_Replies c' = c_Replies c @ [r] \<and> c_Headers c' k = c_Headers c k) \<or>
    (\<exists>c' msg. h c = Panicked c' msg \<and> c_Replies c' = c_Replies c \<and> c_Headers c' k = c_Headers c k)"
  shows "one_reply k h"
  unfolding one_reply_def
proof
  fix c
  from assms [of c] show "c_Headers (served_context (h c)) k = c_Headers c k \<and>
        (case h c of
           Served c' \<Rightarrow> \<exists>r. c_Replies c' = c_Replies c @ [r]
         | Panicked c' msg \<Rightarrow> c_Replies c' = c_Replies c)"
    by auto
qed

lemma one_replyE:
  assumes "one_reply k h"
  obtains (served) c' r where "h c = Served c'" "c_Replies c' = c_Replies c @ [r]" "c_Headers c' k = c_Headers c k"
    | (panicked) c' msg where "h c = Panicked c' msg" "c_Replies c' = c_Replies c" "c_Headers c' k = c_Headers c k"
  using assms [unfolded one_reply_def, THEN spec, of c] by (cases "h c") auto

lemma answers_one_reply: "answers h \<Longrightarrow> one_reply k h"
  by (auto simp: answers_def one_reply_def)

lemma one_reply_rate_limit: "one_reply k next \<Longrightarrow> one_reply k (RateLimit M l next)"
proof (rule one_replyI)
  fix c assume n: "one_reply k next"
  show "(\<exists>c' r. RateLimit M l next c = Served c' \<and> c_Replies c' = c_Replies c @ [r] \<and> c_Headers c' k = c_Headers c k) \<or>
    (\<exists>c' msg. RateLimit M l next c = Panicked c' msg \<and> c_Replies c' = c_Replies c \<and> c_Headers c' k = c_Headers c k)"
  proof (cases "\<exists>d. c_Replies d = c_Replies c \<and> c_Headers d = c_Headers c \<and> RateLimit M l next c = next d")
    case True
    then obtain d where d: "c_Replies d = c_Replies c" "c_Headers d = c_Headers c" "RateLimit M l next c = next d"
      by blast
    from n show ?thesis
      by (cases rule: one_replyE [of k "next" d]) (auto simp: d)
  next
    case False
    let ?ip = "rq_ClientIP (c_Request c)" and ?now = "rq_Time (c_Request c)"
    obtain cl lmt where g: "getLimiter M l ?ip ?now (sw_clients (c_World c)) = (cl, lmt)"
      by (cases "getLimiter M l ?ip ?now (sw_clients (c_World c))")
    obtain lmt' ok where a: "lm_Allow M lmt ?now = (lmt', ok)" by (cases "lm_Allow M lmt ?now")
    let ?d = "c\<lparr>c_World := (c_World c)\<lparr>sw_clients := cl(?ip \<mapsto> (lmt', ?now))\<rparr>\<rparr>"
    have "irl_enabled l"
    proof (rule ccontr)
      assume "\<not> irl_enabled l"
      then have "RateLimit M l next c = next c" by (simp add: RateLimit_def)
      with False show False by blast
    qed
    moreover have "\<not> ok"
    proof
      assume ok
      with g a \<open>irl_enabled l\<close> have "RateLimit M l next c = next ?d" by (simp add: RateLimit_def)
      moreover have "c_Replies ?d = c_Replies c" "c_Headers ?d = c_Headers c" by simp_all
      ultimately show False using False by blast
    qed
    ultimately show ?thesis using g a by (simp add: RateLimit_def response_defs ctx_simps)
  qed
qed

lemma one_reply_CORS:
  fixes "next" :: "'s handler_func"
  assumes "one_reply k next" "k \<notin> {allow_origin, allow_credentials, allow_headers, allow_methods, ''Vary''}"
  shows "one_reply k (CORS cfg next)"
proof (rule one_replyI)
  fix c :: "'s gin_context"
  define d where "d = ctx_Header ''Vary'' ''Origin'' (ctx_Header allow_methods (cors_methods cfg)
    (ctx_Header allow_headers (cors_headers cfg)
      (let c1 = (case cors_origin cfg (rq_Header (c_Request c) ''Origin'') of
                  None \<Rightarrow> c | Some v \<Rightarrow> ctx_Header allow_origin v c)
       in if cors_AllowCredentials cfg then ctx_Header allow_credentials ''true'' c1 else c1)))"
  have d: "c_Replies d = c_Replies c" "c_Headers d k = c_Headers c k"
    using assms(2) by (simp_all add: d_def ctx_simps Let_def split: option.splits)
  have cors: "CORS cfg next c =
      (if rq_Method (c_Request c) = ''OPTIONS'' then Served (ctx_Abort (ctx_Reply (StatusReply 204) d)) else next d)"
    by (simp add: CORS_def d_def Let_def)
  from assms(1) show "(\<exists>c' r. CORS cfg next c = Served c' \<and> c_Replies c' = c_Replies c @ [r] \<and> c_Headers c' k = c_Headers c k) \<or>
    (\<exists>c' msg. CORS cfg next c = Panicked c' msg \<and> c_Replies c' = c_Replies c \<and> c_Headers c' k = c_Headers c k)"
    by (cases rule: one_replyE [of k "next" d]) (auto simp: cors d ctx_simps)
qed

text \<open>Recovery turns a panic into the one reply.\<close>

definition total_reply :: "string \<Rightarrow> 's handler_func \<Rightarrow> bool" where
  "total_reply k h \<longleftrightarrow>
     (\<forall>c. \<exists>c' r. h c = Served c' \<and> c_Replies c' = c_Replies c @ [r] \<and> c_Headers c' k = c_Headers c k)"

lemma total_reply_Recovery: "one_reply k next \<Longrightarrow> total_reply k (Recovery next)"
  unfolding total_reply_def
proof
  fix c assume "one_reply k next"
  then show "\<exists>c' r. Recovery next c = Served c' \<and> c_Replies c' = c_Replies c @ [r] \<and> c_Headers c' k = c_Headers c k"
    by (cases rule: one_replyE [of k "next" c]) (auto simp: Recovery_def response_defs ctx_simps)
qed

end
