(* ===== verification/Request_Outcomes.thy ===== *)
theory Request_Outcomes
  imports Router
begin

text \<open>
  What a request leads to, seen through the whole chain of middlewares of
  \<open>internal/delivery/http/router.go\<close>. \<open>gives rq ps s P h\<close> says of the rest of a chain \<open>h\<close> that,
  run on a request \<open>rq\<close> nobody has answered yet and on the application state \<open>s\<close>, it ends with
  one reply and a state that \<open>P\<close> accepts, where a panic counts as the reply \<open>Recovery\<close> makes of
  it. Each middleware has one lemma; \<open>serve_gives\<close> puts them together, so a property of a route
  is a property of its handler.
\<close>

section \<open>Replies of the middlewares\<close>

definition panic_reply :: reply where
  "panic_reply =
     ApiReply 500 \<lparr>ar_Success = False, ar_Message = ''Internal server error occurred'', ar_Data = NoData,
       ar_Error = None\<rparr>"

definition limited_reply :: reply where
  "limited_reply =
     ApiReply 429 \<lparr>ar_Success = False, ar_Message = ''Too many requests. Please try again later.'',
       ar_Data = NoData, ar_Error = None\<rparr>"

fun reply_data_of :: "reply \<Rightarrow> reply_data" where
  "reply_data_of (ApiReply n a) = ar_Data a"
| "reply_data_of (JsonReply n fs) = Fields fs"
| "reply_data_of (StatusReply n) = NoData"

section \<open>Outcomes of a chain\<close>

definition pending ::
  "request \<Rightarrow> (string \<rightharpoonup> string) \<Rightarrow> 's \<Rightarrow> ('s, 'l) server_world gin_context \<Rightarrow> bool" where
  "pending rq ps s c \<longleftrightarrow>
     c_Request c = rq \<and> c_Params c = ps \<and> c_Replies c = [] \<and> sw_app (c_World c) = s"

fun settled :: "(reply \<Rightarrow> 's \<Rightarrow> bool) \<Rightarrow> ('s, 'l) server_world served \<Rightarrow> bool" where
  "settled P (Served c) \<longleftrightarrow> (\<exists>rep. c_Replies c = [rep] \<and> P rep (sw_app (c_World c)))"
| "settled P (Panicked c msg) \<longleftrightarrow> c_Replies c = [] \<and> P panic_reply (sw_app (c_World c))"

definition gives ::
  "request \<Rightarrow> (string \<rightharpoonup> string) \<Rightarrow> 's \<Rightarrow> (reply \<Rightarrow> 's \<Rightarrow> bool) \<Rightarrow>
   ('s, 'l) server_world handler_func \<Rightarrow> bool" where
  "gives rq ps s P h \<longleftrightarrow> (\<forall>c. pending rq ps s c \<longrightarrow> settled P (h c))"

lemma givesI: "(\<And>c. pending rq ps s c \<Longrightarrow> settled P (h c)) \<Longrightarrow> gives rq ps s P h"
  by (simp add: gives_def)

lemma givesD: "gives rq ps s P h \<Longrightarrow> pending rq ps s c \<Longrightarrow> settled P (h c)"
  by (simp add: gives_def)

lemma pending_updates [simp]:
  "pending rq ps s (ctx_Set k v c) = pending rq ps s c"
  "pending rq ps s (ctx_Header k v c) = pending rq ps s c"
  by (simp_all add: pending_def ctx_simps)

lemma settled_mono: "settled P x \<Longrightarrow> (\<And>rep s. P rep s \<Longrightarrow> Q rep s) \<Longrightarrow> settled Q x"
  by (cases x) auto

lemma gives_mono: "gives rq ps s P h \<Longrightarrow> (\<And>rep s. P rep s \<Longrightarrow> Q rep s) \<Longrightarrow> gives rq ps s Q h"
  unfolding gives_def by (blast intro: settled_mono)

text \<open>The outer middlewares hand the request on as it is, with the state behind it.\<close>

lemma RequestID_pending:
  assumes "pending rq ps s c"
  shows "\<exists>d. pending rq ps s d \<and> c_World d = c_World c \<and> RequestID uuid h c = h d"
  unfolding RequestID_def Let_def
  by (rule exI, rule conjI [rotated], rule conjI [rotated], rule refl) (simp_all add: assms ctx_simps)

lemma Security_pending:
  assumes "pending rq ps s c"
  shows "\<exists>d. pending rq ps s d \<and> c_World d = c_World c \<and> SecurityHeaders env h c = h d"
  unfolding SecurityHeaders_def Let_def
  by (rule exI, rule conjI [rotated], rule conjI [rotated], rule refl) (simp_all add: assms ctx_simps)

lemma CORS_pending:
  fixes h :: "('s, 'l) server_world handler_func"
  assumes c: "pending rq ps s c" and m: "rq_Method rq \<noteq> ''OPTIONS''"
  shows "\<exists>d. pending rq ps s d \<and> c_World d = c_World c \<and> CORS cfg h c = h d"
proof -
  have rq: "rq_Method (c_Request c) \<noteq> ''OPTIONS''" using assms by (simp add: pending_def)
  have split: "pending rq ps s (case v of None \<Rightarrow> c | Some x \<Rightarrow> ctx_Header k x c)"
    "c_World (case v of None \<Rightarrow> c | Some x \<Rightarrow> ctx_Header k x c) = c_World c" for v k
    using c by (cases v, simp_all add: ctx_simps)+
  show ?thesis
    unfolding CORS_def Let_def if_not_P [OF rq]
    by (rule exI, rule conjI [rotated], rule conjI [rotated], rule refl) (simp_all add: split ctx_simps)
qed

lemma Logger_served: "h c = Served c' \<Longrightarrow> Logger h c = Served (log_request (c_Request c) c')"
  by (simp add: Logger_def)

lemma gives_Recovery:
  assumes "gives rq ps s P h"
  shows "pending rq ps s c \<Longrightarrow> \<exists>c' rep. Recovery h c = Served c' \<and> c_Replies c' = [rep] \<and> P rep (sw_app (c_World c'))"
  using givesD [OF assms, of c]
  by (cases "h c") (auto simp: Recovery_def response_defs panic_reply_def ctx_simps)

lemma gives_Auth:
  fixes h :: "('s, 'l) server_world handler_func"
  assumes "bearer_token rq = Some tok" "ValidateToken J svc (rq_Time rq) tok = Inr claims"
    and "\<And>c. pending rq ps s c \<Longrightarrow> GetUserIDFromContext c = Some (cl_UserID claims) \<Longrightarrow> settled P (h c)"
  shows "gives rq ps s P (AuthMiddleware J svc h)"
proof (rule givesI)
  fix c :: "('s, 'l) server_world gin_context" assume c: "pending rq ps s c"
  then have rq: "c_Request c = rq" by (simp add: pending_def)
  show "settled P (AuthMiddleware J svc h c)"
  proof (cases rule: AuthMiddleware_cases [of c J svc h])
    case (ok tok' claims')
    with assms(1,2) rq have "claims' = claims" by simp
    with ok(3) c assms(3) show ?thesis by (simp add: GetUserIDFromContext_def ctx_Get_def ctx_simps)
  next
    case refused
    with assms(1,2) rq show ?thesis by simp
  qed
qed

lemma gives_Auth_refused:
  fixes h :: "('s, 'l) server_world handler_func"
  assumes "\<And>tok claims. bearer_token rq = Some tok \<Longrightarrow> ValidateToken J svc (rq_Time rq) tok \<noteq> Inr claims"
  shows "gives rq ps s (\<lambda>rep s'. reply_status rep = 401 \<and> reply_data_of rep = NoData \<and> s' = s) (AuthMiddleware J svc h)"
proof (rule givesI)
  fix c :: "('s, 'l) server_world gin_context" assume c: "pending rq ps s c"
  then have "c_Request c = rq" "c_Replies c = []" "sw_app (c_World c) = s" by (simp_all add: pending_def)
  then show "settled (\<lambda>rep s'. reply_status rep = 401 \<and> reply_data_of rep = NoData \<and> s' = s)
      (AuthMiddleware J svc h c)"
    by (cases rule: AuthMiddleware_cases [of c J svc h])
      (use assms in \<open>auto simp: unauthorized_def response_defs ctx_simps\<close>)
qed

text \<open>Whether the limiter of the client lets a request through.\<close>

definition admitted ::
  "('r, 'd, 'q, 'w, 'l) router_config \<Rightarrow> request \<Rightarrow> 'l clients \<Rightarrow> bool" where
  "admitted cfg rq clients \<longleftrightarrow>
     \<not> rl_Enabled (rcf_RateLimit cfg) \<or>
     snd (lm_Allow (rcf_limiter cfg)
       (snd (getLimiter (rcf_limiter cfg) (NewIPRateLimiter (rcf_RateLimit cfg)) (rq_ClientIP rq) (rq_Time rq) clients))
       (rq_Time rq))"

lemma admitted_disabled: "\<not> rl_Enabled (rcf_RateLimit cfg) \<Longrightarrow> admitted cfg rq clients"
  by (simp add: admitted_def)

lemma RateLimit_pending:
  fixes h :: "('s, 'l) server_world handler_func"
  assumes c: "pending rq ps s c"
  obtains d where "pending rq ps s d"
    "RateLimit (rcf_limiter cfg) (NewIPRateLimiter (rcf_RateLimit cfg)) h c =
      (if admitted cfg rq (sw_clients (c_World c)) then h d
       else Served (ctx_Abort (response_Error 429 ''Too many requests. Please try again later.'' None d)))"
proof -
  let ?M = "rcf_limiter cfg" and ?l = "NewIPRateLimiter (rcf_RateLimit cfg)"
  have rq: "c_Request c = rq" using c by (simp add: pending_def)
  obtain cl lmt where g: "getLimiter ?M ?l (rq_ClientIP rq) (rq_Time rq) (sw_clients (c_World c)) = (cl, lmt)"
    by (cases "getLimiter ?M ?l (rq_ClientIP rq) (rq_Time rq) (sw_clients (c_World c))")
  obtain lmt' ok where a: "lm_Allow ?M lmt (rq_Time rq) = (lmt', ok)" by (cases "lm_Allow ?M lmt (rq_Time rq)")
  let ?d = "c\<lparr>c_World := (c_World c)\<lparr>sw_clients := cl(rq_ClientIP rq \<mapsto> (lmt', rq_Time rq))\<rparr>\<rparr>"
  show ?thesis
  proof (cases "irl_enabled ?l")
    case True
    then have "admitted cfg rq (sw_clients (c_World c)) \<longleftrightarrow> ok"
      using g a by (simp add: admitted_def NewIPRateLimiter_def)
    moreover have "pending rq ps s ?d" using c by (simp add: pending_def)
    ultimately show ?thesis
      using True g a by (intro that [of ?d]) (simp_all add: RateLimit_def rq)
  next
    case False
    then have "admitted cfg rq (sw_clients (c_World c))" by (simp add: admitted_def NewIPRateLimiter_def)
    with False c show ?thesis by (intro that [of c]) (simp_all add: RateLimit_def)
  qed
qed

section \<open>Routes\<close>

lemma route_methods: "r \<in> set (routes cfg sd) \<Longrightarrow> rt_Method r \<noteq> ''OPTIONS''"
  by (auto simp: route_list_defs)

lemma matched_route_method:
  assumes "route_lookup_ok lookup" "matched_route lookup cfg sd rq = Some (r, ps)"
  shows "rq_Method rq = rt_Method r"
proof -
  obtain k where k: "lookup (map route_key (routes cfg sd)) (rq_Method rq) (rq_Path rq) = Handled k ps"
    "find (\<lambda>r. route_key r = k) (routes cfg sd) = Some r"
    using assms(2) by (auto simp: matched_route_def split: option.splits gin_match.splits)
  from lookup_handled [OF assms(1) k(1)] have "fst k = rq_Method rq" by simp
  moreover from k(2) have "route_key r = k" by (auto simp: find_Some_iff)
  ultimately show ?thesis by (auto simp: route_key_def)
qed

text \<open>The global middlewares in front of a handler, for any method but OPTIONS.\<close>

lemma global_handled:
  assumes m: "rq_Method rq \<noteq> ''OPTIONS''" and c: "pending rq ps (sw_app w) c" "c_World c = w"
    and h: "gives rq ps (sw_app w) P h"
  shows "\<exists>c' rep. chain (global_middlewares cfg uuid) h c = Served c' \<and> c_Replies c' = [rep] \<and>
    (if admitted cfg rq (sw_clients w) then P rep (sw_app (c_World c'))
     else rep = limited_reply \<and> sw_app (c_World c') = sw_app w)"
proof -
  let ?lim = "RateLimit (rcf_limiter cfg) (NewIPRateLimiter (rcf_RateLimit cfg)) h"
  let ?sec = "SecurityHeaders (rcf_AppEnv cfg) (CORS (rcf_CORS cfg) ?lim)"
  obtain d where d: "pending rq ps (sw_app w) d" "c_World d = w"
    "RequestID uuid (Logger (Recovery ?sec)) c = Logger (Recovery ?sec) d"
    using RequestID_pending [OF c(1), of uuid "Logger (Recovery ?sec)"] c(2) by metis
  obtain e where e: "pending rq ps (sw_app w) e" "c_World e = w" "?sec d = CORS (rcf_CORS cfg) ?lim e"
    using Security_pending [OF d(1), of "rcf_AppEnv cfg" "CORS (rcf_CORS cfg) ?lim"] d(2) by metis
  obtain f where f: "pending rq ps (sw_app w) f" "c_World f = w" "CORS (rcf_CORS cfg) ?lim e = ?lim f"
    using CORS_pending [OF e(1) m, of "rcf_CORS cfg" ?lim] e(2) by metis
  obtain g where g: "pending rq ps (sw_app w) g"
    "?lim f = (if admitted cfg rq (sw_clients w) then h g
       else Served (ctx_Abort (response_Error 429 ''Too many requests. Please try again later.'' None g)))"
    by (rule RateLimit_pending [OF f(1), of cfg h]) (simp add: f(2))
  have sec: "?sec d = (if admitted cfg rq (sw_clients w) then h g
       else Served (ctx_Abort (response_Error 429 ''Too many requests. Please try again later.'' None g)))"
    using e(3) f(3) g(2) by simp
  have "\<exists>c' rep. Recovery ?sec d = Served c' \<and> c_Replies c' = [rep] \<and>
    (if admitted cfg rq (sw_clients w) then P rep (sw_app (c_World c'))
     else rep = limited_reply \<and> sw_app (c_World c') = sw_app w)"
  proof (cases "admitted cfg rq (sw_clients w)")
    case True
    then have "Recovery ?sec d = Recovery h g" using sec by (simp add: Recovery_def)
    with gives_Recovery [OF h g(1)] True show ?thesis by simp
  next
    case False
    with sec g(1) show ?thesis
      by (simp add: Recovery_def response_defs limited_reply_def pending_def ctx_simps)
  qed
  then obtain c' rep where rec: "Recovery ?sec d = Served c'" "c_Replies c' = [rep]"
    "if admitted cfg rq (sw_clients w) then P rep (sw_app (c_World c'))
     else rep = limited_reply \<and> sw_app (c_World c') = sw_app w" by blast
  have "chain (global_middlewares cfg uuid) h c = Served (log_request (c_Request d) c')"
    using d(3) by (simp add: global_middlewares_def Logger_served [where h = "Recovery ?sec", OF rec(1)])
  with rec(2,3) show ?thesis by (simp add: ctx_simps)
qed

lemma new_context_pending:
  "pending rq ps (sw_app w) ((new_context rq w)\<lparr>c_Params := ps\<rparr>)"
  "c_World ((new_context rq w)\<lparr>c_Params := ps\<rparr>) = w"
  by (simp_all add: pending_def new_context_def)

lemma serve_gives:
  assumes lookup: "route_lookup_ok lookup" and r: "matched_route lookup cfg sd rq = Some (r, ps)"
    and h: "gives rq ps (sw_app w) P (chain (rt_Middlewares r) (rt_Handler r))"
  shows "\<exists>c' rep. serve lookup cfg uuid sd rq w = Served c' \<and> c_Replies c' = [rep] \<and>
    (if admitted cfg rq (sw_clients w) then P rep (sw_app (c_World c'))
     else rep = limited_reply \<and> sw_app (c_World c') = sw_app w)"
proof -
  have "rq_Method rq \<noteq> ''OPTIONS''"
    using matched_route_method [OF lookup r] route_methods [OF matched_route_in [OF r]] by simp
  from global_handled [OF this new_context_pending h, of cfg uuid] show ?thesis
    by (simp add: serve_def r matched_not_redirected [OF r] chain_append)
qed

text \<open>The route behind a key.\<close>

lemma find_routes:
  "find (\<lambda>r. route_key r = (''GET'', ''/api/v1/auth/me'')) (routes cfg sd) =
     Some (get_route ''/api/v1/auth/me'' [route_auth cfg] (handler_GetProfile (rcf_libs cfg) (rcf_usecase cfg)))"
  "find (\<lambda>r. route_key r = (''POST'', ''/api/v1/auth/register'')) (routes cfg sd) =
     Some (post_route ''/api/v1/auth/register'' [] (handler_Create (rcf_libs cfg) (rcf_usecase cfg) sd))"
  "find (\<lambda>r. route_key r = (''GET'', ''/api/v1/users'')) (routes cfg sd) =
     Some (get_route ''/api/v1/users'' [route_auth cfg] (handler_GetAll (rcf_usecase cfg)))"
  "find (\<lambda>r. route_key r = (''DELETE'', ''/api/v1/users/:id'')) (routes cfg sd) =
     Some \<lparr>rt_Method = ''DELETE'', rt_Path = ''/api/v1/users/:id'', rt_Middlewares = [route_auth cfg],
       rt_Handler = handler_Delete (rcf_usecase cfg)\<rparr>"
  by (simp_all add: route_list_defs route_key_def)

lemma matched_routes:
  "lookup (map route_key (routes cfg sd)) (rq_Method rq) (rq_Path rq) = Handled (''GET'', ''/api/v1/auth/me'') ps \<Longrightarrow>
   matched_route lookup cfg sd rq = Some (get_route ''/api/v1/auth/me'' [route_auth cfg]
     (handler_GetProfile (rcf_libs cfg) (rcf_usecase cfg)), ps)"
  "lookup (map route_key (routes cfg sd)) (rq_Method rq) (rq_Path rq) = Handled (''POST'', ''/api/v1/auth/register'') ps \<Longrightarrow>
   matched_route lookup cfg sd rq = Some (post_route ''/api/v1/auth/register'' []
     (handler_Create (rcf_libs cfg) (rcf_usecase cfg) sd), ps)"
  "lookup (map route_key (routes cfg sd)) (rq_Method rq) (rq_Path rq) = Handled (''GET'', ''/api/v1/users'') ps \<Longrightarrow>
   matched_route lookup cfg sd rq = Some (get_route ''/api/v1/users'' [route_auth cfg]
     (handler_GetAll (rcf_usecase cfg)), ps)"
  "lookup (map route_key (routes cfg sd)) (rq_Method rq) (rq_Path rq) = Handled (''DELETE'', ''/api/v1/users/:id'') ps \<Longrightarrow>
   matched_route lookup cfg sd rq = Some (\<lparr>rt_Method = ''DELETE'', rt_Path = ''/api/v1/users/:id'',
     rt_Middlewares = [route_auth cfg], rt_Handler = handler_Delete (rcf_usecase cfg)\<rparr>, ps)"
  by (simp_all add: matched_route_def find_routes)

end
