(* ===== verification/User_Properties.thy ===== *)
theory User_Properties
  imports User_Coherence
begin

text \<open>
  The properties of the user use cases, \<open>internal/usecase/user_usecase.go\<close>, over any repository
  and cache server that meet their contracts, each with a witness on the table and the server in
  memory.
\<close>

section \<open>A concrete application\<close>

definition sample_libs :: libs where
  "sample_libs =
     \<lparr>lib_bcrypt = mem_bcrypt, lib_jwt = mem_jwt, lib_enc = enc_user_response,
      lib_dec = dec_user_response\<rparr>"

definition sample_client :: "mem_server redis_client option" where
  "sample_client = Some \<lparr>rc_rdb = Some mem_redis, rc_enabled = True\<rparr>"

definition count_dispatch :: "nat dispatcher" where
  "count_dispatch ctx name p q = Ret (Suc q, None)"

definition sample_usecase :: "(user list, mem_server, nat, unit) user_usecase" where
  "sample_usecase =
     NewUserUsecase (NewUserRepository mem_user_db) sample_client (NewJWTService ''secret'' 24)
       (Some count_dispatch) []"

definition sample_start :: "(user list, mem_server, nat) app_state" where
  "sample_start = \<lparr>as_repo = [], as_cache = mem_server_empty, as_queue = 0\<rparr>"

definition sample_request :: create_user_request where
  "sample_request = \<lparr>cur_Name = ''Ada'', cur_Email = ''ada@x.org'', cur_Password = ''lovelace''\<rparr>"

definition sample_hash :: string where
  "sample_hash = (case HashPassword mem_bcrypt ''salt'' ''lovelace'' of Inl e \<Rightarrow> [] | Inr h \<Rightarrow> h)"

definition sample_user :: user where
  "sample_user =
     \<lparr>user_ID = ''id1'', user_Name = ''Ada'', user_Email = ''ada@x.org'', user_Password = sample_hash,
      user_CreatedAt = 10, user_UpdatedAt = 11\<rparr>"

definition sample_registered :: "(user list, mem_server, nat) app_state" where
  "sample_registered = \<lparr>as_repo = [sample_user], as_cache = mem_server_empty, as_queue = 1\<rparr>"

lemma sample_app: "cached_app sample_usecase (NewUserRepository mem_user_db) mem_redis"
  by (simp add: cached_app_def sample_usecase_def NewUserUsecase_def sample_client_def Underlying_def
      IsEnabled_def)

lemma sample_codec: "codec_ok sample_libs"
  unfolding codec_ok_def sample_libs_def using user_response_codec by simp

lemma sample_bcrypt: "bcrypt_ok (lib_bcrypt sample_libs)"
  by (simp add: sample_libs_def mem_bcrypt_ok)

lemma sample_jwt: "jwt_ok (lib_jwt sample_libs) mem_verified"
  by (simp add: sample_libs_def mem_jwt_ok)

lemma sample_hashed: "HashPassword (lib_bcrypt sample_libs) ''salt'' (cur_Password sample_request) = Inr sample_hash"
  by code_simp

lemma sample_ok: "mem_users_ok [sample_user]"
  by (simp add: mem_users_ok_def newest_first_def)

lemma sample_rows: "mem_user_rows [sample_user] = [''id1'' \<mapsto> sample_user]"
  by (simp add: mem_user_rows_def sample_ok) (simp add: sample_user_def)

lemmas mem_repository = mem_users.repository.reliable_user_repository_axioms
lemmas mem_repository0 = mem_users.repository.user_repository_axioms

section \<open>Registration and login\<close>

definition new_user :: "create_user_request \<Rightarrow> string \<Rightarrow> string \<Rightarrow> instant \<Rightarrow> instant \<Rightarrow> user" where
  "new_user req uuid h t1 t2 =
     \<lparr>user_ID = uuid, user_Name = cur_Name req, user_Email = cur_Email req, user_Password = h,
      user_CreatedAt = t1, user_UpdatedAt = t2\<rparr>"

lemma register_taken:
  assumes repo: "reliable_user_repository repo users listed" and uc: "uu_userRepo uc = repo"
    and v: "users (as_repo s) i = Some v" "user_Email v = cur_Email req"
  shows "usecase_Register L uc ctx req salt uuid t1 t2 s = (s, Ret (Inl ErrAlreadyExists))"
proof -
  have "\<exists>u. repo_FindByEmail repo (as_repo s) (cur_Email req) = Inr u"
  proof (cases "repo_FindByEmail repo (as_repo s) (cur_Email req)")
    case (Inl e)
    with reliable_user_repository.repo_email_up [OF repo] have "e = ErrNotFound" by blast
    with Inl v user_repository.repo_email_none [OF reliable_user_repository.axioms(1) [OF repo]]
    show ?thesis by blast
  qed simp
  with uc show ?thesis by (auto simp: usecase_Register_def)
qed

lemma register_inserts:
  assumes repo: "reliable_user_repository repo users listed" and uc: "uu_userRepo uc = repo"
    and hash: "HashPassword (lib_bcrypt L) salt (cur_Password req) = Inr h"
    and fresh: "users (as_repo s) uuid = None"
    and free: "\<And>i v. users (as_repo s) i = Some v \<Longrightarrow> user_Email v \<noteq> cur_Email req"
  obtains r' where "users r' = (users (as_repo s))(uuid \<mapsto> new_user req uuid h t1 t2)"
    "usecase_Register L uc ctx req salt uuid t1 t2 s =
      (case dispatch_welcome uc ctx (new_user req uuid h t1 t2) (as_queue s) of
         Panic msg \<Rightarrow> (s\<lparr>as_repo := r'\<rparr>, Panic msg)
       | Ret q' \<Rightarrow> (s\<lparr>as_repo := r', as_queue := q'\<rparr>, Ret (Inr (ToResponse (new_user req uuid h t1 t2)))))"
proof -
  let ?u = "new_user req uuid h t1 t2"
  note r0 = reliable_user_repository.axioms(1) [OF repo]
  obtain e where find: "repo_FindByEmail repo (as_repo s) (cur_Email req) = Inl e"
    using free user_repository.repo_email_ok [OF r0]
    by (cases "repo_FindByEmail repo (as_repo s) (cur_Email req)") blast+
  have "email_index ((users (as_repo s))(uuid \<mapsto> ?u))"
    by (rule email_index_update [OF user_repository.emails_unique [OF r0]])
      (use free in \<open>auto simp: new_user_def\<close>)
  then obtain r' where create: "repo_Create repo (as_repo s) ?u = (r', None)"
    using reliable_user_repository.repo_create_up [OF repo, of "as_repo s" ?u] fresh
    by (auto simp: new_user_def)
  have "users r' = (users (as_repo s))(uuid \<mapsto> ?u)"
    using user_repository.repo_create_ok [OF r0 create] by (simp add: new_user_def)
  then show ?thesis
    by (rule that) (use find hash create uc in \<open>simp add: usecase_Register_def new_user_def split: outcome.split\<close>)
qed


lemma sample_dispatch: "dispatch_welcome sample_usecase ctx u q = Ret (Suc q)"
  by (simp add: dispatch_welcome_def sample_usecase_def NewUserUsecase_def count_dispatch_def)

lemma sample_new_user: "new_user sample_request ''id1'' sample_hash 10 11 = sample_user"
  by (simp add: new_user_def sample_request_def sample_user_def)


text \<open>
  C13. \<open>Login\<close> answers with a token exactly when a user with this address exists and the password
  checks against its hash; the token validates, until it expires, to the identifier and address
  of that user. Every other outcome, an unknown address, a wrong password, and also a database
  that is down, is the one error \<open>ErrInvalidCredentials\<close>.
\<close>

theorem login_checks_credentials:
  assumes repo: "user_repository repo users listed" and uc: "uu_userRepo uc = repo"
    and J: "jwt_ok (lib_jwt L) V"
  shows "case usecase_Login L uc req now s of
      Inl e \<Rightarrow> e = ErrInvalidCredentials \<and>
        (\<forall>i v. users (as_repo s) i = Some v \<and> user_Email v = lr_Email req \<and>
           CheckPasswordHash (lib_bcrypt L) (lr_Password req) (user_Password v) \<longrightarrow>
           (\<exists>x. x \<noteq> ErrNotFound \<and> repo_FindByEmail repo (as_repo s) (lr_Email req) = Inl x))
    | Inr resp \<Rightarrow>
        (\<exists>v. users (as_repo s) (user_ID v) = Some v \<and> user_Email v = lr_Email req \<and>
           CheckPasswordHash (lib_bcrypt L) (lr_Password req) (user_Password v) \<and>
           lresp_User resp = ToResponse v \<and>
           (\<forall>t. ValidateToken (lib_jwt L) (uu_jwt uc) t (lresp_Token resp) =
              (if t < numeric_date (now + js_expiryHours (uu_jwt uc))
               then Inr (token_claims (uu_jwt uc) (user_ID v) (user_Email v) now)
               else Inl ErrExpiredToken)))"
proof (cases "repo_FindByEmail repo (as_repo s) (lr_Email req)")
  case (Inl e)
  with uc have "usecase_Login L uc req now s = Inl ErrInvalidCredentials"
    by (simp add: usecase_Login_def)
  moreover have "e = ErrNotFound \<Longrightarrow> users (as_repo s) i = Some v \<Longrightarrow> user_Email v \<noteq> lr_Email req" for i v
    using user_repository.repo_email_none [OF repo] Inl by blast
  ultimately show ?thesis using Inl by auto
next
  case (Inr u)
  from user_repository.repo_email_ok [OF repo Inr]
  have u: "users (as_repo s) (user_ID u) = Some u" "user_Email u = lr_Email req" by auto
  have only: "users (as_repo s) i = Some v \<Longrightarrow> user_Email v = lr_Email req \<Longrightarrow> v = u" for i v
    using user_repository.emails_unique [OF repo, of "as_repo s"] u unfolding email_index_def
    by (metis option.inject)
  show ?thesis
  proof (cases "CheckPasswordHash (lib_bcrypt L) (lr_Password req) (user_Password u)")
    case True
    obtain tok where tok: "GenerateToken (lib_jwt L) (uu_jwt uc) (user_ID u) (user_Email u) now = Inr tok"
      using GenerateToken_ok [OF J] by blast
    with Inr True uc have "usecase_Login L uc req now s = Inr \<lparr>lresp_Token = tok, lresp_User = ToResponse u\<rparr>"
      by (simp add: usecase_Login_def)
    with u True ValidateToken_generated [OF J tok] show ?thesis by auto
  next
    case False
    with Inr uc have "usecase_Login L uc req now s = Inl ErrInvalidCredentials"
      by (simp add: usecase_Login_def)
    with only False show ?thesis by auto
  qed
qed

definition sample_login :: "string \<Rightarrow> login_request" where
  "sample_login pw = \<lparr>lr_Email = ''ada@x.org'', lr_Password = pw\<rparr>"

lemma sample_login_ok: "\<exists>resp. usecase_Login sample_libs sample_usecase (sample_login ''lovelace'') 100 sample_registered = Inr resp"
proof -
  have "repo_FindByEmail (uu_userRepo sample_usecase) (as_repo sample_registered)
      (lr_Email (sample_login ''lovelace'')) = Inr sample_user" by code_simp
  moreover have "CheckPasswordHash (lib_bcrypt sample_libs) (lr_Password (sample_login ''lovelace''))
      (user_Password sample_user)" by code_simp
  moreover obtain tok where "GenerateToken (lib_jwt sample_libs) (uu_jwt sample_usecase)
      (user_ID sample_user) (user_Email sample_user) 100 = Inr tok"
    using GenerateToken_ok [OF sample_jwt] by blast
  ultimately show ?thesis by (simp add: usecase_Login_def)
qed

theorem login_checks_credentials_witness:
  "\<exists>resp. usecase_Login sample_libs sample_usecase (sample_login ''lovelace'') 100 sample_registered = Inr resp \<and>
     ValidateToken mem_jwt (uu_jwt sample_usecase) 200 (lresp_Token resp) =
       Inr (token_claims (uu_jwt sample_usecase) ''id1'' ''ada@x.org'' 100)"
proof -
  obtain resp where resp: "usecase_Login sample_libs sample_usecase (sample_login ''lovelace'') 100
      sample_registered = Inr resp" using sample_login_ok ..
  from login_checks_credentials [OF mem_repository0 cached_app_simps(1) [OF sample_app] sample_jwt,
      where req = "sample_login ''lovelace''" and now = 100 and s = sample_registered]
  obtain v where v: "mem_user_rows (as_repo sample_registered) (user_ID v) = Some v"
    and t: "\<forall>t. ValidateToken (lib_jwt sample_libs) (uu_jwt sample_usecase) t (lresp_Token resp) =
      (if t < numeric_date (100 + js_expiryHours (uu_jwt sample_usecase))
       then Inr (token_claims (uu_jwt sample_usecase) (user_ID v) (user_Email v) 100)
       else Inl ErrExpiredToken)"
    unfolding resp sum.case by blast
  from v have "v = sample_user"
    by (simp add: sample_registered_def sample_rows split: if_splits)
  moreover have "200 < numeric_date (100 + js_expiryHours (uu_jwt sample_usecase))" by code_simp
  ultimately show ?thesis
    using resp t by (auto simp: sample_libs_def sample_user_def)
qed

text \<open>
  A password of more than 72 bytes passes the validation of the request, but it can never be
  registered: \<open>Register\<close> fails with an error that is not one of the domain's, and creates nothing.
\<close>

theorem long_password_never_registers:
  assumes "bcrypt_ok (lib_bcrypt L)" "72 < length (cur_Password req)"
    and "2 \<le> rune_count (cur_Name req)" "rune_count (cur_Name req) \<le> 100" "cur_Email req \<noteq> []"
    and "6 \<le> rune_count (cur_Password req)"
    and "is_email (cur_Email req)"
    and "repo_FindByEmail (uu_userRepo uc) (as_repo s) (cur_Email req) = Inl e0"
  shows "create_user_request_ok is_email req \<and>
    (\<exists>e. usecase_Register L uc ctx req salt uuid t1 t2 s =
       (s, Ret (Inl (Errorf ''failed to hash password: '' e []))))"
proof -
  obtain e where "HashPassword (lib_bcrypt L) salt (cur_Password req) = Inl e"
    using bcrypt_long [OF assms(1,2)] by blast
  moreover from this obtain e' where "e = Errorf ''failed to hash password: '' e' []"
    by (auto simp: HashPassword_def split: sum.splits)
  ultimately show ?thesis
    using assms by (auto simp: usecase_Register_def create_user_request_ok_def)
qed

definition long_request :: create_user_request where
  "long_request = sample_request\<lparr>cur_Password := replicate 73 CHR ''x''\<rparr>"

theorem long_password_never_registers_witness:
  "create_user_request_ok (\<lambda>e. True) long_request \<and>
   (\<exists>e. usecase_Register sample_libs sample_usecase RequestContext long_request ''salt'' ''id1'' 10 11
      sample_start = (sample_start, Ret (Inl (Errorf ''failed to hash password: '' e []))))"
proof (rule long_password_never_registers)
  show "repo_FindByEmail (uu_userRepo sample_usecase) (as_repo sample_start) (cur_Email long_request) =
      Inl ErrNotFound"
    by code_simp
qed (simp_all add: sample_bcrypt long_request_def sample_request_def rune_count_def)

end
