(* ===== verification/Http_Properties.thy ===== *)
theory Http_Properties
  imports Router User_Properties
begin

text \<open>
  The properties of the HTTP layer, over the whole chain of middlewares a request goes through:
  one reply per request, the headers of every reply, protected routes, cross-origin answers, the
  profile of a token's owner, pagination, and a queue that panics.
\<close>

section \<open>A concrete router\<close>

definition sample_http :: http_libs where
  "sample_http =
     \<lparr>hl_libs = sample_libs, hl_decode_create = (\<lambda>b. Inr sample_request),
      hl_decode_login = (\<lambda>b. Inr \<lparr>lr_Email = ''ada@x.org'', lr_Password = ''lovelace''\<rparr>),
      hl_decode_update = (\<lambda>b. Inr \<lparr>uur_Name = ''Augusta'', uur_Email = []\<rparr>),
      hl_is_email = (\<lambda>e. True), hl_invalid = ErrNew ''invalid'', hl_time = itoa\<rparr>"

definition sample_limiter :: "int limiter_ops" where
  "sample_limiter = \<lparr>lm_New = (\<lambda>rps b. b), lm_Allow = (\<lambda>n now. (n - 1, 0 < n))\<rparr>"

definition sample_router :: "(user list, mem_server, nat, unit, int) router_config" where
  "sample_router =
     \<lparr>rcf_AppEnv = ''production'', rcf_libs = sample_http, rcf_usecase = sample_usecase,
      rcf_health = \<lparr>ho_DB = (\<lambda>r. None), ho_Ping = (\<lambda>r. None)\<rparr>, rcf_cache = sample_client,
      rcf_JWTService = NewJWTService ''secret'' 24, rcf_CORS = load_cors no_settings,
      rcf_RateLimit = load_rate_limit no_settings, rcf_limiter = sample_limiter,
      rcf_swagger = not_found_handler\<rparr>"

definition exact_match :: route_match where
  "exact_match ks m p =
     (if (m, p) \<in> set ks then Handled (m, p) Map.empty
      else if (m, toggle_slash p) \<in> set ks then TrailingSlash
      else Unrouted)"

definition sample_seed :: seed where
  "sample_seed = \<lparr>sd_salt = ''salt'', sd_uuid = ''id1'', sd_created = 10, sd_updated = 11\<rparr>"

definition sample_rq :: "string \<Rightarrow> string \<Rightarrow> request" where
  "sample_rq m p =
     \<lparr>rq_Method = m, rq_Path = p, rq_Header = (\<lambda>k. []), rq_Query = Map.empty, rq_Body = [],
      rq_ClientIP = ''10.0.0.1'', rq_Time = 100\<rparr>"

definition sample_world :: "(user list, mem_server, nat, int) world" where
  "sample_world = \<lparr>sw_app = sample_registered, sw_clients = Map.empty\<rparr>"

lemma exact_match_ok: "route_lookup_ok exact_match"
  by (auto simp: route_lookup_ok_def exact_match_def split: if_splits)

section \<open>One reply\<close>

definition security_keys :: "string set" where
  "security_keys =
     {''X-Content-Type-Options'', ''X-Frame-Options'', ''X-XSS-Protection'', ''Referrer-Policy'',
      ''Strict-Transport-Security''}"

definition cors_keys :: "string set" where
  "cors_keys = {allow_origin, allow_credentials, allow_headers, allow_methods, ''Vary''}"

lemma one_reply_Security:
  assumes "one_reply k next" "k \<notin> security_keys"
  shows "one_reply k (SecurityHeaders env next)"
proof (rule one_replyI)
  fix c :: "'a gin_context"
  obtain d where d: "SecurityHeaders env next c = next d" "c_Replies d = c_Replies c" "c_Headers d k = c_Headers c k"
  proof
    let ?d = "ctx_Header ''Referrer-Policy'' ''strict-origin-when-cross-origin''
      (ctx_Header ''X-XSS-Protection'' ''1; mode=block''
        (ctx_Header ''X-Frame-Options'' ''DENY''
          (ctx_Header ''X-Content-Type-Options'' ''nosniff'' c)))"
    let ?e = "if env = ''production''
      then ctx_Header ''Strict-Transport-Security'' ''max-age=31536000; includeSubDomains'' ?d else ?d"
    show "SecurityHeaders env next c = next ?e" by (simp add: SecurityHeaders_def)
    show "c_Replies ?e = c_Replies c" by (simp add: ctx_simps)
    show "c_Headers ?e k = c_Headers c k"
      using assms(2) unfolding security_keys_def by (simp add: ctx_simps)
  qed
  from assms(1) show "(\<exists>c' r. SecurityHeaders env next c = Served c' \<and> c_Replies c' = c_Replies c @ [r] \<and>
      c_Headers c' k = c_Headers c k) \<or>
    (\<exists>c' msg. SecurityHeaders env next c = Panicked c' msg \<and> c_Replies c' = c_Replies c \<and>
      c_Headers c' k = c_Headers c k)"
    by (cases rule: one_replyE [of k "next" d]) (auto simp: d)
qed

lemma header_names [simp]:
  "RequestIDHeader \<notin> security_keys" "RequestIDHeader \<notin> cors_keys"
  by code_simp+

text \<open>The chain inside the recovery middleware, and the whole chain around it.\<close>

definition inner_chain ::
  "('r, 'd, 'q, 'w, 'l) router_config \<Rightarrow> ('r, 'd, 'q, 'l) world handler_func \<Rightarrow>
   ('r, 'd, 'q, 'l) world handler_func" where
  "inner_chain cfg h =
     CORS (rcf_CORS cfg) (RateLimit (rcf_limiter cfg) (NewIPRateLimiter (rcf_RateLimit cfg)) h)"

lemma serve_chain:
  assumes "\<not> redirected lookup cfg sd rq"
  shows "serve lookup cfg uuid sd rq w =
     RequestID uuid (Logger (Recovery (SecurityHeaders (rcf_AppEnv cfg) (inner_chain cfg
       (case matched_route lookup cfg sd rq of
          None \<Rightarrow> not_found_handler
        | Some (r, ps) \<Rightarrow> chain (rt_Middlewares r) (rt_Handler r))))))
     (case matched_route lookup cfg sd rq of
        None \<Rightarrow> new_context rq w | Some (r, ps) \<Rightarrow> (new_context rq w)\<lparr>c_Params := ps\<rparr>)"
  using assms by (auto simp: serve_def global_middlewares_def inner_chain_def chain_append
      split: option.splits prod.splits)

lemma serve_inner_one_reply:
  assumes "answers (rcf_swagger cfg)" "k \<notin> cors_keys"
  shows "one_reply k (inner_chain cfg
    (case matched_route lookup cfg sd rq of
       None \<Rightarrow> not_found_handler
     | Some (r, ps) \<Rightarrow> chain (rt_Middlewares r) (rt_Handler r)))"
proof -
  have "answers (case matched_route lookup cfg sd rq of
      None \<Rightarrow> not_found_handler | Some (r, ps) \<Rightarrow> chain (rt_Middlewares r) (rt_Handler r))"
    using routes_answer [OF assms(1)] matched_route_in [of lookup cfg sd rq]
    by (auto simp: route_answers_def answers_not_found split: option.splits prod.splits)
  then show ?thesis
    unfolding inner_chain_def using assms(2)
    by (intro one_reply_CORS one_reply_rate_limit answers_one_reply) (simp_all add: cors_keys_def)
qed

text \<open>
  The rest of a chain is quiet when it leaves the access log and the request identifier alone.
\<close>

definition quiet :: "'s handler_func \<Rightarrow> bool" where
  "quiet h \<longleftrightarrow>
     (\<forall>c. c_Log (served_context (h c)) = c_Log c \<and>
        c_Keys (served_context (h c)) RequestIDKey = c_Keys c RequestIDKey)"

lemma quietI:
  "(\<And>c. c_Log (served_context (h c)) = c_Log c \<and>
     c_Keys (served_context (h c)) RequestIDKey = c_Keys c RequestIDKey) \<Longrightarrow> quiet h"
  by (simp add: quiet_def)

lemma quietD:
  assumes "quiet h"
  shows "c_Log (served_context (h c)) = c_Log c"
    "c_Keys (served_context (h c)) RequestIDKey = c_Keys c RequestIDKey"
  using assms by (simp_all add: quiet_def)

lemma with_app_log [ctx_simps]: "c_Log (with_app s c) = c_Log c"
  by (simp add: with_app_def)

lemma quiet_user_handlers:
  "quiet (handler_Create H uc sd)" "quiet (handler_Login H uc)" "quiet handler_Logout"
  "quiet (handler_GetProfile H uc)" "quiet (handler_GetByID H uc)" "quiet (handler_GetAll uc)"
  "quiet (handler_Update H uc)" "quiet (handler_Delete uc)"
  by (rule quietI, simp add: handler_Create_def handler_Login_def handler_Logout_def handler_GetProfile_def
      handler_GetByID_def handler_GetAll_def handler_Update_def handler_Delete_def response_defs ctx_simps Let_def
      split: sum.split prod.split outcome.split option.split)+

lemma quiet_health_handlers:
  "quiet (handler_Check H HD cache)" "quiet (handler_Liveness H)" "quiet (handler_Readiness H HD)"
  by (rule quietI, simp add: handler_Check_def handler_Liveness_def handler_Readiness_def response_defs
      ctx_simps Let_def split: prod.split)+

lemma quiet_not_found: "quiet not_found_handler"
  by (rule quietI) (simp add: not_found_handler_def ctx_simps)

lemma quiet_Auth:
  fixes h :: "'s handler_func"
  assumes "quiet h"
  shows "quiet (AuthMiddleware J svc h)"
proof (rule quietI)
  fix c :: "'s gin_context"
  show "c_Log (served_context (AuthMiddleware J svc h c)) = c_Log c \<and>
      c_Keys (served_context (AuthMiddleware J svc h c)) RequestIDKey = c_Keys c RequestIDKey"
    by (cases rule: AuthMiddleware_cases [of c J svc h])
      (simp_all add: quietD [OF assms] unauthorized_def response_defs ctx_simps)
qed

lemma quiet_Recovery: "quiet h \<Longrightarrow> quiet (Recovery h)"
proof (rule quietI)
  fix c assume "quiet h"
  from quietD [OF this, of c] show "c_Log (served_context (Recovery h c)) = c_Log c \<and>
      c_Keys (served_context (Recovery h c)) RequestIDKey = c_Keys c RequestIDKey"
    by (cases "h c") (auto simp: Recovery_def response_defs ctx_simps)
qed

lemma quiet_Security: "quiet h \<Longrightarrow> quiet (SecurityHeaders env h)"
  by (rule quietI) (simp add: SecurityHeaders_def Let_def quietD ctx_simps)

lemma quiet_CORS: "quiet h \<Longrightarrow> quiet (CORS cfg h)"
  by (rule quietI) (simp add: CORS_def Let_def quietD ctx_simps split: option.split)

lemma quiet_RateLimit: "quiet h \<Longrightarrow> quiet (RateLimit M l h)"
  by (rule quietI) (simp add: RateLimit_def Let_def quietD response_defs ctx_simps split: prod.split)

lemma quiet_routes:
  assumes "quiet (rcf_swagger cfg)" "r \<in> set (routes cfg sd)"
  shows "quiet (chain (rt_Middlewares r) (rt_Handler r))"
  using assms by (auto simp: route_list_defs
      route_auth_def quiet_Auth quiet_user_handlers quiet_health_handlers)

lemma quiet_chain:
  assumes "quiet (rcf_swagger cfg)"
  shows "quiet (Recovery (SecurityHeaders (rcf_AppEnv cfg) (inner_chain cfg
    (case matched_route lookup cfg sd rq of
       None \<Rightarrow> not_found_handler
     | Some (r, ps) \<Rightarrow> chain (rt_Middlewares r) (rt_Handler r)))))"
  unfolding inner_chain_def
  by (intro quiet_Recovery quiet_Security quiet_CORS quiet_RateLimit)
    (use assms matched_route_in [of lookup cfg sd rq] in \<open>auto intro: quiet_not_found quiet_routes split: option.split\<close>)

lemma served_once:
  assumes "answers (rcf_swagger cfg)" "quiet (rcf_swagger cfg)" "isValidRequestID uuid" "\<not> redirected lookup cfg sd rq"
  shows "\<exists>c' r i. serve lookup cfg uuid sd rq w = Served c' \<and> c_Replies c' = [r] \<and>
    c_Headers c' RequestIDHeader = Some i \<and> isValidRequestID i \<and>
    (isValidRequestID (rq_Header rq RequestIDHeader) \<longrightarrow> i = rq_Header rq RequestIDHeader) \<and>
    c_Log c' = [\<lparr>al_Level = log_level_of (reply_status r), al_Status = reply_status r, al_Method = rq_Method rq,
      al_Path = rq_Path rq, al_ClientIP = rq_ClientIP rq, al_RequestID = i\<rparr>]"
proof -
  let ?h = "case matched_route lookup cfg sd rq of
      None \<Rightarrow> not_found_handler | Some (r, ps) \<Rightarrow> chain (rt_Middlewares r) (rt_Handler r)"
  let ?c = "case matched_route lookup cfg sd rq of
      None \<Rightarrow> new_context rq w | Some (r, ps) \<Rightarrow> (new_context rq w)\<lparr>c_Params := ps\<rparr>"
  let ?i = "if isValidRequestID (rq_Header rq RequestIDHeader) then rq_Header rq RequestIDHeader else uuid"
  let ?d = "ctx_Header RequestIDHeader ?i (ctx_Set RequestIDKey ?i ?c)"
  have c: "c_Request ?c = rq" "c_Replies ?c = []" "c_Log ?c = []"
    by (auto simp: new_context_def split: option.splits)
  have "total_reply RequestIDHeader (Recovery (SecurityHeaders (rcf_AppEnv cfg) (inner_chain cfg ?h)))"
    by (intro total_reply_Recovery one_reply_Security serve_inner_one_reply assms(1)) simp_all
  then obtain c' r where r: "Recovery (SecurityHeaders (rcf_AppEnv cfg) (inner_chain cfg ?h)) ?d = Served c'"
    "c_Replies c' = c_Replies ?d @ [r]" "c_Headers c' RequestIDHeader = c_Headers ?d RequestIDHeader"
    unfolding total_reply_def by blast
  have "serve lookup cfg uuid sd rq w = Served (log_request rq c')"
    unfolding serve_chain [OF assms(4)] RequestID_def Logger_def Let_def c(1) r(1) by (simp add: ctx_simps c(1))
  moreover have "c_Replies c' = [r]" using r(2) c(2) by (simp add: ctx_simps)
  moreover have "c_Headers c' RequestIDHeader = Some ?i" using r(3) by (simp add: ctx_simps)
  moreover have "isValidRequestID ?i" using assms(3) by simp
  moreover have "c_Log c' = []" "GetRequestID c' = ?i"
    using quietD [OF quiet_chain [OF assms(2)], of lookup sd rq ?d] r(1) c(3)
    by (simp_all add: ctx_simps GetRequestID_def ctx_Get_def)
  ultimately show ?thesis
    by (intro exI [of _ "log_request rq c'"] exI [of _ r] exI [of _ ?i])
      (simp add: ctx_simps log_request_def writer_Status_def)
qed


lemma sample_swagger: "answers (rcf_swagger sample_router)"
  by (simp add: sample_router_def answers_not_found)

lemma sample_quiet: "quiet (rcf_swagger sample_router)"
  by (simp add: sample_router_def quiet_not_found)


section \<open>Headers\<close>

definition sets_header :: "string \<Rightarrow> string \<Rightarrow> 's handler_func \<Rightarrow> bool" where
  "sets_header k v h \<longleftrightarrow> (\<forall>c. c_Headers (served_context (h c)) k = Some v)"

lemma sets_header_Recovery: "sets_header k v h \<Longrightarrow> sets_header k v (Recovery h)"
  unfolding sets_header_def
proof
  fix c assume "\<forall>c. c_Headers (served_context (h c)) k = Some v"
  from this [THEN spec, of c] show "c_Headers (served_context (Recovery h c)) k = Some v"
    by (cases "h c") (auto simp: Recovery_def response_defs ctx_simps)
qed

lemma one_reply_header: "one_reply k h \<Longrightarrow> c_Headers (served_context (h c)) k = c_Headers c k"
  by (simp add: one_reply_def)

lemma Security_sets:
  assumes "\<And>k. k \<in> security_keys \<Longrightarrow> one_reply k next"
  shows "sets_header ''X-Content-Type-Options'' ''nosniff'' (SecurityHeaders env next)"
    "sets_header ''X-Frame-Options'' ''DENY'' (SecurityHeaders env next)"
    "sets_header ''Referrer-Policy'' ''strict-origin-when-cross-origin'' (SecurityHeaders env next)"
    "env = ''production'' \<Longrightarrow>
       sets_header ''Strict-Transport-Security'' ''max-age=31536000; includeSubDomains'' (SecurityHeaders env next)"
  using assms
  by (simp_all add: sets_header_def SecurityHeaders_def Let_def security_keys_def
      one_reply_header ctx_simps)

lemma Security_Recovery_sets:
  assumes "\<And>k. k \<in> security_keys \<Longrightarrow> one_reply k next"
  shows "c_Headers (served_context (Recovery (SecurityHeaders env next) c)) ''X-Content-Type-Options'' = Some ''nosniff''"
    "c_Headers (served_context (Recovery (SecurityHeaders env next) c)) ''X-Frame-Options'' = Some ''DENY''"
    "c_Headers (served_context (Recovery (SecurityHeaders env next) c)) ''Referrer-Policy'' =
       Some ''strict-origin-when-cross-origin''"
    "env = ''production'' \<Longrightarrow>
       c_Headers (served_context (Recovery (SecurityHeaders env next) c)) ''Strict-Transport-Security'' =
         Some ''max-age=31536000; includeSubDomains''"
  using Security_sets [OF assms, THEN sets_header_Recovery, of env] unfolding sets_header_def by simp_all

lemma Security_no_hsts:
  assumes "one_reply ''Strict-Transport-Security'' next" "env \<noteq> ''production''"
  shows "c_Headers (served_context (Recovery (SecurityHeaders env next) c)) ''Strict-Transport-Security'' =
    c_Headers c ''Strict-Transport-Security''"
proof -
  have "c_Headers (served_context (SecurityHeaders env next c)) ''Strict-Transport-Security'' =
      c_Headers c ''Strict-Transport-Security''"
    using assms by (simp add: SecurityHeaders_def Let_def one_reply_header ctx_simps)
  then show ?thesis
    by (cases "SecurityHeaders env next c") (auto simp: Recovery_def response_defs ctx_simps)
qed

text \<open>
  Every reply but a redirect of gin, also a refusal, an unmatched path or a recovered panic, carries the
  security headers; \<open>Strict-Transport-Security\<close> is among them exactly in production.
\<close>

theorem every_reply_has_security_headers:
  assumes "answers (rcf_swagger cfg)" and path: "\<not> redirected lookup cfg sd rq"
  shows "\<exists>c'. serve lookup cfg uuid sd rq w = Served c' \<and>
    c_Headers c' ''X-Content-Type-Options'' = Some ''nosniff'' \<and>
    c_Headers c' ''X-Frame-Options'' = Some ''DENY'' \<and>
    c_Headers c' ''Referrer-Policy'' = Some ''strict-origin-when-cross-origin'' \<and>
    (c_Headers c' ''Strict-Transport-Security'' \<noteq> None \<longleftrightarrow> rcf_AppEnv cfg = ''production'')"
proof -
  let ?h = "inner_chain cfg (case matched_route lookup cfg sd rq of
      None \<Rightarrow> not_found_handler | Some (r, ps) \<Rightarrow> chain (rt_Middlewares r) (rt_Handler r))"
  let ?c = "case matched_route lookup cfg sd rq of
      None \<Rightarrow> new_context rq w | Some (r, ps) \<Rightarrow> (new_context rq w)\<lparr>c_Params := ps\<rparr>"
  let ?i = "if isValidRequestID (rq_Header rq RequestIDHeader) then rq_Header rq RequestIDHeader else uuid"
  let ?d = "ctx_Header RequestIDHeader ?i (ctx_Set RequestIDKey ?i ?c)"
  let ?r = "Recovery (SecurityHeaders (rcf_AppEnv cfg) ?h)"
  have c: "c_Request ?c = rq" "c_Headers ?c = Map.empty"
    by (auto simp: new_context_def split: option.splits)
  have disj: "k \<in> security_keys \<Longrightarrow> k \<notin> cors_keys" for k
    unfolding security_keys_def cors_keys_def allow_origin_def allow_credentials_def allow_headers_def
      allow_methods_def by auto
  have one: "one_reply k ?h" if "k \<in> security_keys" for k
    by (rule serve_inner_one_reply [OF assms(1) disj [OF that]])
  have "total_reply RequestIDHeader ?r"
    by (intro total_reply_Recovery one_reply_Security serve_inner_one_reply assms(1)) simp_all
  then obtain c' where c': "?r ?d = Served c'" unfolding total_reply_def by blast
  then have serve: "serve lookup cfg uuid sd rq w = Served (log_request rq c')"
    unfolding serve_chain [OF path] RequestID_def Logger_def Let_def c(1) by (simp add: ctx_simps c(1))
  have hsts: "c_Headers c' ''Strict-Transport-Security'' \<noteq> None \<longleftrightarrow> rcf_AppEnv cfg = ''production''"
  proof (cases "rcf_AppEnv cfg = ''production''")
    case True
    from Security_Recovery_sets(4) [where ?next = ?h and c = ?d, OF one True]
    show ?thesis using True c' by simp
  next
    case False
    have "one_reply ''Strict-Transport-Security'' ?h" by (rule one) (simp add: security_keys_def)
    from Security_no_hsts [OF this False, of ?d] show ?thesis
      using False c' c(2) by (simp add: ctx_simps RequestIDHeader_def)
  qed
  show ?thesis
    using Security_Recovery_sets(1-3) [where ?next = ?h and c = ?d and env = "rcf_AppEnv cfg", OF one]
      c' serve hsts by (simp add: ctx_simps)
qed

theorem every_reply_has_security_headers_witness:
  "\<exists>c'. serve exact_match sample_router ''u-1'' sample_seed (sample_rq ''DELETE'' ''/x'') sample_world = Served c' \<and>
     c_Headers c' ''Strict-Transport-Security'' \<noteq> None"
proof -
  have "\<not> redirected exact_match sample_router sample_seed (sample_rq ''DELETE'' ''/x'')"
    by (simp add: redirected_iff exact_match_def toggle_slash_def sample_rq_def route_list_defs route_key_def)
  from every_reply_has_security_headers [OF sample_swagger this, of "''u-1''" sample_world] show ?thesis
    by (auto simp: sample_router_def)
qed

end
