(* ===== verification/User_Read_Properties.thy ===== *)
theory User_Read_Properties
  imports User_Properties
begin

text \<open>
  Properties of the reads, the listing and the updates of
  \<open>internal/usecase/user_usecase.go\<close>: the windows of the listing, the cache under any sequence
  of operations, and what operations that overlap can do.
\<close>

section \<open>The listing\<close>

lemma window_take_drop:
  "0 \<le> n \<Longrightarrow> 0 \<le> k \<Longrightarrow> window n (k * n) xs = take (nat n) (drop (nat k * nat n) xs)"
  by (simp add: window_def nat_mult_distrib)

lemma concat_windows:
  "concat (map (\<lambda>p. take n (drop (p * n) xs)) [0..<k]) = take (k * n) xs"
proof (induction k)
  case (Suc k)
  have "take (Suc k * n) xs = take (k * n) xs @ take n (drop (k * n) xs)"
    using take_add [of "k * n" n xs] by (simp add: add.commute)
  with Suc show ?case by simp
qed simp

text \<open>
  C37. The pages of \<open>GetAll\<close> tile the listing: for a page size within bounds, the pages
  1 to \<open>k\<close> of one state of the table, put one after the other, are the users by descending
  creation time, each once, as soon as \<open>k\<close> pages hold them all; and the reported total is their
  number. It relies on the database listing the rows of one state in one order also where creation times
  are equal, which the query does not ask for.
\<close>

theorem pages_tile_listing:
  assumes repo: "reliable_user_repository repo users listed" and uc: "uu_userRepo uc = repo"
    and sz: "1 \<le> sz" "sz \<le> 100" and k: "length (listed (as_repo s)) \<le> k * nat sz" "k \<le> 2 ^ 56"
  shows "concat (map (\<lambda>p. case usecase_GetAll uc (int p) sz s of Inl e \<Rightarrow> [] | Inr (us, n) \<Rightarrow> us)
      [1..<Suc k]) = map ToResponse (listed (as_repo s)) \<and>
    (\<forall>p. \<exists>us. usecase_GetAll uc p sz s = Inr (us, int (length (listed (as_repo s)))))"
proof
  note r0 = reliable_user_repository.axioms(1) [OF repo]
  have total: "\<exists>us. usecase_GetAll uc p sz s = Inr (us, int (length (listed (as_repo s))))" for p
  proof -
    obtain vs n where "repo_FindAll repo (as_repo s) (clamp_size sz) (page_offset p sz) = Inr (vs, n)"
      using reliable_user_repository.repo_all_up [OF repo] by blast
    with uc have g: "usecase_GetAll uc p sz s = Inr (map ToResponse vs, n)" by (simp add: usecase_GetAll_def)
    from user_repository.get_all_window(2) [OF r0 g uc] g show ?thesis by simp
  qed
  then show "\<forall>p. \<exists>us. usecase_GetAll uc p sz s = Inr (us, int (length (listed (as_repo s))))" ..
  have clamp: "clamp_size sz = sz" using sz by (simp add: clamp_size_def)
  have page: "(case usecase_GetAll uc (int (Suc p)) sz s of Inl e \<Rightarrow> [] | Inr (us, n) \<Rightarrow> us) =
      map ToResponse (take (nat sz) (drop (p * nat sz) (listed (as_repo s))))" if "p < k" for p
  proof -
    obtain us where g: "usecase_GetAll uc (int (Suc p)) sz s = Inr (us, int (length (listed (as_repo s))))"
      using total by blast
    have "int (Suc p) \<le> 2 ^ 56" using that k(2) by simp
    then have "page_offset (int (Suc p)) sz = int p * sz"
      by (simp add: page_offset_exact clamp clamp_page_def)
    with user_repository.get_all_window(1) [OF r0 g uc] sz
    have "us = map ToResponse (take (nat sz) (drop (p * nat sz) (listed (as_repo s))))"
      by (simp add: clamp window_take_drop)
    then show ?thesis unfolding g by simp
  qed
  have "[1..<Suc k] = map Suc [0..<k]" by (simp add: map_Suc_upt)
  then have "concat (map (\<lambda>p. case usecase_GetAll uc (int p) sz s of Inl e \<Rightarrow> [] | Inr (us, n) \<Rightarrow> us)
      [1..<Suc k]) =
    concat (map (\<lambda>p. map ToResponse (take (nat sz) (drop (p * nat sz) (listed (as_repo s))))) [0..<k])"
    by (simp only: map_map comp_def) (rule arg_cong [where f = concat], rule map_cong, simp, rule page, simp)
  also have "\<dots> = map ToResponse (concat (map (\<lambda>p. take (nat sz) (drop (p * nat sz) (listed (as_repo s)))) [0..<k]))"
    by (simp add: map_concat comp_def)
  also have "\<dots> = map ToResponse (listed (as_repo s))"
    using k(1) by (simp add: concat_windows)
  finally show "concat (map (\<lambda>p. case usecase_GetAll uc (int p) sz s of Inl e \<Rightarrow> [] | Inr (us, n) \<Rightarrow> us)
      [1..<Suc k]) = map ToResponse (listed (as_repo s))" .
qed

definition second_user :: user where
  "second_user = sample_user\<lparr>user_ID := ''id2'', user_Email := ''bob@x.org'', user_CreatedAt := 5\<rparr>"

definition two_users :: "(user list, mem_server, nat) app_state" where
  "two_users = sample_registered\<lparr>as_repo := [sample_user, second_user]\<rparr>"

lemma two_users_ok: "mem_users_ok [sample_user, second_user]"
  by code_simp

theorem pages_tile_listing_witness:
  "concat (map (\<lambda>p. case usecase_GetAll sample_usecase (int p) 1 two_users of Inl e \<Rightarrow> [] | Inr (us, n) \<Rightarrow> us)
     [1..<Suc 2]) = [ToResponse sample_user, ToResponse second_user]"
proof -
  have l: "mem_listing (as_repo two_users) = [sample_user, second_user]"
    by (simp add: two_users_def two_users_ok)
  from pages_tile_listing [OF mem_repository cached_app_simps(1) [OF sample_app], of 1 two_users 2]
  show ?thesis by (simp add: l)
qed

section \<open>The cache\<close>

text \<open>A cached read in a coherent state, with the database up.\<close>

lemma coherent_read:
  assumes repo: "reliable_user_repository repo users listed" and R: "redis_server R strs lsts"
    and app: "cached_app uc repo R" and L: "codec_ok L"
    and coh: "cache_coherent (lib_dec L) (users (as_repo s)) (strs (as_cache s))"
  shows "as_repo (fst (usecase_GetByID L uc i s)) = as_repo s \<and>
    snd (usecase_GetByID L uc i s) =
      (case users (as_repo s) i of None \<Rightarrow> Inl ErrNotFound | Some u \<Rightarrow> Inr (Some (ToResponse u)))"
proof -
  note r0 = reliable_user_repository.axioms(1) [OF repo]
  from redis_server.get_by_id_cases [OF R r0 app L coh prod.collapse [symmetric]]
  have c: "as_repo (fst (usecase_GetByID L uc i s)) = as_repo s"
    "(\<exists>u. users (as_repo s) i = Some u \<and> snd (usecase_GetByID L uc i s) = Inr (Some (ToResponse u))) \<or>
     (\<exists>e. snd (usecase_GetByID L uc i s) = Inl e \<and> repo_FindByID repo (as_repo s) i = Inl e)"
    by auto
  show ?thesis
  proof (cases "users (as_repo s) i")
    case None
    with c obtain e where e: "snd (usecase_GetByID L uc i s) = Inl e" "repo_FindByID repo (as_repo s) i = Inl e"
      by auto
    with reliable_user_repository.repo_id_up [OF repo] have "e = ErrNotFound" by blast
    with e None c(1) show ?thesis by simp
  next
    case (Some u)
    have "repo_FindByID repo (as_repo s) i \<noteq> Inl e" for e
      using reliable_user_repository.repo_id_up [OF repo, of "as_repo s" i e]
        user_repository.repo_id_none [OF r0, of "as_repo s" i] Some by auto
    with c Some show ?thesis by auto
  qed
qed

text \<open>
  Starting from an empty cache, after any sequence of registrations, cached reads, updates and
  removals, with entries expiring at any time, and a cache server that does not fail: a cached
  read changes no user and returns exactly what the table holds, the user if there is one and
  \<open>ErrNotFound\<close> if not.
\<close>

theorem cached_reads_are_current:
  assumes repo: "reliable_user_repository repo users listed" and R: "reliable_redis_server R strs lsts"
    and app: "cached_app uc repo R" and L: "codec_ok L"
    and start: "strs (as_cache s0) = Map.empty" and steps: "(user_step L uc strs)\<^sup>*\<^sup>* s0 s"
  shows "as_repo (fst (usecase_GetByID L uc i s)) = as_repo s \<and>
    snd (usecase_GetByID L uc i s) =
      (case users (as_repo s) i of None \<Rightarrow> Inl ErrNotFound | Some u \<Rightarrow> Inr (Some (ToResponse u)))"
  by (rule coherent_read [OF repo reliable_redis_server.axioms(1) [OF R] app L])
    (use reliable_redis_server.user_steps_coherent [OF R reliable_user_repository.axioms(1) [OF repo] app L steps]
      start in \<open>simp add: coherent_empty\<close>)

definition rename_request :: update_user_request where
  "rename_request = \<lparr>uur_Name = ''Augusta'', uur_Email = []\<rparr>"

definition renamed_state :: "(user list, mem_server, nat) app_state" where
  "renamed_state =
     fst (usecase_Update sample_usecase ''id1'' rename_request 20
       (fst (usecase_GetByID sample_libs sample_usecase ''id1'' sample_registered)))"

theorem cached_reads_are_current_witness:
  "map_sum id (map_option ur_Name) (snd (usecase_GetByID sample_libs sample_usecase ''id1'' renamed_state)) =
     Inr (Some ''Augusta'')"
proof -
  have "user_step sample_libs sample_usecase mrs_strs sample_registered
      (fst (usecase_GetByID sample_libs sample_usecase ''id1'' sample_registered))"
    by (rule user_step.get) (rule prod.collapse [symmetric])
  moreover have "user_step sample_libs sample_usecase mrs_strs
      (fst (usecase_GetByID sample_libs sample_usecase ''id1'' sample_registered)) renamed_state"
    unfolding renamed_state_def by (rule user_step.update) (rule prod.collapse [symmetric])
  ultimately have steps: "(user_step sample_libs sample_usecase mrs_strs)\<^sup>*\<^sup>* sample_registered renamed_state"
    by (meson converse_rtranclp_into_rtranclp r_into_rtranclp)
  have "map_option user_Name (mem_user_rows (as_repo renamed_state) ''id1'') = Some ''Augusta''" by code_simp
  then obtain u where "mem_user_rows (as_repo renamed_state) ''id1'' = Some u" "user_Name u = ''Augusta''"
    by auto
  moreover have "mrs_strs (as_cache sample_registered) = Map.empty"
    by (simp add: sample_registered_def mem_server_empty_def)
  note cached_reads_are_current [OF mem_repository mem_redis.reliable_redis_server_axioms sample_app
      sample_codec this steps, of "''id1''"]
  ultimately show ?thesis by simp
qed

text \<open>
  A cached read that overlaps an update leaves the old user in the cache: when the read has
  missed the cache and fetched the user, and the update then runs to its end before the read
  stores its result, the next cached reads return the user as it was before the update, although
  the update has returned and the table has the new one.
\<close>

theorem overlapping_read_caches_old_user:
  assumes repo: "reliable_user_repository repo users listed" and R: "reliable_redis_server R strs lsts"
    and app: "cached_app uc repo R" and L: "codec_ok L" and enc: "lib_enc L (ToResponse old) = Inr v"
    and fetched: "fetch_user uc i (as_repo s) = (as_repo s, Inr (Some (ToResponse old)))"
    and update: "usecase_Update uc i req now s = (s1, Inr new)"
    and store: "s2 = s1\<lparr>as_cache := fst (SetJSON (lib_enc L) (uu_cache uc) (user_cache_key i)
      (ToResponse old) (10 * minute) (as_cache s1))\<rparr>"
  shows "snd (usecase_GetByID L uc i s2) = Inr (Some (ToResponse old)) \<and>
    (\<exists>u. users (as_repo s2) i = Some u \<and> ToResponse u = new)"
proof -
  note r0 = reliable_user_repository.axioms(1) [OF repo]
  note R0 = reliable_redis_server.axioms(1) [OF R]
  note c = cached_app_simps [OF app]
  obtain d' where set: "ro_Set R (as_cache s1) (user_cache_key i) v (10 * minute) = (d', None)"
    using reliable_redis_server.set_up [OF R] by blast
  then have "SetJSON (lib_enc L) (uu_cache uc) (user_cache_key i) (ToResponse old) (10 * minute) (as_cache s1) =
      (d', None)"
    using c enc by (simp add: SetJSON_def)
  with store have s2: "s2 = s1\<lparr>as_cache := d'\<rparr>" by simp
  have "strs d' (user_cache_key i) = Some v"
    using redis_server.set_ok [OF R0 set] by simp
  then have "GetJSON (lib_dec L) (uu_cache uc) (user_cache_key i) d' = Inr (Some (ToResponse old))"
    using reliable_redis_server.cached_entry_found [OF R app L _ enc] by blast
  then have "snd (usecase_GetByID L uc i s2) = Inr (Some (ToResponse old))"
    by (simp add: usecase_GetByID_def s2 Remember_hit [where s = "(d', as_repo s1)"])
  moreover from user_repository.update_cases [OF r0 update c(1)]
  obtain w where "users (as_repo s1) = (users (as_repo s))(i \<mapsto> w)" "Inr new = (Inr (ToResponse w) :: err + _)"
    by auto
  then have "\<exists>u. users (as_repo s2) i = Some u \<and> ToResponse u = new" by (simp add: s2)
  ultimately show ?thesis ..
qed

theorem overlapping_read_caches_old_user_witness:
  "\<exists>s2. snd (usecase_GetByID sample_libs sample_usecase ''id1'' s2) = Inr (Some (ToResponse sample_user)) \<and>
     map_option user_Name (mem_user_rows (as_repo s2) ''id1'') = Some ''Augusta''"
proof -
  let ?s1 = "fst (usecase_Update sample_usecase ''id1'' rename_request 20 sample_registered)"
  let ?s2 = "?s1\<lparr>as_cache := fst (SetJSON (lib_enc sample_libs) (uu_cache sample_usecase) (user_cache_key ''id1'')
      (ToResponse sample_user) (10 * minute) (as_cache ?s1))\<rparr>"
  have new: "case snd (usecase_Update sample_usecase ''id1'' rename_request 20 sample_registered) of
      Inl e \<Rightarrow> False | Inr r \<Rightarrow> ur_Name r = ''Augusta''" by code_simp
  then obtain r where r: "snd (usecase_Update sample_usecase ''id1'' rename_request 20 sample_registered) = Inr r"
    "ur_Name r = ''Augusta''" by (auto split: sum.splits)
  then have up: "usecase_Update sample_usecase ''id1'' rename_request 20 sample_registered = (?s1, Inr r)"
    by (metis prod.collapse)
  have fetch: "fetch_user sample_usecase ''id1'' (as_repo sample_registered) =
      (as_repo sample_registered, Inr (Some (ToResponse sample_user)))" by code_simp
  obtain v where enc: "lib_enc sample_libs (ToResponse sample_user) = Inr v"
    by (simp add: sample_libs_def enc_user_response_def)
  from overlapping_read_caches_old_user [OF mem_repository mem_redis.reliable_redis_server_axioms sample_app
      sample_codec enc fetch up refl] r(2)
  show ?thesis by (intro exI [of _ ?s2]) auto
qed

text \<open>
  An update that overlaps the removal of its user brings the user back: when \<open>Update\<close> has
  read the user, \<open>Delete\<close> then removes it, and \<open>Update\<close> goes on to write, the write succeeds
  (GORM's \<open>Save\<close> inserts a missing row), both calls report success, and the user is in the table.
\<close>

theorem overlapping_update_revives_user:
  assumes repo: "reliable_user_repository repo users listed" and uc: "uu_userRepo uc = repo"
    and prepared: "update_prepare uc i req now (as_repo s) = Inr v"
    and deleted: "usecase_Delete uc i s = (s1, None)"
  shows "\<exists>s2. update_commit uc i v s1 = (s2, Inr (ToResponse v)) \<and> users (as_repo s1) i = None \<and>
    users (as_repo s2) i = Some v"
proof -
  note r0 = reliable_user_repository.axioms(1) [OF repo]
  from user_repository.delete_cases [OF r0 deleted uc]
  have s1: "users (as_repo s1) = (users (as_repo s))(i := None)" by auto
  have id: "user_ID v = i" using user_repository.update_prepare_ok [OF r0 prepared uc] by blast
  have "email_index ((users (as_repo s))(i \<mapsto> v))"
    using reliable_user_repository.repo_email_up [OF repo]
    by (intro user_repository.update_prepare_email [OF r0 prepared uc]) blast
  then have "email_index ((users (as_repo s1))(user_ID v \<mapsto> v))" by (simp add: s1 id)
  then obtain r' where up: "repo_Update repo (as_repo s1) v = (r', None)"
    using reliable_user_repository.repo_update_up [OF repo] by blast
  have "users r' = (users (as_repo s1))(i \<mapsto> v)"
    using user_repository.repo_update_ok [OF r0 up] by (simp add: id)
  moreover have "update_commit uc i v s1 = (s1\<lparr>as_repo := r',
      as_cache := fst (Invalidate (uu_cache uc) [user_cache_key i] (as_cache s1))\<rparr>, Inr (ToResponse v))"
    using up uc by (simp add: update_commit_def)
  ultimately show ?thesis by (simp add: s1)
qed

theorem overlapping_update_revives_user_witness:
  "\<exists>v s2. update_commit sample_usecase ''id1'' v (fst (usecase_Delete sample_usecase ''id1'' sample_registered)) =
     (s2, Inr (ToResponse v)) \<and> mem_user_rows (as_repo s2) ''id1'' = Some v"
proof -
  have "case update_prepare sample_usecase ''id1'' rename_request 20 (as_repo sample_registered) of
      Inl e \<Rightarrow> False | Inr v \<Rightarrow> True" by code_simp
  then obtain v where v: "update_prepare sample_usecase ''id1'' rename_request 20 (as_repo sample_registered) = Inr v"
    by (auto split: sum.splits)
  have "snd (usecase_Delete sample_usecase ''id1'' sample_registered) = None" by code_simp
  then have "usecase_Delete sample_usecase ''id1'' sample_registered =
      (fst (usecase_Delete sample_usecase ''id1'' sample_registered), None)" by (metis prod.collapse)
  from overlapping_update_revives_user [OF mem_repository cached_app_simps(1) [OF sample_app] v this]
  show ?thesis by blast
qed

end
