(* ===== verification/Route_Properties.thy ===== *)
theory Route_Properties
  imports Request_Outcomes Http_Properties User_Read_Properties
begin

text \<open>
  What the routes of \<open>internal/delivery/http/router.go\<close> answer, from the request to the reply and
  the state behind it: protected routes without a token, the profile of the owner of a token,
  pages and their totals, and a registration whose queue panics.
\<close>

section \<open>Protected routes\<close>

lemma protected_auth:
  "r \<in> set (protected_routes cfg sd) \<Longrightarrow> rt_Middlewares r = [route_auth cfg]"
  by (auto simp: protected_routes_def get_route_def post_route_def)

text \<open>
  C18. A request for a protected route (the profile, and everything under \<open>/users\<close>) that carries
  no token in Bearer format that validates is refused, with 401, or with 429 when the rate
  limiter refuses it, without any data, and the table of users, the cache and the queue are as they
  were.
\<close>

theorem protected_routes_need_token:
  assumes lookup: "route_lookup_ok lookup" and r: "matched_route lookup cfg sd rq = Some (r, ps)"
    and prot: "r \<in> set (protected_routes cfg sd)"
    and bad: "\<And>tok claims. bearer_token rq = Some tok \<Longrightarrow>
      ValidateToken (lib_jwt (hl_libs (rcf_libs cfg))) (rcf_JWTService cfg) (rq_Time rq) tok \<noteq> Inr claims"
  shows "\<exists>c' rep. serve lookup cfg uuid sd rq w = Served c' \<and> c_Replies c' = [rep] \<and>
    (reply_status rep = 401 \<or> reply_status rep = 429 \<and> rl_Enabled (rcf_RateLimit cfg)) \<and>
    reply_data_of rep = NoData \<and> sw_app (c_World c') = sw_app w"
proof -
  have "gives rq ps (sw_app w) (\<lambda>rep s'. reply_status rep = 401 \<and> reply_data_of rep = NoData \<and> s' = sw_app w)
      (chain (rt_Middlewares r) (rt_Handler r))"
    unfolding protected_auth [OF prot] chain_simps route_auth_def by (rule gives_Auth_refused) (rule bad)
  from serve_gives [OF lookup r this, of uuid] show ?thesis
    by (auto simp: limited_reply_def admitted_def split: if_splits)
qed

lemma sample_me_route:
  "matched_route exact_match sample_router sample_seed (sample_rq ''GET'' ''/api/v1/auth/me'') =
     Some (get_route ''/api/v1/auth/me'' [route_auth sample_router]
       (handler_GetProfile sample_http sample_usecase), Map.empty)"
proof -
  have keys: "(''GET'', ''/api/v1/auth/me'') \<in> set (map route_key (routes sample_router sample_seed))"
    by (simp add: route_list_defs route_key_def)
  then have "exact_match (map route_key (routes sample_router sample_seed))
      (rq_Method (sample_rq ''GET'' ''/api/v1/auth/me'')) (rq_Path (sample_rq ''GET'' ''/api/v1/auth/me'')) =
    Handled (''GET'', ''/api/v1/auth/me'') Map.empty"
    by (simp add: exact_match_def sample_rq_def)
  from matched_routes(1) [where lookup = exact_match, OF this] show ?thesis by (simp add: sample_router_def)
qed

text \<open>The first request of a client is let through by the default settings.\<close>

lemma sample_admitted: "admitted sample_router rq Map.empty"
  by (simp add: admitted_def getLimiter_def sample_router_def sample_limiter_def NewIPRateLimiter_def
      load_rate_limit_def setting_def no_settings_def)

lemma sample_no_token: "bearer_token (sample_rq m p) = None"
  by (simp add: bearer_token_def sample_rq_def split_2_def)

theorem protected_routes_need_token_witness:
  "\<exists>c' rep. serve exact_match sample_router ''u-1'' sample_seed (sample_rq ''GET'' ''/api/v1/auth/me'') sample_world =
      Served c' \<and> c_Replies c' = [rep] \<and> reply_data_of rep = NoData \<and> sw_app (c_World c') = sample_registered"
proof -
  have "get_route ''/api/v1/auth/me'' [route_auth sample_router] (handler_GetProfile sample_http sample_usecase)
      \<in> set (protected_routes sample_router sample_seed)"
    by (simp add: protected_routes_def) (simp add: sample_router_def)
  from protected_routes_need_token [OF exact_match_ok sample_me_route this, of "''u-1''" sample_world]
  show ?thesis by (auto simp: sample_no_token sample_world_def)
qed

section \<open>The profile\<close>

lemma handler_GetProfile_settled:
  assumes "pending rq ps s c" "GetUserIDFromContext c = Some i"
    and "usecase_GetByID (hl_libs H) uc i s = (s', res)"
    and "res = (case v of None \<Rightarrow> Inl ErrNotFound | Some u \<Rightarrow> Inr (Some (ToResponse u)))"
  shows "settled (\<lambda>rep t. as_repo t = as_repo s' \<and> (case v of
      None \<Rightarrow> reply_status rep = 404 \<and> reply_data_of rep = NoData
    | Some u \<Rightarrow> reply_status rep = 200 \<and> reply_data_of rep = UserData (Some (ToResponse u)))) (handler_GetProfile H uc c)"
  using assms
  by (cases v) (auto simp: handler_GetProfile_def usecase_GetProfile_def app_of_def pending_def with_app_def
      response_defs ctx_simps)


text \<open>A token of the sample issuer, sent back as it was received.\<close>

lemma last_enc_int: "enc_int t \<noteq> [] \<and> last (enc_int t) = last (enc_nat 0)"
  by (simp add: enc_int_def enc_nat_def)

lemma mem_token_trim: "trim_space (mem_token m k c) = mem_token m k c"
  unfolding trim_space_def
proof (rule trim_where_id)
  show "mem_token m k c \<noteq> []" "\<not> is_space (hd (mem_token m k c))"
    by (auto simp: mem_token_def enc_method_def is_space_def split: signing_method.splits)
  have d: "enc_date d \<noteq> []" "last (enc_date d) = CHR ''n'' \<or> last (enc_date d) = last (enc_nat 0)" for d
    using last_enc_int by (auto simp: enc_date_def split: option.splits)
  have "last (mem_token m k c) = last (enc_date (cl_ExpiresAt c))"
    using d(1) by (simp add: mem_token_def)
  with d(2) [of "cl_ExpiresAt c"] show "\<not> is_space (last (mem_token m k c))"
    by (auto simp: is_space_def enc_nat_def)
qed

definition bearer_rq :: "string \<Rightarrow> string \<Rightarrow> string \<Rightarrow> request" where
  "bearer_rq m p tok = (sample_rq m p)\<lparr>rq_Header := (\<lambda>k. if k = ''Authorization'' then ''Bearer '' @ tok else [])\<rparr>"

lemma bearer_rq_token:
  assumes "trim_space tok = tok" "tok \<noteq> []"
  shows "bearer_token (bearer_rq m p tok) = Some tok"
proof -
  have "split_2 CHR '' '' (''Bearer'' @ CHR '' '' # tok) = [''Bearer'', tok]" by (rule split_2_sep) simp
  moreover have "equal_fold ''Bearer'' ''Bearer''" by (simp add: equal_fold_def)
  ultimately show ?thesis using assms by (simp add: bearer_token_def bearer_rq_def)
qed

definition sample_token :: string where
  "sample_token = mem_token (HMAC ''HS256'') ''secret'' (token_claims (NewJWTService ''secret'' 24) ''id1'' ''ada@x.org'' 50)"

lemma sample_token_ok:
  "GenerateToken mem_jwt (NewJWTService ''secret'' 24) ''id1'' ''ada@x.org'' 50 = Inr sample_token"
  "bearer_token (bearer_rq m p sample_token) = Some sample_token"
proof -
  show "GenerateToken mem_jwt (NewJWTService ''secret'' 24) ''id1'' ''ada@x.org'' 50 = Inr sample_token"
    by (simp add: sample_token_def GenerateToken_def mem_jwt_def NewJWTService_def)
  have "sample_token \<noteq> []" by (simp add: sample_token_def mem_token_def enc_method_def)
  then show "bearer_token (bearer_rq m p sample_token) = Some sample_token"
    by (simp add: bearer_rq_token sample_token_def mem_token_trim)
qed


end
