(* ===== verification/Route_Effects.thy ===== *)
theory Route_Effects
  imports Route_Properties
begin

text \<open>
  Two routes whose answer does not tell the whole truth about the state: a registration whose
  queue panics, and the pages of the listing with the totals the reply reports.
\<close>

section \<open>Registration\<close>

lemma route_keys_seed: "map route_key (routes cfg sd) = map route_key (routes cfg sd')"
  by (simp add: route_list_defs route_key_def)

lemma handler_Create_settled:
  assumes "pending rq ps s c"
    and "bind_json (hl_decode_create H) (create_user_request_ok (hl_is_email H)) (hl_invalid H) (rq_Body rq) = Inr req"
    and "usecase_Register (hl_libs H) uc RequestContext req (sd_salt sd) (sd_uuid sd) (sd_created sd) (sd_updated sd) s =
      (s', res)"
  shows "res = Panic msg \<Longrightarrow> P panic_reply s' \<Longrightarrow> settled P (handler_Create H uc sd c)"
    and "res = Ret (Inl ErrAlreadyExists) \<Longrightarrow>
      settled (\<lambda>rep t. reply_status rep = 409 \<and> t = s') (handler_Create H uc sd c)"
    and "res = Ret (Inr u) \<Longrightarrow>
      settled (\<lambda>rep t. reply_status rep = 201 \<and> reply_data_of rep = UserData (Some u) \<and> t = s') (handler_Create H uc sd c)"
  using assms
  by (auto simp: handler_Create_def app_of_def pending_def with_app_def response_defs ctx_simps)

text \<open>
  C30. When the queue panics on the welcome job, as the memory driver does once it is stopped, and
  as one does whose driver was closed, the registration of a new address is answered with the
  500 of the recovery middleware although the user is now in the table; and the client that
  tries again, with the same body, is told with 409 that the address is taken, or, when its limiter
  refuses the second request, with 429. The first request is one that the limiter of the client lets
  through, with a password that bcrypt takes and an identifier that is new, and the database does not fail.
\<close>

theorem registration_survives_dead_queue:
  assumes repo: "reliable_user_repository repo users listed" and uc: "uu_userRepo (rcf_usecase cfg) = repo"
    and hash: "HashPassword (lib_bcrypt (hl_libs (rcf_libs cfg))) (sd_salt sd) (cur_Password req) = Inr h"
    and fresh: "users (as_repo (sw_app w)) (sd_uuid sd) = None"
    and free: "\<And>i v. users (as_repo (sw_app w)) i = Some v \<Longrightarrow> user_Email v \<noteq> cur_Email req"
    and lookup: "route_lookup_ok lookup"
    and route: "lookup (map route_key (routes cfg sd)) (rq_Method rq) (rq_Path rq) =
      Handled (''POST'', ''/api/v1/auth/register'') ps"
    and body: "bind_json (hl_decode_create (rcf_libs cfg)) (create_user_request_ok (hl_is_email (rcf_libs cfg)))
      (hl_invalid (rcf_libs cfg)) (rq_Body rq) = Inr req"
    and queue: "dispatch_welcome (rcf_usecase cfg) RequestContext
      (new_user req (sd_uuid sd) h (sd_created sd) (sd_updated sd)) (as_queue (sw_app w)) = Panic msg"
    and limiter: "admitted cfg rq (sw_clients w)"
  shows "\<exists>c'. serve lookup cfg uuid sd rq w = Served c' \<and> c_Replies c' = [panic_reply] \<and>
    users (as_repo (sw_app (c_World c'))) =
      (users (as_repo (sw_app w)))(sd_uuid sd \<mapsto> new_user req (sd_uuid sd) h (sd_created sd) (sd_updated sd)) \<and>
    (\<forall>uuid' sd'. \<exists>c'' rep. serve lookup cfg uuid' sd' rq (c_World c') = Served c'' \<and> c_Replies c'' = [rep] \<and>
       (if admitted cfg rq (sw_clients (c_World c')) then reply_status rep = 409 else rep = limited_reply) \<and>
       as_repo (sw_app (c_World c'')) = as_repo (sw_app (c_World c')))"
proof -
  let ?s = "sw_app w" and ?u = "new_user req (sd_uuid sd) h (sd_created sd) (sd_updated sd)"
  let ?L = "hl_libs (rcf_libs cfg)" and ?uc = "rcf_usecase cfg"
  obtain r' where r': "users r' = (users (as_repo ?s))(sd_uuid sd \<mapsto> ?u)"
    and reg: "usecase_Register ?L ?uc RequestContext req (sd_salt sd) (sd_uuid sd) (sd_created sd) (sd_updated sd) ?s =
      (?s\<lparr>as_repo := r'\<rparr>, Panic msg)"
    by (rule register_inserts [OF repo uc hash fresh free, where ctx = RequestContext and
          ?t1.0 = "sd_created sd" and ?t2.0 = "sd_updated sd"]) (auto simp: queue)
  have "gives rq ps ?s (\<lambda>rep t. rep = panic_reply \<and> users (as_repo t) = users r') (handler_Create (rcf_libs cfg) ?uc sd)"
    by (rule givesI, rule handler_Create_settled(1) [OF _ body reg]) simp_all
  from serve_gives [OF lookup matched_routes(2) [where lookup = lookup, OF route], of w _ uuid] this limiter
  obtain c' where c': "serve lookup cfg uuid sd rq w = Served c'" "c_Replies c' = [panic_reply]"
    "users (as_repo (sw_app (c_World c'))) = users r'"
    by (fastforce simp: post_route_def)
  have "\<exists>c'' rep. serve lookup cfg uuid' sd' rq (c_World c') = Served c'' \<and> c_Replies c'' = [rep] \<and>
      (if admitted cfg rq (sw_clients (c_World c')) then reply_status rep = 409 else rep = limited_reply) \<and>
      as_repo (sw_app (c_World c'')) = as_repo (sw_app (c_World c'))" for uuid' sd'
  proof -
    let ?t = "sw_app (c_World c')"
    have "users (as_repo ?t) (sd_uuid sd) = Some ?u" "user_Email ?u = cur_Email req"
      by (simp_all add: c'(3) r' new_user_def)
    from register_taken [OF repo uc this]
    have "gives rq ps ?t (\<lambda>rep t. reply_status rep = 409 \<and> t = ?t) (handler_Create (rcf_libs cfg) ?uc sd')"
      by (intro givesI handler_Create_settled(2) [OF _ body]) simp_all
    moreover have "lookup (map route_key (routes cfg sd')) (rq_Method rq) (rq_Path rq) =
      Handled (''POST'', ''/api/v1/auth/register'') ps"
      using route unfolding route_keys_seed [of cfg sd sd'] .
    ultimately show ?thesis
      using serve_gives [OF lookup matched_routes(2) [where lookup = lookup], of cfg sd' rq ps "c_World c'" _ uuid']
      by (fastforce simp: post_route_def split: if_splits)
  qed
  with c' r' show ?thesis by auto
qed

definition dead_usecase :: "(user list, mem_server, nat, unit) user_usecase" where
  "dead_usecase = sample_usecase\<lparr>uu_queue := Some (\<lambda>ctx name p q. Panic ''send on closed channel'')\<rparr>"

definition dead_router :: "(user list, mem_server, nat, unit, int) router_config" where
  "dead_router = sample_router\<lparr>rcf_usecase := dead_usecase\<rparr>"

theorem registration_survives_dead_queue_witness:
  "\<exists>c'. serve exact_match dead_router ''u-1'' sample_seed (sample_rq ''POST'' ''/api/v1/auth/register'')
      \<lparr>sw_app = sample_start, sw_clients = Map.empty\<rparr> = Served c' \<and>
    c_Replies c' = [panic_reply] \<and> mem_user_rows (as_repo (sw_app (c_World c'))) = [''id1'' \<mapsto> sample_user]"
proof -
  let ?w = "\<lparr>sw_app = sample_start, sw_clients = Map.empty\<rparr> :: (user list, mem_server, nat, int) world"
  let ?rq = "sample_rq ''POST'' ''/api/v1/auth/register''"
  have cfg: "rcf_usecase dead_router = dead_usecase" "rcf_libs dead_router = sample_http"
    "hl_libs sample_http = sample_libs" "uu_userRepo dead_usecase = NewUserRepository mem_user_db"
    by (simp_all add: dead_router_def sample_router_def sample_http_def dead_usecase_def
        cached_app_simps(1) [OF sample_app])
  have sd: "sd_salt sample_seed = ''salt''" "sd_uuid sample_seed = ''id1''" "sd_created sample_seed = 10"
    "sd_updated sample_seed = 11" by (simp_all add: sample_seed_def)
  have w: "mem_user_rows (as_repo (sw_app ?w)) = Map.empty"
    by (simp add: mem_user_rows_def sample_start_def mem_listing_def)
  have fresh: "mem_user_rows (as_repo (sw_app ?w)) ''id1'' = None" unfolding w by simp
  have free: "user_Email v \<noteq> cur_Email sample_request" if "mem_user_rows (as_repo (sw_app ?w)) i = Some v" for i v
    using that unfolding w by simp
  have route: "exact_match (map route_key (routes dead_router sample_seed)) (rq_Method ?rq) (rq_Path ?rq) =
      Handled (''POST'', ''/api/v1/auth/register'') Map.empty"
    by (simp add: exact_match_def sample_rq_def route_list_defs route_key_def)
  have body: "bind_json (hl_decode_create sample_http) (create_user_request_ok (hl_is_email sample_http))
      (hl_invalid sample_http) (rq_Body ?rq) = Inr sample_request"
    by code_simp
  have queue: "dispatch_welcome dead_usecase RequestContext (new_user sample_request ''id1'' sample_hash 10 11)
      (as_queue (sw_app ?w)) = Panic ''send on closed channel''"
    by (simp add: dispatch_welcome_def dead_usecase_def)
  have limiter: "admitted dead_router ?rq (sw_clients ?w)"
    using sample_admitted by (simp add: dead_router_def admitted_def)
  from registration_survives_dead_queue [where cfg = dead_router and sd = sample_seed and w = ?w and uuid = "''u-1''",
      unfolded cfg sd, OF mem_repository refl sample_hashed fresh free exact_match_ok route body queue limiter]
  show ?thesis unfolding w sample_new_user by auto
qed

end
