(* ===== verification/Route_Reports.thy ===== *)
theory Route_Reports
  imports Route_Effects
begin

text \<open>
  What a client can tell from the replies: the pages of the listing with the totals they report,
  and a removal by whoever has a token.
\<close>

section \<open>The listing\<close>

lemma handler_GetAll_settled:
  assumes "pending rq ps s c"
    and "usecase_GetAll uc (go_atoi (ctx_DefaultQuery ''page'' ''1'' c)) (go_atoi (ctx_DefaultQuery ''page_size'' ''10'' c)) s =
      Inr (us, n)"
  shows "settled (\<lambda>rep t. t = s \<and> reply_status rep = 200 \<and> reply_data_of rep =
      PageData us
        \<lparr>pm_CurrentPage = go_atoi (ctx_DefaultQuery ''page'' ''1'' c),
         pm_PageSize = go_atoi (ctx_DefaultQuery ''page_size'' ''10'' c), pm_TotalItems = n,
         pm_TotalPages = total_pages n (go_atoi (ctx_DefaultQuery ''page_size'' ''10'' c))\<rparr>) (handler_GetAll uc c)"
  using assms by (simp add: handler_GetAll_def Let_def app_of_def pending_def response_defs ctx_simps)

text \<open>The numbers of the query, as the handler reads them.\<close>

definition query_int :: "string \<Rightarrow> string \<Rightarrow> request \<Rightarrow> int" where
  "query_int k dflt rq = go_atoi (case rq_Query rq k of None \<Rightarrow> dflt | Some v \<Rightarrow> v)"

lemma query_int_pending:
  "pending rq ps s c \<Longrightarrow> go_atoi (ctx_DefaultQuery k dflt c) = query_int k dflt rq"
  by (simp add: ctx_DefaultQuery_def query_int_def pending_def)

lemma div_bounds:
  fixes n sz :: int
  assumes "0 < sz"
  shows "(n + sz - 1) div sz * sz < n + sz" "n \<le> (n + sz - 1) div sz * sz"
  using div_mult_mod_eq [of "n + sz - 1" sz] pos_mod_bound [OF assms, of "n + sz - 1"]
    pos_mod_sign [OF assms, of "n + sz - 1"] by linarith+

text \<open>A page is empty exactly when it is past the total of pages.\<close>

lemma window_nonempty_iff:
  assumes sz: "1 \<le> sz" and p: "1 \<le> p" and bound: "int (length xs) + sz < 2 ^ 63"
  shows "window sz ((p - 1) * sz) xs \<noteq> [] \<longleftrightarrow> p \<le> total_pages (int (length xs)) sz"
proof -
  let ?n = "int (length xs)" and ?q = "(int (length xs) + sz - 1) div sz"
  have q: "total_pages ?n sz = ?q" using sz bound by (intro total_pages_exact) simp_all
  have "window sz ((p - 1) * sz) xs \<noteq> [] \<longleftrightarrow> (p - 1) * sz < ?n"
    using sz p by (auto simp: window_def nat_less_iff not_le)
  also have "\<dots> \<longleftrightarrow> p \<le> ?q"
  proof
    assume "(p - 1) * sz < ?n"
    also have "?n \<le> ?q * sz" using div_bounds(2) [of sz ?n] sz by simp
    finally have "p - 1 < ?q" using sz by (simp add: mult_less_cancel_right)
    then show "p \<le> ?q" by simp
  next
    assume "p \<le> ?q"
    then have "(p - 1) * sz \<le> (?q - 1) * sz" using sz by (intro mult_right_mono) simp_all
    also have "\<dots> = ?q * sz - sz" by (simp add: algebra_simps)
    also have "\<dots> < ?n" using div_bounds(1) [of sz ?n] sz by simp
    finally show "(p - 1) * sz < ?n" .
  qed
  finally show ?thesis unfolding q .
qed

lemma page_totals:
  assumes us: "us = map f (window (clamp_size sz) ((p - 1) * clamp_size sz) xs)" and n: "n = int (length xs)"
    and sz: "1 \<le> sz" and p: "1 \<le> p" and bound: "n + sz < 2 ^ 63"
  shows "(sz \<le> 100 \<longrightarrow> (us \<noteq> [] \<longleftrightarrow> p \<le> total_pages n sz)) \<and>
    (100 < sz \<longrightarrow> 10 < length xs \<longrightarrow> n \<le> sz \<longrightarrow>
       total_pages n sz = 1 \<and> (p = 1 \<longrightarrow> us = map f (take 10 xs)))"
proof (intro conjI impI)
  assume "sz \<le> 100"
  then have "clamp_size sz = sz" using sz by (simp add: clamp_size_def)
  with us have "us \<noteq> [] \<longleftrightarrow> window sz ((p - 1) * sz) xs \<noteq> []" by simp
  also have "\<dots> \<longleftrightarrow> p \<le> total_pages n sz"
    using window_nonempty_iff [OF sz p] bound by (simp add: n)
  finally show "us \<noteq> [] \<longleftrightarrow> p \<le> total_pages n sz" .
next
  assume big: "100 < sz" "10 < length xs" "n \<le> sz"
  have "(n + sz - 1) div sz = 1"
    using big by (intro int_div_pos_eq [where r = "n - 1"]) (auto simp: n)
  then show "total_pages n sz = 1" using total_pages_exact [of n sz] sz bound by (simp add: n)
  show "us = map f (take 10 xs)" if "p = 1"
    using us that big by (simp add: clamp_size_def window_def)
qed

text \<open>
  C29. \<open>GET /users\<close> with a valid token, let through by the limiter of the client, on a database that does
  not fail: it answers with 200 and page \<open>p\<close> of the listing, cut into pages of the size that the use case
  allows (\<open>clamp_size\<close>: the size asked for, from 1 to 100, and 10 for anything larger), changes nothing,
  and reports the number of users. For a size up to 100 the total of pages is right: a page holds a user
  exactly when its number is not past it. For a size over 100 it is not: the page has 10 users at most,
  but the total is computed from the size in the query, so when the query asks for at least as many as
  there are, and there are more than ten, the reply reports a single page, which has the first ten, and no
  page within the reported total has the others. Page and size are at least 1, and small enough not to
  overflow the arithmetic.
\<close>

theorem listing_totals:
  fixes cfg :: "('r, 'd, 'q, 'w, 'l) router_config"
  assumes repo: "reliable_user_repository repo users listed" and uc: "uu_userRepo (rcf_usecase cfg) = repo"
    and lookup: "route_lookup_ok lookup"
    and route: "lookup (map route_key (routes cfg sd)) (rq_Method rq) (rq_Path rq) = Handled (''GET'', ''/api/v1/users'') ps"
    and token: "bearer_token rq = Some tok"
      "ValidateToken (lib_jwt (hl_libs (rcf_libs cfg))) (rcf_JWTService cfg) (rq_Time rq) tok = Inr claims"
    and page: "query_int ''page'' ''1'' rq = p" "1 \<le> p" "p \<le> 2 ^ 56"
    and size: "query_int ''page_size'' ''10'' rq = sz" "1 \<le> sz" "int (length (listed (as_repo (sw_app w)))) + sz < 2 ^ 63"
    and limiter: "admitted cfg rq (sw_clients w)"
  shows "\<exists>c' rep us meta. serve lookup cfg uuid sd rq w = Served c' \<and> c_Replies c' = [rep] \<and> reply_status rep = 200 \<and>
    reply_data_of rep = PageData us meta \<and> sw_app (c_World c') = sw_app w \<and>
    us = map ToResponse (window (clamp_size sz) ((p - 1) * clamp_size sz) (listed (as_repo (sw_app w)))) \<and>
    pm_TotalItems meta = int (length (listed (as_repo (sw_app w)))) \<and> (100 < sz \<longrightarrow> length us \<le> 10) \<and>
    (sz \<le> 100 \<longrightarrow> (us \<noteq> [] \<longleftrightarrow> p \<le> pm_TotalPages meta)) \<and>
    (100 < sz \<longrightarrow> 10 < length (listed (as_repo (sw_app w))) \<longrightarrow> int (length (listed (as_repo (sw_app w)))) \<le> sz \<longrightarrow>
       pm_TotalPages meta = 1 \<and> (p = 1 \<longrightarrow> us = map ToResponse (take 10 (listed (as_repo (sw_app w))))))"
proof -
  let ?s = "sw_app w" and ?uc = "rcf_usecase cfg" and ?xs = "listed (as_repo (sw_app w))"
  note r0 = reliable_user_repository.axioms(1) [OF repo]
  obtain vs n where "repo_FindAll repo (as_repo ?s) (clamp_size sz) (page_offset p sz) = Inr (vs, n)"
    using reliable_user_repository.repo_all_up [OF repo] by blast
  then have all: "usecase_GetAll ?uc p sz ?s = Inr (map ToResponse vs, n)"
    using uc by (simp add: usecase_GetAll_def)
  from user_repository.get_all_window [OF r0 all uc]
  have us: "map ToResponse vs = map ToResponse (window (clamp_size sz) ((p - 1) * clamp_size sz) ?xs)"
    and n: "n = int (length ?xs)"
    using page by (simp_all add: page_offset_exact clamp_page_def)
  let ?meta = "\<lparr>pm_CurrentPage = p, pm_PageSize = sz, pm_TotalItems = n, pm_TotalPages = total_pages n sz\<rparr>"
  have "gives rq ps ?s (\<lambda>rep t. t = ?s \<and> reply_status rep = 200 \<and> reply_data_of rep = PageData (map ToResponse vs) ?meta)
      (AuthMiddleware (lib_jwt (hl_libs (rcf_libs cfg))) (rcf_JWTService cfg)
        (handler_GetAll ?uc :: ('r, 'd, 'q, 'l) world handler_func))"
  proof (rule gives_Auth [OF token])
    fix c :: "('r, 'd, 'q, 'l) world gin_context" assume c: "pending rq ps ?s c"
    have q: "go_atoi (ctx_DefaultQuery ''page'' ''1'' c) = p" "go_atoi (ctx_DefaultQuery ''page_size'' ''10'' c) = sz"
      using query_int_pending [OF c] page(1) size(1) by simp_all
    show "settled (\<lambda>rep t. t = ?s \<and> reply_status rep = 200 \<and> reply_data_of rep = PageData (map ToResponse vs) ?meta)
        (handler_GetAll ?uc c)"
      using handler_GetAll_settled [OF c, of ?uc "map ToResponse vs" n] all unfolding q by simp
  qed
  with serve_gives [OF lookup matched_routes(3) [where lookup = lookup, OF route], of w _ uuid] limiter
  obtain c' rep where rep: "serve lookup cfg uuid sd rq w = Served c'" "c_Replies c' = [rep]"
    "sw_app (c_World c') = ?s" "reply_status rep = 200" "reply_data_of rep = PageData (map ToResponse vs) ?meta"
    by (fastforce simp: get_route_def route_auth_def)
  have "length (map ToResponse vs) \<le> 10" if "100 < sz"
    unfolding us using that by (simp add: clamp_size_def window_def)
  with page_totals [OF us n size(2) page(2)] size(3) rep us show ?thesis
    by (intro exI [of _ c'] exI [of _ rep] exI [of _ "map ToResponse vs"] exI [of _ ?meta]) (simp add: n)
qed

definition eleven_users :: "user list" where
  "eleven_users = map (\<lambda>i. sample_user\<lparr>user_ID := replicate i CHR ''i'', user_Email := replicate i CHR ''e''\<rparr>) [0..<11]"

definition eleven_world :: "(user list, mem_server, nat, int) world" where
  "eleven_world = \<lparr>sw_app = sample_registered\<lparr>as_repo := eleven_users\<rparr>, sw_clients = Map.empty\<rparr>"

definition big_page_rq :: request where
  "big_page_rq = (bearer_rq ''GET'' ''/api/v1/users'' sample_token)\<lparr>rq_Query := [''page_size'' \<mapsto> ''200'']\<rparr>"

lemma sample_router_simps:
  "rcf_usecase sample_router = sample_usecase" "rcf_JWTService sample_router = NewJWTService ''secret'' 24"
  "lib_jwt (hl_libs (rcf_libs sample_router)) = mem_jwt"
  by (simp_all add: sample_router_def sample_http_def sample_libs_def)

lemma eleven_admitted: "admitted sample_router rq (sw_clients eleven_world)"
  using sample_admitted by (simp add: eleven_world_def)

lemma sample_token_valid:
  "ValidateToken mem_jwt (NewJWTService ''secret'' 24) 100 sample_token =
     Inr (token_claims (NewJWTService ''secret'' 24) ''id1'' ''ada@x.org'' 50)"
proof -
  have "(100 :: int) < numeric_date (50 + js_expiryHours (NewJWTService ''secret'' 24))" by code_simp
  with ValidateToken_generated [OF mem_jwt_ok sample_token_ok(1), of 100] show ?thesis by simp
qed

lemma bearer_rq_simps:
  "rq_Time (bearer_rq m p tok) = 100" "rq_Method (bearer_rq m p tok) = m" "rq_Path (bearer_rq m p tok) = p"
  by (simp_all add: bearer_rq_def sample_rq_def)

theorem listing_totals_witness:
  "\<exists>c' rep us meta. serve exact_match sample_router ''u-1'' sample_seed big_page_rq eleven_world = Served c' \<and>
     c_Replies c' = [rep] \<and> reply_data_of rep = PageData us meta \<and> pm_TotalPages meta = 1 \<and> length us = 10"
proof -
  have route: "exact_match (map route_key (routes sample_router sample_seed)) (rq_Method big_page_rq) (rq_Path big_page_rq) =
      Handled (''GET'', ''/api/v1/users'') Map.empty"
    by (simp add: exact_match_def big_page_rq_def bearer_rq_simps route_list_defs route_key_def)
  have token: "bearer_token big_page_rq = Some sample_token"
    using sample_token_ok(2) [of "''GET''" "''/api/v1/users''"] by (simp add: bearer_token_def big_page_rq_def)
  have valid: "ValidateToken mem_jwt (NewJWTService ''secret'' 24) (rq_Time big_page_rq) sample_token =
      Inr (token_claims (NewJWTService ''secret'' 24) ''id1'' ''ada@x.org'' 50)"
    by (simp add: big_page_rq_def bearer_rq_simps sample_token_valid)
  have "go_atoi ''1'' = 1" "go_atoi ''200'' = 200" by code_simp+
  then have q: "query_int ''page'' ''1'' big_page_rq = 1" "query_int ''page_size'' ''10'' big_page_rq = 200"
    by (simp_all add: query_int_def big_page_rq_def bearer_rq_def sample_rq_def)
  have "mem_users_ok eleven_users" by code_simp
  then have l: "mem_listing (as_repo (sw_app eleven_world)) = eleven_users" by (simp add: eleven_world_def)
  have e: "length eleven_users = 11" by (simp add: eleven_users_def)
  have "\<exists>c' rep us meta. serve exact_match sample_router ''u-1'' sample_seed big_page_rq eleven_world = Served c' \<and>
      c_Replies c' = [rep] \<and> reply_status rep = 200 \<and> reply_data_of rep = PageData us meta \<and>
      sw_app (c_World c') = sw_app eleven_world \<and>
      us = map ToResponse (window (clamp_size 200) ((1 - 1) * clamp_size 200) eleven_users) \<and>
      pm_TotalItems meta = int (length eleven_users) \<and> ((100 :: int) < 200 \<longrightarrow> length us \<le> 10) \<and>
      ((200 :: int) \<le> 100 \<longrightarrow> (us \<noteq> [] \<longleftrightarrow> 1 \<le> pm_TotalPages meta)) \<and>
      ((100 :: int) < 200 \<longrightarrow> 10 < length eleven_users \<longrightarrow> int (length eleven_users) \<le> 200 \<longrightarrow>
         pm_TotalPages meta = 1 \<and> ((1 :: int) = 1 \<longrightarrow> us = map ToResponse (take 10 eleven_users)))"
    unfolding l [symmetric]
    by (rule listing_totals [where cfg = sample_router, unfolded sample_router_simps, OF mem_repository
        cached_app_simps(1) [OF sample_app] exact_match_ok route token valid q(1) _ _ q(2)])
      (simp_all add: l e eleven_admitted)
  then show ?thesis by (auto simp: e)
qed

section \<open>Removing a user\<close>

lemma handler_Delete_settled:
  fixes c :: "('r, 'd, 'q, 'l) world gin_context"
  assumes c: "pending rq ps s c" and "ps ''id'' = Some i" and del: "usecase_Delete uc i s = (s', None)"
  shows "settled (\<lambda>rep t. t = s' \<and> reply_status rep = 200) (handler_Delete uc c)"
  using assms by (simp add: handler_Delete_def app_of_def pending_def with_app_def ctx_Param_def response_defs ctx_simps)

text \<open>
  C36. Nobody's token is bound to anybody's record: a request with any token that validates, of whichever
  user, also of one who was removed long ago, removes the user whose identifier is in the path, and the
  others stay. The request is one that the limiter of the client lets through, and the database does not
  fail; whatever becomes of the cache entry.
\<close>

theorem any_token_removes_any_user:
  fixes cfg :: "('r, 'd, 'q, 'w, 'l) router_config"
  assumes repo: "reliable_user_repository repo users listed" and uc: "uu_userRepo (rcf_usecase cfg) = repo"
    and lookup: "route_lookup_ok lookup"
    and route: "lookup (map route_key (routes cfg sd)) (rq_Method rq) (rq_Path rq) =
      Handled (''DELETE'', ''/api/v1/users/:id'') ps" "ps ''id'' = Some i"
    and token: "bearer_token rq = Some tok"
      "ValidateToken (lib_jwt (hl_libs (rcf_libs cfg))) (rcf_JWTService cfg) (rq_Time rq) tok = Inr claims"
    and victim: "users (as_repo (sw_app w)) i \<noteq> None"
    and limiter: "admitted cfg rq (sw_clients w)"
  shows "\<exists>c' rep. serve lookup cfg uuid sd rq w = Served c' \<and> c_Replies c' = [rep] \<and> reply_status rep = 200 \<and>
    users (as_repo (sw_app (c_World c'))) = (users (as_repo (sw_app w)))(i := None)"
proof -
  let ?s = "sw_app w" and ?uc = "rcf_usecase cfg"
  note r0 = reliable_user_repository.axioms(1) [OF repo]
  obtain r' where r': "repo_Delete repo (as_repo ?s) i = (r', None)"
    using reliable_user_repository.repo_delete_up [OF repo victim] by blast
  then have users: "users r' = (users (as_repo ?s))(i := None)"
    using user_repository.repo_delete_ok [OF r0] by blast
  obtain s' where del: "usecase_Delete ?uc i ?s = (s', None)" "as_repo s' = r'"
    using r' uc by (simp add: usecase_Delete_def)
  have "gives rq ps ?s (\<lambda>rep t. t = s' \<and> reply_status rep = 200)
      (AuthMiddleware (lib_jwt (hl_libs (rcf_libs cfg))) (rcf_JWTService cfg)
        (handler_Delete ?uc :: ('r, 'd, 'q, 'l) world handler_func))"
    by (rule gives_Auth [OF token])
      (rule handler_Delete_settled [where ps = ps and i = i and rq = rq and s = ?s, OF _ route(2) del(1)])
  with serve_gives [OF lookup matched_routes(4) [where lookup = lookup, OF route(1)], of w _ uuid] limiter
  obtain c' rep where "serve lookup cfg uuid sd rq w = Served c'" "c_Replies c' = [rep]"
    "sw_app (c_World c') = s'" "reply_status rep = 200"
    by (fastforce simp: route_auth_def)
  with users del(2) show ?thesis by simp
qed

text \<open>A router that finds the users' routes by the prefix of the path.\<close>

definition prefix_match :: route_match where
  "prefix_match ks m p =
     (let n = length ''/api/v1/users/'' in
      if take n p = ''/api/v1/users/'' \<and> n < length p \<and> (m, ''/api/v1/users/:id'') \<in> set ks
      then Handled (m, ''/api/v1/users/:id'') [''id'' \<mapsto> drop n p]
      else exact_match ks m p)"

lemma prefix_match_ok: "route_lookup_ok prefix_match"
proof -
  have more: "\<exists>k ps. exact_match ks m p = Handled k ps \<Longrightarrow> \<exists>k ps. prefix_match ks m p = Handled k ps" for ks m p
    by (simp add: prefix_match_def Let_def)
  have "case prefix_match ks m p of
      Handled k ps \<Rightarrow> k \<in> set ks \<and> fst k = m
    | TrailingSlash \<Rightarrow> (\<exists>k ps. prefix_match ks m (toggle_slash p) = Handled k ps)
    | Unrouted \<Rightarrow> True" for ks m p
    using more [of ks m "toggle_slash p"] lookup_handled [OF exact_match_ok, of ks m p]
      lookup_toggled [OF exact_match_ok, of ks m p]
    by (cases "exact_match ks m p") (auto simp: prefix_match_def Let_def)
  then show ?thesis unfolding route_lookup_ok_def by blast
qed

theorem any_token_removes_any_user_witness:
  "\<exists>c' rep. serve prefix_match sample_router ''u-1'' sample_seed
      (bearer_rq ''DELETE'' ''/api/v1/users/iii'' sample_token) eleven_world = Served c' \<and>
    c_Replies c' = [rep] \<and> reply_status rep = 200 \<and> mem_user_rows (as_repo (sw_app (c_World c'))) ''iii'' = None"
proof -
  let ?rq = "bearer_rq ''DELETE'' ''/api/v1/users/iii'' sample_token"
  have route: "prefix_match (map route_key (routes sample_router sample_seed)) (rq_Method ?rq) (rq_Path ?rq) =
      Handled (''DELETE'', ''/api/v1/users/:id'') [''id'' \<mapsto> ''iii'']"
    by (simp add: prefix_match_def bearer_rq_simps route_list_defs route_key_def)
  have id: "[''id'' \<mapsto> ''iii''] ''id'' = Some ''iii''" by simp
  have token: "bearer_token ?rq = Some sample_token" by (rule sample_token_ok(2))
  have valid: "ValidateToken mem_jwt (NewJWTService ''secret'' 24) (rq_Time ?rq) sample_token =
      Inr (token_claims (NewJWTService ''secret'' 24) ''id1'' ''ada@x.org'' 50)"
    by (simp add: bearer_rq_simps sample_token_valid)
  have victim: "mem_user_rows (as_repo (sw_app eleven_world)) ''iii'' \<noteq> None" by code_simp
  from any_token_removes_any_user [where cfg = sample_router, unfolded sample_router_simps, OF mem_repository
      cached_app_simps(1) [OF sample_app] prefix_match_ok route id token valid victim eleven_admitted, of "''u-1''"]
  show ?thesis by auto
qed

end
