(* ===== verification/Middleware_Properties.thy ===== *)
theory Middleware_Properties
  imports Http_Properties Request_Outcomes
begin

text \<open>
  What the middlewares do to every request, over the whole chain of
  \<open>internal/delivery/http/router.go\<close>: the answers to other origins, and the rate limit of each
  client.
\<close>

section \<open>Headers that the chain leaves alone\<close>

lemma inner_one_reply:
  assumes "answers (rcf_swagger cfg)"
  shows "one_reply k (case matched_route lookup cfg sd rq of
      None \<Rightarrow> not_found_handler | Some (r, ps) \<Rightarrow> chain (rt_Middlewares r) (rt_Handler r))"
proof -
  have "answers (case matched_route lookup cfg sd rq of
      None \<Rightarrow> not_found_handler | Some (r, ps) \<Rightarrow> chain (rt_Middlewares r) (rt_Handler r))"
    using routes_answer [OF assms] matched_route_in [of lookup cfg sd rq]
    by (auto simp: route_answers_def answers_not_found split: option.splits prod.splits)
  then show ?thesis by (rule answers_one_reply)
qed

lemma Recovery_headers: "c_Headers (served_context (Recovery h c)) k = c_Headers (served_context (h c)) k"
  by (cases "h c") (auto simp: Recovery_def response_defs ctx_simps)

lemma CORS_sets:
  fixes rest :: "'s handler_func"
  assumes "\<And>k. one_reply k rest"
  shows "c_Headers (served_context (CORS cfg rest c)) allow_origin =
      (case cors_origin cfg (rq_Header (c_Request c) ''Origin'') of None \<Rightarrow> c_Headers c allow_origin | Some v \<Rightarrow> Some v)"
    "c_Headers (served_context (CORS cfg rest c)) allow_credentials =
      (if cors_AllowCredentials cfg then Some ''true'' else c_Headers c allow_credentials)"
    "c_Headers (served_context (CORS cfg rest c)) ''Vary'' = Some ''Origin''"
  using one_reply_header [OF assms]
  by (simp_all add: CORS_def Let_def ctx_simps allow_origin_def allow_credentials_def allow_headers_def
      allow_methods_def split: option.split)

text \<open>The context in which \<open>CORS\<close> finds a request, and what the outer middlewares make of its answer.\<close>

lemma Security_passes:
  obtains d where "SecurityHeaders env rest c = rest d" "c_Request d = c_Request c" "c_World d = c_World c"
    "c_Replies d = c_Replies c" "\<And>k. k \<notin> security_keys \<Longrightarrow> c_Headers d k = c_Headers c k"
proof -
  let ?d = "ctx_Header ''Referrer-Policy'' ''strict-origin-when-cross-origin''
    (ctx_Header ''X-XSS-Protection'' ''1; mode=block''
      (ctx_Header ''X-Frame-Options'' ''DENY'' (ctx_Header ''X-Content-Type-Options'' ''nosniff'' c)))"
  let ?e = "if env = ''production''
    then ctx_Header ''Strict-Transport-Security'' ''max-age=31536000; includeSubDomains'' ?d else ?d"
  show ?thesis
    by (rule that [of ?e]) (simp_all add: SecurityHeaders_def ctx_simps security_keys_def)
qed

lemma cors_security_keys: "k \<in> cors_keys \<Longrightarrow> k \<notin> security_keys \<and> k \<noteq> RequestIDHeader"
  unfolding security_keys_def cors_keys_def allow_origin_def allow_credentials_def allow_headers_def
    allow_methods_def RequestIDHeader_def by auto

lemma serve_at_CORS:
  assumes path: "\<not> redirected lookup cfg sd rq"
  obtains d c' where "c_Request d = rq" "c_World d = w" "c_Replies d = []"
    "\<And>k. k \<in> cors_keys \<Longrightarrow> c_Headers d k = None"
    "Recovery (inner_chain cfg (case matched_route lookup cfg sd rq of
       None \<Rightarrow> not_found_handler | Some (r, ps) \<Rightarrow> chain (rt_Middlewares r) (rt_Handler r))) d = Served c'"
    "serve lookup cfg uuid sd rq w = Served (log_request rq c')"
proof -
  let ?h = "inner_chain cfg (case matched_route lookup cfg sd rq of
      None \<Rightarrow> not_found_handler | Some (r, ps) \<Rightarrow> chain (rt_Middlewares r) (rt_Handler r))"
  let ?c = "case matched_route lookup cfg sd rq of
      None \<Rightarrow> new_context rq w | Some (r, ps) \<Rightarrow> (new_context rq w)\<lparr>c_Params := ps\<rparr>"
  have c: "c_Request ?c = rq" "c_World ?c = w" "c_Replies ?c = []" "c_Headers ?c = Map.empty"
    by (auto simp: new_context_def split: option.splits)
  let ?i = "if isValidRequestID (rq_Header rq RequestIDHeader) then rq_Header rq RequestIDHeader else uuid"
  let ?b = "ctx_Header RequestIDHeader ?i (ctx_Set RequestIDKey ?i ?c)"
  obtain d where d: "SecurityHeaders (rcf_AppEnv cfg) ?h ?b = ?h d" "c_Request d = c_Request ?b"
    "c_World d = c_World ?b" "c_Replies d = c_Replies ?b" "\<And>k. k \<notin> security_keys \<Longrightarrow> c_Headers d k = c_Headers ?b k"
    using Security_passes [of "rcf_AppEnv cfg" ?h ?b] by blast
  obtain c' where c': "Recovery ?h d = Served c'" by (cases "?h d") (simp_all add: Recovery_def)
  have r: "Recovery (SecurityHeaders (rcf_AppEnv cfg) ?h) ?b = Served c'"
    using c' d(1) by (simp add: Recovery_def)
  have "serve lookup cfg uuid sd rq w = Served (log_request rq c')"
    unfolding serve_chain [OF path] RequestID_def Logger_def Let_def c(1) r by (simp add: ctx_simps c(1))
  moreover have "c_Headers d k = None" if "k \<in> cors_keys" for k
    using cors_security_keys [OF that] d(5) [of k] c(4) by (simp add: ctx_simps)
  ultimately show ?thesis
    using that [of d c'] d(2-4) c' c by (simp add: ctx_simps)
qed

section \<open>Other origins\<close>

text \<open>A preflight request is answered by the middleware itself.\<close>

lemma preflight_served:
  assumes "\<not> redirected lookup cfg sd rq" "rq_Method rq = ''OPTIONS''"
  shows "\<exists>c'. serve lookup cfg uuid sd rq w = Served c' \<and> c_Replies c' = [StatusReply 204] \<and> c_World c' = w"
proof -
  let ?h = "case matched_route lookup cfg sd rq of
      None \<Rightarrow> not_found_handler | Some (r, ps) \<Rightarrow> chain (rt_Middlewares r) (rt_Handler r)"
  obtain d c' where d: "c_Request d = rq" "c_World d = w" "c_Replies d = []"
    and c': "Recovery (inner_chain cfg ?h) d = Served c'"
    and s: "serve lookup cfg uuid sd rq w = Served (log_request rq c')"
    using serve_at_CORS [OF assms(1), where w = w and uuid = uuid] by blast
  from c' d assms(2) have "c_Replies c' = [StatusReply 204] \<and> c_World c' = w"
    by (auto simp: inner_chain_def Recovery_def CORS_def Let_def ctx_simps split: option.splits)
  with s show ?thesis by (simp add: ctx_simps)
qed

lemma cross_origin_served:
  assumes "answers (rcf_swagger cfg)" "\<not> redirected lookup cfg sd rq"
  shows "\<exists>c'. serve lookup cfg uuid sd rq w = Served c' \<and> c_Headers c' ''Vary'' = Some ''Origin'' \<and>
    c_Headers c' allow_origin = cors_origin (rcf_CORS cfg) (rq_Header rq ''Origin'') \<and>
    c_Headers c' allow_credentials = (if cors_AllowCredentials (rcf_CORS cfg) then Some ''true'' else None)"
proof -
  let ?rest = "RateLimit (rcf_limiter cfg) (NewIPRateLimiter (rcf_RateLimit cfg))
    (case matched_route lookup cfg sd rq of
       None \<Rightarrow> not_found_handler | Some (r, ps) \<Rightarrow> chain (rt_Middlewares r) (rt_Handler r))"
  have rest: "one_reply k ?rest" for k by (rule one_reply_rate_limit, rule inner_one_reply, rule assms(1))
  obtain d c' where d: "c_Request d = rq" "c_World d = w" "c_Replies d = []"
      "\<And>k. k \<in> cors_keys \<Longrightarrow> c_Headers d k = None"
    and c': "Recovery (CORS (rcf_CORS cfg) ?rest) d = Served c'"
    and s: "serve lookup cfg uuid sd rq w = Served (log_request rq c')"
    using serve_at_CORS [OF assms(2), where w = w and uuid = uuid]
    unfolding inner_chain_def by blast
  have keep: "c_Headers c' k = c_Headers (served_context (CORS (rcf_CORS cfg) ?rest d)) k" for k
    using Recovery_headers [of "CORS (rcf_CORS cfg) ?rest" d k] c' by simp
  have o1: "c_Headers c' allow_origin = cors_origin (rcf_CORS cfg) (rq_Header rq ''Origin'')"
    unfolding keep CORS_sets(1) [OF rest] d(1) by (simp add: d(4) cors_keys_def split: option.split)
  have o2: "c_Headers c' allow_credentials = (if cors_AllowCredentials (rcf_CORS cfg) then Some ''true'' else None)"
    unfolding keep CORS_sets(2) [OF rest] by (simp add: d(4) cors_keys_def)
  have o3: "c_Headers c' ''Vary'' = Some ''Origin''"
    unfolding keep CORS_sets(3) [OF rest] ..
  show ?thesis
    unfolding s using o3 by (intro exI [of _ "log_request rq c'"]) (simp add: ctx_simps o1 o2)
qed

text \<open>
  C32. Requests from other origins. The reply allows no origin but the one the request names, or
  \<open>*\<close>; where \<open>*\<close> is not configured, only an origin from the configured list; and never \<open>*\<close> together
  with credentials, as browsers require (a request that names the origin \<open>*\<close> aside). But where both
  \<open>*\<close> and credentials are configured, which is the default, every origin is allowed, with
  credentials, on every reply but one: where gin redirects to the path with or without a trailing slash,
  it does so before the middleware runs, and that reply has none of these headers. A preflight request is
  answered with 204 by the middleware itself, whatever its path: it counts for no limiter and changes
  nothing. The Swagger handler is taken to answer each request once.
\<close>

theorem cross_origin_answers:
  assumes "answers (rcf_swagger cfg)" and lookup: "route_lookup_ok lookup"
  shows "\<exists>c'. serve lookup cfg uuid sd rq w = Served c' \<and>
    (if redirected lookup cfg sd rq then c_Headers c' = Map.empty else c_Headers c' ''Vary'' = Some ''Origin'') \<and>
    (\<forall>v. c_Headers c' allow_origin = Some v \<longrightarrow> v = ''*'' \<or> v = rq_Header rq ''Origin'') \<and>
    (\<forall>v. ''*'' \<notin> set (cors_AllowedOrigins (rcf_CORS cfg)) \<longrightarrow> c_Headers c' allow_origin = Some v \<longrightarrow>
       v = rq_Header rq ''Origin'' \<and> v \<in> set (cors_AllowedOrigins (rcf_CORS cfg))) \<and>
    (rq_Header rq ''Origin'' \<noteq> ''*'' \<longrightarrow>
       \<not> (c_Headers c' allow_origin = Some ''*'' \<and> c_Headers c' allow_credentials \<noteq> None)) \<and>
    (''*'' \<in> set (cors_AllowedOrigins (rcf_CORS cfg)) \<longrightarrow> cors_AllowCredentials (rcf_CORS cfg) \<longrightarrow>
       rq_Header rq ''Origin'' \<noteq> [] \<longrightarrow> \<not> redirected lookup cfg sd rq \<longrightarrow>
       c_Headers c' allow_origin = Some (rq_Header rq ''Origin'') \<and> c_Headers c' allow_credentials = Some ''true'') \<and>
    (rq_Method rq = ''OPTIONS'' \<longrightarrow> c_Replies c' = [StatusReply 204] \<and> c_World c' = w)"
proof (cases "redirected lookup cfg sd rq")
  case True
  from redirected_method [OF lookup True] True show ?thesis
    by (simp add: serve_redirected new_context_def ctx_simps)
next
  case False
  obtain c' where s: "serve lookup cfg uuid sd rq w = Served c'" and h: "c_Headers c' ''Vary'' = Some ''Origin''"
    "c_Headers c' allow_origin = cors_origin (rcf_CORS cfg) (rq_Header rq ''Origin'')"
    "c_Headers c' allow_credentials = (if cors_AllowCredentials (rcf_CORS cfg) then Some ''true'' else None)"
    using cross_origin_served [OF assms(1) False] by blast
  have opt: "c_Replies c' = [StatusReply 204] \<and> c_World c' = w" if "rq_Method rq = ''OPTIONS''"
    using preflight_served [OF False that, of uuid w] s by auto
  show ?thesis
    unfolding s using False opt h cors_origin_listed [of "rcf_CORS cfg" "rq_Header rq ''Origin''"]
    by (intro exI [of _ c']) (auto simp: cors_origin_def Let_def split: if_splits)
qed

theorem cross_origin_answers_witness:
  "\<exists>c'. serve exact_match sample_router ''u-1'' sample_seed
      ((sample_rq ''OPTIONS'' ''/x'')\<lparr>rq_Header := (\<lambda>k. if k = ''Origin'' then ''https://evil.example'' else [])\<rparr>) sample_world =
    Served c' \<and> c_Headers c' allow_origin = Some ''https://evil.example'' \<and>
    c_Headers c' allow_credentials = Some ''true'' \<and> c_Replies c' = [StatusReply 204]"
proof -
  have "''*'' \<in> set (splitTrim ''*'')" by code_simp
  then have "''*'' \<in> set (cors_AllowedOrigins (rcf_CORS sample_router))" "cors_AllowCredentials (rcf_CORS sample_router)"
    by (simp_all add: sample_router_def) (simp_all add: load_cors_def setting_def no_settings_def)
  moreover have "\<not> redirected exact_match sample_router sample_seed
      ((sample_rq ''OPTIONS'' ''/x'')\<lparr>rq_Header := (\<lambda>k. if k = ''Origin'' then ''https://evil.example'' else [])\<rparr>)"
    using redirected_method [OF exact_match_ok] by (fastforce simp: sample_rq_def)
  moreover note cross_origin_answers [OF sample_swagger exact_match_ok, of "''u-1''" sample_seed
      "(sample_rq ''OPTIONS'' ''/x'')\<lparr>rq_Header := (\<lambda>k. if k = ''Origin'' then ''https://evil.example'' else [])\<rparr>"
      sample_world]
  ultimately show ?thesis by (auto simp: sample_rq_def)
qed

section \<open>The limit of each client\<close>

text \<open>The rest of a chain that leaves the limiters alone.\<close>

definition spares_clients :: "('s, 'l) server_world handler_func \<Rightarrow> bool" where
  "spares_clients h \<longleftrightarrow> (\<forall>c. sw_clients (c_World (served_context (h c))) = sw_clients (c_World c))"

lemma sparesI:
  "(\<And>c. sw_clients (c_World (served_context (h c))) = sw_clients (c_World c)) \<Longrightarrow> spares_clients h"
  by (simp add: spares_clients_def)

lemma sparesD: "spares_clients h \<Longrightarrow> sw_clients (c_World (served_context (h c))) = sw_clients (c_World c)"
  by (simp add: spares_clients_def)

lemma with_app_clients: "sw_clients (c_World (with_app s c)) = sw_clients (c_World c)"
  by (simp add: with_app_def)

lemma spares_handlers:
  "spares_clients (handler_Create H uc sd :: ('r, 'd, 'q, 'l) world handler_func)"
  "spares_clients (handler_Login H uc :: ('r, 'd, 'q, 'l) world handler_func)"
  "spares_clients (handler_Logout :: ('r, 'd, 'q, 'l) world handler_func)"
  "spares_clients (handler_GetProfile H uc :: ('r, 'd, 'q, 'l) world handler_func)"
  "spares_clients (handler_GetByID H uc :: ('r, 'd, 'q, 'l) world handler_func)"
  "spares_clients (handler_GetAll uc :: ('r, 'd, 'q, 'l) world handler_func)"
  "spares_clients (handler_Update H uc :: ('r, 'd, 'q, 'l) world handler_func)"
  "spares_clients (handler_Delete uc :: ('r, 'd, 'q, 'l) world handler_func)"
  "spares_clients (handler_Check H HD cache :: ('r, 'd, 'q, 'l) world handler_func)"
  "spares_clients (handler_Liveness H :: ('r, 'd, 'q, 'l) world handler_func)"
  "spares_clients (handler_Readiness H HD :: ('r, 'd, 'q, 'l) world handler_func)"
  "spares_clients (not_found_handler :: ('r, 'd, 'q, 'l) world handler_func)"
  by (rule sparesI, simp add: handler_Create_def handler_Login_def handler_Logout_def handler_GetProfile_def
      handler_GetByID_def handler_GetAll_def handler_Update_def handler_Delete_def handler_Check_def
      handler_Liveness_def handler_Readiness_def not_found_handler_def response_defs ctx_simps with_app_clients Let_def
      split: sum.split prod.split outcome.split option.split)+

lemma spares_Auth:
  fixes h :: "('s, 'l) server_world handler_func"
  assumes "spares_clients h"
  shows "spares_clients (AuthMiddleware J svc h)"
proof (rule sparesI)
  fix c :: "('s, 'l) server_world gin_context"
  show "sw_clients (c_World (served_context (AuthMiddleware J svc h c))) = sw_clients (c_World c)"
    by (cases rule: AuthMiddleware_cases [of c J svc h])
      (simp_all add: sparesD [OF assms] unauthorized_def response_defs ctx_simps)
qed

lemma spares_routes:
  assumes "spares_clients (rcf_swagger cfg)"
  shows "spares_clients (case matched_route lookup cfg sd rq of
      None \<Rightarrow> not_found_handler | Some (r, ps) \<Rightarrow> chain (rt_Middlewares r) (rt_Handler r))"
  using assms matched_route_in [of lookup cfg sd rq]
  by (auto simp: route_list_defs route_auth_def
      spares_handlers spares_Auth split: option.split)

lemma Recovery_world: "c_World (served_context (Recovery h c)) = c_World (served_context (h c))"
  by (cases "h c") (auto simp: Recovery_def response_defs ctx_simps)

lemma CORS_passes:
  assumes "rq_Method (c_Request c) \<noteq> ''OPTIONS''"
  obtains d where "CORS cfg h c = h d" "c_Request d = c_Request c" "c_World d = c_World c" "c_Replies d = c_Replies c"
proof -
  let ?c1 = "case cors_origin cfg (rq_Header (c_Request c) ''Origin'') of
      None \<Rightarrow> c | Some o' \<Rightarrow> ctx_Header allow_origin o' c"
  let ?c2 = "if cors_AllowCredentials cfg then ctx_Header allow_credentials ''true'' ?c1 else ?c1"
  show ?thesis
    by (rule that [of "ctx_Header ''Vary'' ''Origin'' (ctx_Header allow_methods (cors_methods cfg)
        (ctx_Header allow_headers (cors_headers cfg) ?c2))"])
      (use assms in \<open>auto simp: CORS_def Let_def ctx_simps split: option.split\<close>)
qed

lemma limited_served:
  fixes cfg :: "('r, 'd, 'q, 'w, 'l) router_config"
  assumes swagger: "spares_clients (rcf_swagger cfg)" and m: "rq_Method rq \<noteq> ''OPTIONS''"
    and path: "\<not> redirected lookup cfg sd rq"
    and own: "lmt = (case sw_clients w (rq_ClientIP rq) of
        None \<Rightarrow> lm_New (rcf_limiter cfg) (rl_RequestsPerSecond (rcf_RateLimit cfg)) (rl_Burst (rcf_RateLimit cfg))
      | Some (l, seen) \<Rightarrow> l)"
    and allow: "lm_Allow (rcf_limiter cfg) lmt (rq_Time rq) = (lmt', ok)"
  shows "\<exists>c'. serve lookup cfg uuid sd rq w = Served c' \<and>
    sw_clients (c_World c') =
      (if rl_Enabled (rcf_RateLimit cfg) then (sw_clients w)(rq_ClientIP rq \<mapsto> (lmt', rq_Time rq)) else sw_clients w) \<and>
    (rl_Enabled (rcf_RateLimit cfg) \<and> \<not> ok \<longrightarrow> c_Replies c' = [limited_reply] \<and> sw_app (c_World c') = sw_app w)"
proof -
  let ?h = "case matched_route lookup cfg sd rq of
      None \<Rightarrow> not_found_handler | Some (r, ps) \<Rightarrow> chain (rt_Middlewares r) (rt_Handler r)"
  let ?l = "NewIPRateLimiter (rcf_RateLimit cfg)"
  have h: "spares_clients ?h" by (rule spares_routes [OF swagger])
  obtain d c' where d: "c_Request d = rq" "c_World d = w" "c_Replies d = []"
    and c': "Recovery (CORS (rcf_CORS cfg) (RateLimit (rcf_limiter cfg) ?l ?h)) d = Served c'"
    and s: "serve lookup cfg uuid sd rq w = Served (log_request rq c')"
    using serve_at_CORS [OF path, where w = w and uuid = uuid]
    unfolding inner_chain_def by blast
  obtain e where e: "CORS (rcf_CORS cfg) (RateLimit (rcf_limiter cfg) ?l ?h) d = RateLimit (rcf_limiter cfg) ?l ?h e"
    "c_Request e = rq" "c_World e = w" "c_Replies e = []"
    using CORS_passes [of d "rcf_CORS cfg" "RateLimit (rcf_limiter cfg) ?l ?h"] m d by auto
  have lim: "RateLimit (rcf_limiter cfg) ?l ?h e =
      (if \<not> rl_Enabled (rcf_RateLimit cfg) then ?h e
       else let f = e\<lparr>c_World := w\<lparr>sw_clients := (sw_clients w)(rq_ClientIP rq \<mapsto> (lmt', rq_Time rq))\<rparr>\<rparr> in
         if \<not> ok then Served (ctx_Abort (response_Error 429 ''Too many requests. Please try again later.'' None f))
         else ?h f)"
    using own allow e(2,3)
    by (cases "sw_clients w (rq_ClientIP rq)")
      (auto simp: RateLimit_def getLimiter_def NewIPRateLimiter_def Let_def)
  have w': "c_World c' = c_World (served_context (RateLimit (rcf_limiter cfg) ?l ?h e))"
    using Recovery_world [of "CORS (rcf_CORS cfg) (RateLimit (rcf_limiter cfg) ?l ?h)" d] c' e(1) by simp
  have "sw_clients (c_World c') =
      (if rl_Enabled (rcf_RateLimit cfg) then (sw_clients w)(rq_ClientIP rq \<mapsto> (lmt', rq_Time rq)) else sw_clients w)"
    unfolding w' lim using sparesD [OF h] e(3) by (simp add: Let_def response_defs ctx_simps)
  moreover have "c_Replies c' = [limited_reply] \<and> sw_app (c_World c') = sw_app w"
    if "rl_Enabled (rcf_RateLimit cfg)" "\<not> ok"
  proof -
    from that lim e(1) have "Recovery (CORS (rcf_CORS cfg) (RateLimit (rcf_limiter cfg) ?l ?h)) d =
        Served (ctx_Abort (response_Error 429 ''Too many requests. Please try again later.'' None
          (e\<lparr>c_World := w\<lparr>sw_clients := (sw_clients w)(rq_ClientIP rq \<mapsto> (lmt', rq_Time rq))\<rparr>\<rparr>)))"
      by (simp add: Recovery_def Let_def)
    with c' e(4) show ?thesis by (auto simp: response_defs limited_reply_def ctx_simps)
  qed
  ultimately show ?thesis unfolding s by (intro exI [of _ "log_request rq c'"]) (simp add: ctx_simps)
qed



end
