(* ===== verification/Reply_Properties.thy ===== *)
theory Reply_Properties
  imports Middleware_Properties
begin

text \<open>
  The shape of the replies: what a client may rely on without knowing the route it calls.
\<close>

section \<open>Well-formed replies\<close>

text \<open>
  An envelope of \<open>pkg/response\<close> reports success exactly with a status of success and has data only
  then, but for the health report; a probe answers 200 or 503 with its status first; a bare status is
  that of a preflight, of an unknown path, or of a redirect of gin.
\<close>

fun reply_ok :: "reply \<Rightarrow> bool" where
  "reply_ok (ApiReply n a) \<longleftrightarrow>
     (if ar_Success a then n \<in> {200, 201} \<and> ar_Error a = None
      else n \<in> {400, 401, 404, 409, 429, 500} \<and> ar_Data a = NoData \<or>
        n = 503 \<and> (\<exists>fs. ar_Data a = Fields fs) \<and> ar_Error a = None)"
| "reply_ok (JsonReply n fs) \<longleftrightarrow> n \<in> {200, 503} \<and> fs \<noteq> [] \<and> fst (hd fs) = ''status''"
| "reply_ok (StatusReply n) \<longleftrightarrow> n \<in> {204, 301, 307, 404}"

definition is_redirect :: "reply \<Rightarrow> bool" where
  "is_redirect r \<longleftrightarrow> r = StatusReply 301 \<or> r = StatusReply 307"

text \<open>Behind the middlewares nothing redirects.\<close>

definition reply_kind_ok :: "reply \<Rightarrow> bool" where
  "reply_kind_ok r \<longleftrightarrow> reply_ok r \<and> \<not> is_redirect r"

lemma reply_kind_ok_simps [simp]:
  "reply_kind_ok (ApiReply n a) \<longleftrightarrow> reply_ok (ApiReply n a)"
  "reply_kind_ok (JsonReply n fs) \<longleftrightarrow> reply_ok (JsonReply n fs)"
  "reply_kind_ok (StatusReply n) \<longleftrightarrow> n \<in> {204, 404}"
  by (auto simp: reply_kind_ok_def is_redirect_def)

definition replies_ok :: "'s handler_func \<Rightarrow> bool" where
  "replies_ok h \<longleftrightarrow>
     (\<forall>c. list_all reply_kind_ok (c_Replies c) \<longrightarrow> list_all reply_kind_ok (c_Replies (served_context (h c))))"

lemma replies_okI:
  "(\<And>c. list_all reply_kind_ok (c_Replies c) \<Longrightarrow> list_all reply_kind_ok (c_Replies (served_context (h c)))) \<Longrightarrow> replies_ok h"
  by (simp add: replies_ok_def)

lemma replies_okD:
  "replies_ok h \<Longrightarrow> list_all reply_kind_ok (c_Replies c) \<Longrightarrow> list_all reply_kind_ok (c_Replies (served_context (h c)))"
  by (simp add: replies_ok_def)

lemma with_app_replies: "c_Replies (with_app s c) = c_Replies c"
  by (simp add: with_app_def)

lemma replies_ok_handlers:
  "replies_ok (handler_Create H uc sd)" "replies_ok (handler_Login H uc)" "replies_ok handler_Logout"
  "replies_ok (handler_GetProfile H uc)" "replies_ok (handler_GetByID H uc)" "replies_ok (handler_GetAll uc)"
  "replies_ok (handler_Update H uc)" "replies_ok (handler_Delete uc)" "replies_ok (handler_Check H HD cache)"
  "replies_ok (handler_Liveness H)" "replies_ok (handler_Readiness H HD)" "replies_ok not_found_handler"
  by (rule replies_okI, simp add: handler_Create_def handler_Login_def handler_Logout_def handler_GetProfile_def
      handler_GetByID_def handler_GetAll_def handler_Update_def handler_Delete_def handler_Check_def
      handler_Liveness_def handler_Readiness_def not_found_handler_def response_defs ctx_simps with_app_replies Let_def
      split: sum.split prod.split outcome.split option.split)+

lemma replies_ok_Auth:
  fixes h :: "'s handler_func"
  assumes "replies_ok h"
  shows "replies_ok (AuthMiddleware J svc h)"
proof (rule replies_okI)
  fix c :: "'s gin_context" assume c: "list_all reply_kind_ok (c_Replies c)"
  show "list_all reply_kind_ok (c_Replies (served_context (AuthMiddleware J svc h c)))"
  proof (cases rule: AuthMiddleware_cases [of c J svc h])
    case ok
    then show ?thesis using c by (simp add: replies_okD [OF assms] ctx_simps)
  next
    case refused
    then show ?thesis using c by (simp add: unauthorized_def response_defs ctx_simps)
  qed
qed

lemma replies_ok_Recovery:
  fixes h :: "'s handler_func"
  assumes "replies_ok h"
  shows "replies_ok (Recovery h)"
proof (rule replies_okI)
  fix c :: "'s gin_context" assume "list_all reply_kind_ok (c_Replies c)"
  from replies_okD [OF assms this] show "list_all reply_kind_ok (c_Replies (served_context (Recovery h c)))"
    by (cases "h c") (auto simp: Recovery_def response_defs ctx_simps)
qed

lemma replies_ok_CORS: "replies_ok h \<Longrightarrow> replies_ok (CORS cfg h)"
  by (rule replies_okI) (simp add: CORS_def Let_def replies_okD ctx_simps split: option.split)

lemma replies_ok_RateLimit: "replies_ok h \<Longrightarrow> replies_ok (RateLimit M l h)"
  by (rule replies_okI) (simp add: RateLimit_def Let_def replies_okD response_defs ctx_simps split: prod.split)

lemma replies_ok_routes:
  assumes "\<And>r ps. matched_route lookup cfg sd rq = Some (r, ps) \<Longrightarrow> rt_Path r \<noteq> ''/swagger/*any''"
  shows "replies_ok (case matched_route lookup cfg sd rq of
      None \<Rightarrow> not_found_handler | Some (r, ps) \<Rightarrow> chain (rt_Middlewares r) (rt_Handler r))"
  using assms matched_route_in [of lookup cfg sd rq]
  by (auto simp: route_list_defs route_auth_def
      replies_ok_handlers replies_ok_Auth split: option.split)

lemma served_reply_ok:
  assumes "answers (rcf_swagger cfg)"
    and "\<And>r ps. matched_route lookup cfg sd rq = Some (r, ps) \<Longrightarrow> rt_Path r \<noteq> ''/swagger/*any''"
    and path: "\<not> redirected lookup cfg sd rq"
  shows "\<exists>c' r. serve lookup cfg uuid sd rq w = Served c' \<and> c_Replies c' = [r] \<and> reply_kind_ok r"
proof -
  let ?h = "case matched_route lookup cfg sd rq of
      None \<Rightarrow> not_found_handler | Some (r, ps) \<Rightarrow> chain (rt_Middlewares r) (rt_Handler r)"
  obtain d c' where d: "c_Replies d = []" and c': "Recovery (inner_chain cfg ?h) d = Served c'"
    and s: "serve lookup cfg uuid sd rq w = Served (log_request rq c')"
    using serve_at_CORS [OF path, where w = w and uuid = uuid]
    by blast
  have "total_reply RequestIDHeader (Recovery (inner_chain cfg ?h))"
    by (intro total_reply_Recovery serve_inner_one_reply assms(1)) simp
  then obtain r where r: "c_Replies c' = [r]"
    using c' d unfolding total_reply_def by (metis append_Nil served.inject(1))
  have "replies_ok (Recovery (inner_chain cfg ?h))"
    unfolding inner_chain_def
    by (intro replies_ok_Recovery replies_ok_CORS replies_ok_RateLimit replies_ok_routes assms(2))
  from replies_okD [OF this, of d] have "reply_kind_ok r" using c' d r by simp
  with s r show ?thesis by (simp add: ctx_simps)
qed



end
