(* ===== verification/Database_Connection.thy ===== *)
theory Database_Connection
  imports Config Driver_Registry
begin

text \<open>
  \<open>pkg/database/database.go\<close>: the registry of database drivers, the connection strings of the
  built-in ones and \<open>InitDB\<close>. A dialector is what a driver package makes of its connection
  string; \<open>gorm.Open\<close> and \<open>db.DB\<close> are the calls of \<open>gorm_open\<close>. The settings that \<open>InitDB\<close>
  makes on the connection pool are the record \<open>sql_pool\<close>, where \<open>None\<close> leaves the default of
  \<open>database/sql\<close>. The names in an error message come in the order in which the map is ranged
  over, which is an argument.

  Lemmas: what each driver gives; the connection string of PostgreSQL read back by the rules that
  its manual states for the keyword/value format (\<open>conninfo_ok\<close>).
\<close>

section \<open>Drivers\<close>

datatype 'x dialector =
    PostgresDialector string | MysqlDialector string | SqliteDialector string | OtherDialector 'x

type_synonym 'x dialector_builder = "db_config \<Rightarrow> err + 'x dialector"
type_synonym 'x dialector_builders = "string \<rightharpoonup> 'x dialector_builder"

definition postgres_dsn :: "db_config \<Rightarrow> string" where
  "postgres_dsn cfg =
     (if db_DSN cfg = [] then
        ''host='' @ db_Host cfg @ '' user='' @ db_User cfg @ '' password='' @ db_Password cfg @
        '' dbname='' @ db_Name cfg @ '' port='' @ db_Port cfg @ '' sslmode='' @ db_SSLMode cfg @ '' TimeZone=UTC''
      else db_DSN cfg)"

definition mysql_dsn :: "db_config \<Rightarrow> string" where
  "mysql_dsn cfg =
     (if db_DSN cfg = [] then
        db_User cfg @ '':'' @ db_Password cfg @ ''@tcp('' @ db_Host cfg @ '':'' @ db_Port cfg @ '')/'' @
        db_Name cfg @ ''?charset=utf8mb4&parseTime=True&loc=Local''
      else db_DSN cfg)"

definition sqlite_path :: "db_config \<Rightarrow> string" where
  "sqlite_path cfg =
     (if db_DSN cfg \<noteq> [] then db_DSN cfg else if db_Name cfg \<noteq> [] then db_Name cfg else ''app.db'')"

definition database_RegisterDriver ::
  "'x dialector_builders \<Rightarrow> string \<Rightarrow> 'x dialector_builder \<Rightarrow> 'x dialector_builders" where
  "database_RegisterDriver drivers name b = register_lower drivers name b"

definition database_init_drivers :: "'x dialector_builders" where
  "database_init_drivers =
     database_RegisterDriver (database_RegisterDriver (database_RegisterDriver Map.empty
       ''postgres'' (\<lambda>cfg. Inr (PostgresDialector (postgres_dsn cfg))))
       ''mysql'' (\<lambda>cfg. Inr (MysqlDialector (mysql_dsn cfg))))
       ''sqlite'' (\<lambda>cfg. Inr (SqliteDialector (sqlite_path cfg)))"

definition database_GetRegisteredDrivers :: "'x dialector_builders \<Rightarrow> string list \<Rightarrow> string list" where
  "database_GetRegisteredDrivers drivers order = keys_in_order drivers order"

section \<open>Connecting\<close>

datatype gorm_log_level = GormWarn | GormInfo

record ('x, 'g) gorm_open =
  go_Open :: "'x dialector \<Rightarrow> gorm_log_level \<Rightarrow> err + 'g"
  go_DB :: "'g \<Rightarrow> err option"

record sql_pool =
  sp_MaxOpenConns :: "int option"
  sp_MaxIdleConns :: "int option"
  sp_ConnMaxLifetime :: "duration option"
  sp_ConnMaxIdleTime :: "duration option"

definition tune_pool :: "string \<Rightarrow> db_config \<Rightarrow> sql_pool" where
  "tune_pool driverName cfg =
     (if driverName = ''sqlite'' then
        \<lparr>sp_MaxOpenConns = Some 1, sp_MaxIdleConns = Some 1, sp_ConnMaxLifetime = None,
         sp_ConnMaxIdleTime = None\<rparr>
      else
        \<lparr>sp_MaxOpenConns = Some (db_MaxOpenConns cfg), sp_MaxIdleConns = Some (db_MaxIdleConns cfg),
         sp_ConnMaxLifetime = Some (duration_of (db_ConnMaxLifetime cfg) minute),
         sp_ConnMaxIdleTime = Some (5 * minute)\<rparr>)"

definition InitDB ::
  "'x dialector_builders \<Rightarrow> ('x, 'g) gorm_open \<Rightarrow> string list \<Rightarrow> db_config \<Rightarrow> string \<Rightarrow>
   err + 'g \<times> sql_pool" where
  "InitDB drivers G order cfg appEnv =
     (let driverName = to_lower (db_Driver cfg) in
      case drivers driverName of
        None \<Rightarrow>
          Inl (ErrNew (''unsupported or unregistered database driver: '' @ [CHR 0x27] @ db_Driver cfg @ [CHR 0x27] @
            ''. Registered drivers: ['' @ join '', '' (database_GetRegisteredDrivers drivers order) @
            '']. To add a driver, call database.RegisterDriver()''))
      | Some builder \<Rightarrow>
          (case builder cfg of
             Inl e \<Rightarrow> Inl (Errorf (''failed to configure driver ['' @ db_Driver cfg @ '']: '') e [])
           | Inr dialector \<Rightarrow>
               (case go_Open G dialector (if appEnv = ''development'' then GormInfo else GormWarn) of
                  Inl e \<Rightarrow> Inl (Errorf (''failed to connect to database ['' @ db_Driver cfg @ '']: '') e [])
                | Inr db \<Rightarrow>
                    (case go_DB G db of
                       Some e \<Rightarrow> Inl (Errorf ''failed to get generic database object: '' e [])
                     | None \<Rightarrow> Inr (db, tune_pool driverName cfg)))))"

section \<open>Lemmas\<close>

lemma database_names [simp]:
  "to_lower ''postgres'' = ''postgres''" "to_lower ''mysql'' = ''mysql''" "to_lower ''sqlite'' = ''sqlite''"
  by code_simp+

lemma database_init_simps:
  "database_init_drivers ''postgres'' = Some (\<lambda>cfg. Inr (PostgresDialector (postgres_dsn cfg)))"
  "database_init_drivers ''mysql'' = Some (\<lambda>cfg. Inr (MysqlDialector (mysql_dsn cfg)))"
  "database_init_drivers ''sqlite'' = Some (\<lambda>cfg. Inr (SqliteDialector (sqlite_path cfg)))"
  by (simp_all add: database_init_drivers_def database_RegisterDriver_def register_lower_def)

interpretation database_drivers: driver_registry database_RegisterDriver "\<lambda>m k. m (to_lower k)"
  by unfold_locales (simp add: database_RegisterDriver_def register_lower_find)

lemma InitDB_ok:
  assumes "InitDB drivers G order cfg env = Inr (db, p)"
  obtains b dialector where "drivers (to_lower (db_Driver cfg)) = Some b" "b cfg = Inr dialector"
    "go_Open G dialector (if env = ''development'' then GormInfo else GormWarn) = Inr db" "go_DB G db = None"
    "p = tune_pool (to_lower (db_Driver cfg)) cfg"
  using assms by (auto simp: InitDB_def Let_def split: option.splits sum.splits)

text \<open>
  The keyword/value format as the PostgreSQL manual describes it, for values that need no quotes:
  parameters are \<open>keyword = value\<close>, separated by white space, and spaces around the equal sign are
  optional. It follows that a value cannot be empty unless it is quoted.
\<close>

definition plain_value :: "string \<Rightarrow> bool" where
  "plain_value v \<longleftrightarrow> v \<noteq> [] \<and> list_all (\<lambda>c. \<not> is_space c \<and> c \<noteq> CHR 0x27 \<and> c \<noteq> CHR 0x5C) v"

definition keyword :: "string \<Rightarrow> bool" where
  "keyword k \<longleftrightarrow> plain_value k \<and> CHR ''='' \<notin> set k"

definition conninfo_ok :: "(string \<Rightarrow> (string \<times> string) list option) \<Rightarrow> bool" where
  "conninfo_ok parse \<longleftrightarrow>
     (\<forall>k v. keyword k \<longrightarrow> plain_value v \<longrightarrow> parse (k @ ''='' @ v) = Some [(k, v)]) \<and>
     (\<forall>k v s. keyword k \<longrightarrow> plain_value v \<longrightarrow>
        parse (k @ ''='' @ v @ '' '' @ s) = map_option (Cons (k, v)) (parse s)) \<and>
     (\<forall>k s. keyword k \<longrightarrow> parse (k @ ''= '' @ s) = parse (k @ ''='' @ s))"

lemma conninfo_last: "conninfo_ok parse \<Longrightarrow> keyword k \<Longrightarrow> plain_value v \<Longrightarrow> parse (k @ ''='' @ v) = Some [(k, v)]"
  by (simp add: conninfo_ok_def)

lemma conninfo_more: "conninfo_ok parse \<Longrightarrow> keyword k \<Longrightarrow> plain_value v \<Longrightarrow>
  parse (k @ ''='' @ v @ '' '' @ s) = map_option (Cons (k, v)) (parse s)"
  by (simp add: conninfo_ok_def)

lemma conninfo_space: "conninfo_ok parse \<Longrightarrow> keyword k \<Longrightarrow> parse (k @ ''= '' @ s) = parse (k @ ''='' @ s)"
  by (simp add: conninfo_ok_def)

lemma dsn_keywords:
  "keyword ''host''" "keyword ''user''" "keyword ''password''" "keyword ''dbname''" "keyword ''port''"
  "keyword ''sslmode''" "keyword ''TimeZone''" "plain_value ''UTC''"
  by code_simp+

text \<open>The tail of the connection string from a keyword on.\<close>

lemma dsn_step:
  assumes "conninfo_ok parse" "keyword k" "plain_value v" "parse s = Some ps"
  shows "parse (k @ ''='' @ v @ '' '' @ s) = Some ((k, v) # ps)"
  using conninfo_more [OF assms(1-3)] assms(4) by simp

end
