(* ===== verification/Setup_Properties.thy ===== *)
theory Setup_Properties
  imports Database_Connection
begin

text \<open>
  Properties of what runs once at the start: the list settings of the configuration and the connection
  string of PostgreSQL.
\<close>

section \<open>List settings\<close>

text \<open>
  The list settings (allowed origins, methods and headers) can be written in both documented
  formats, separated by commas or as a JSON array of strings, and both give back exactly the
  entries, in order, for entries that are not empty and need no quoting; and whatever the text of
  the setting, no entry that \<open>splitTrim\<close> returns is empty.
\<close>

theorem splitTrim_reads_both_formats:
  assumes "xs \<noteq> []" "\<forall>x \<in> set xs. plain_entry x"
  shows "splitTrim (join '','' xs) = xs \<and> splitTrim (json_array xs) = xs \<and> [] \<notin> set (splitTrim s)"
  using splitTrim_join [OF assms(2,1)] splitTrim_json [OF assms(2)] splitTrim_nonempty [of s] by auto

theorem splitTrim_reads_both_formats_witness:
  "splitTrim ''http://a.org,http://b.org'' = [''http://a.org'', ''http://b.org'']"
proof -
  have "\<forall>x \<in> set [''http://a.org'', ''http://b.org'']. plain_entry x" by code_simp
  from splitTrim_reads_both_formats [OF _ this] show ?thesis by simp
qed

section \<open>The connection string\<close>

lemma plain_append: "plain_value (a @ b) \<longleftrightarrow>
    a @ b \<noteq> [] \<and> (a = [] \<or> plain_value a) \<and> (b = [] \<or> plain_value b)"
  by (auto simp: plain_value_def)

text \<open>The string with the spaces where a reader of the format looks for them.\<close>

lemma postgres_dsn_split:
  "db_DSN cfg = [] \<Longrightarrow> postgres_dsn cfg =
     ''host'' @ ''='' @ db_Host cfg @ '' '' @ ''user'' @ ''='' @ db_User cfg @ '' '' @
     ''password'' @ ''='' @ db_Password cfg @ '' '' @ ''dbname'' @ ''='' @ db_Name cfg @ '' '' @
     ''port'' @ ''='' @ db_Port cfg @ '' '' @ ''sslmode'' @ ''='' @ db_SSLMode cfg @ '' '' @ ''TimeZone'' @ ''='' @ ''UTC''"
  by (simp add: postgres_dsn_def)

text \<open>
  The connection string that \<open>InitDB\<close> builds for PostgreSQL from separate settings, read by
  the rules of its manual, gives back these settings when they are not empty and need no quotes.
  With an empty password it does not: since the value is not quoted, the text of the database name
  becomes the password, and no database name is left.
\<close>

theorem postgres_dsn_read_back:
  assumes P: "conninfo_ok parse" and dsn: "db_DSN cfg = []"
    and plain: "plain_value (db_Host cfg)" "plain_value (db_User cfg)" "plain_value (db_Name cfg)"
      "plain_value (db_Port cfg)" "plain_value (db_SSLMode cfg)"
  shows "(plain_value (db_Password cfg) \<longrightarrow> parse (postgres_dsn cfg) = Some
      [(''host'', db_Host cfg), (''user'', db_User cfg), (''password'', db_Password cfg), (''dbname'', db_Name cfg),
       (''port'', db_Port cfg), (''sslmode'', db_SSLMode cfg), (''TimeZone'', ''UTC'')]) \<and>
    (db_Password cfg = [] \<longrightarrow> parse (postgres_dsn cfg) = Some
      [(''host'', db_Host cfg), (''user'', db_User cfg), (''password'', ''dbname='' @ db_Name cfg),
       (''port'', db_Port cfg), (''sslmode'', db_SSLMode cfg), (''TimeZone'', ''UTC'')])"
proof -
  have tail: "parse (''port'' @ ''='' @ db_Port cfg @ '' '' @ ''sslmode'' @ ''='' @ db_SSLMode cfg @ '' '' @
      ''TimeZone'' @ ''='' @ ''UTC'') =
    Some [(''port'', db_Port cfg), (''sslmode'', db_SSLMode cfg), (''TimeZone'', ''UTC'')]"
    by (intro dsn_step [OF P] conninfo_last [OF P] dsn_keywords plain)
  show ?thesis
  proof (intro conjI impI)
    assume pw: "plain_value (db_Password cfg)"
    show "parse (postgres_dsn cfg) = Some
      [(''host'', db_Host cfg), (''user'', db_User cfg), (''password'', db_Password cfg), (''dbname'', db_Name cfg),
       (''port'', db_Port cfg), (''sslmode'', db_SSLMode cfg), (''TimeZone'', ''UTC'')]"
      unfolding postgres_dsn_split [OF dsn] by (intro dsn_step [OF P] tail dsn_keywords plain pw)
  next
    assume pw: "db_Password cfg = []"
    let ?r = "''port'' @ ''='' @ db_Port cfg @ '' '' @ ''sslmode'' @ ''='' @ db_SSLMode cfg @ '' '' @ ''TimeZone'' @ ''='' @ ''UTC''"
    have "plain_value (''dbname='' @ db_Name cfg)"
      using plain(3) by (simp add: plain_value_def is_space_def)
    from dsn_step [OF P dsn_keywords(3) this tail]
    have "parse (''password'' @ ''= '' @ ''dbname='' @ db_Name cfg @ '' '' @ ?r) =
      Some [(''password'', ''dbname='' @ db_Name cfg), (''port'', db_Port cfg), (''sslmode'', db_SSLMode cfg),
        (''TimeZone'', ''UTC'')]"
      unfolding conninfo_space [OF P dsn_keywords(3)] by simp
    from dsn_step [OF P dsn_keywords(1) plain(1) dsn_step [OF P dsn_keywords(2) plain(2) this]]
    show "parse (postgres_dsn cfg) = Some
      [(''host'', db_Host cfg), (''user'', db_User cfg), (''password'', ''dbname='' @ db_Name cfg),
       (''port'', db_Port cfg), (''sslmode'', db_SSLMode cfg), (''TimeZone'', ''UTC'')]"
      unfolding postgres_dsn_split [OF dsn] by (simp add: pw)
  qed
qed

text \<open>A reader of the format, for the witness.\<close>

function read_conninfo :: "string \<Rightarrow> (string \<times> string) list option" where
  "read_conninfo s =
     (let k = takeWhile (\<lambda>c. c \<noteq> CHR ''='') s; r = dropWhile (\<lambda>c. c \<noteq> CHR ''='') s in
      if r = [] then None
      else let v0 = dropWhile is_space (tl r); v = takeWhile (\<lambda>c. \<not> is_space c) v0;
               t = dropWhile (\<lambda>c. \<not> is_space c) v0
        in if t = [] then Some [(k, v)] else map_option (Cons (k, v)) (read_conninfo (tl t)))"
  by pat_completeness auto

termination read_conninfo
proof (relation "measure length")
  fix s k r v0 v t :: string
  assume r: "r = dropWhile (\<lambda>c. c \<noteq> CHR ''='') s" "r \<noteq> []" and v0: "v0 = dropWhile is_space (tl r)"
    and t: "t = dropWhile (\<lambda>c. \<not> is_space c) v0" "t \<noteq> []"
  have "length t \<le> length v0" unfolding t(1) by (rule length_dropWhile_le)
  moreover have "length v0 \<le> length (tl r)" unfolding v0 by (rule length_dropWhile_le)
  moreover have "length r \<le> length s" unfolding r(1) by (rule length_dropWhile_le)
  ultimately
  show "(tl t, s) \<in> measure length" using r(2) t(2) by (cases t; cases r) auto
qed simp

declare read_conninfo.simps [simp del]

lemma keyword_split:
  assumes "keyword k"
  shows "takeWhile (\<lambda>c. c \<noteq> CHR ''='') (k @ CHR ''='' # s) = k"
    "dropWhile (\<lambda>c. c \<noteq> CHR ''='') (k @ CHR ''='' # s) = CHR ''='' # s"
proof -
  have "\<forall>c \<in> set k. c \<noteq> CHR ''=''" using assms by (auto simp: keyword_def)
  then show "takeWhile (\<lambda>c. c \<noteq> CHR ''='') (k @ CHR ''='' # s) = k"
    "dropWhile (\<lambda>c. c \<noteq> CHR ''='') (k @ CHR ''='' # s) = CHR ''='' # s"
    by (simp_all add: takeWhile_append2 dropWhile_append2)
qed

lemma plain_split:
  assumes "plain_value v"
  shows "dropWhile is_space (v @ s) = v @ s"
    "takeWhile (\<lambda>c. \<not> is_space c) (v @ CHR '' '' # s) = v" "takeWhile (\<lambda>c. \<not> is_space c) v = v"
    "dropWhile (\<lambda>c. \<not> is_space c) (v @ CHR '' '' # s) = CHR '' '' # s" "dropWhile (\<lambda>c. \<not> is_space c) v = []"
proof -
  have v: "v \<noteq> []" "\<forall>c \<in> set v. \<not> is_space c" using assms by (auto simp: plain_value_def list_all_iff)
  then show "dropWhile is_space (v @ s) = v @ s" by (cases v) auto
  have "is_space CHR '' ''" by code_simp
  with v(2) show "takeWhile (\<lambda>c. \<not> is_space c) (v @ CHR '' '' # s) = v" "takeWhile (\<lambda>c. \<not> is_space c) v = v"
    "dropWhile (\<lambda>c. \<not> is_space c) (v @ CHR '' '' # s) = CHR '' '' # s" "dropWhile (\<lambda>c. \<not> is_space c) v = []"
    by (simp_all add: takeWhile_append2 dropWhile_append2 takeWhile_eq_all_conv)
qed

lemma read_conninfo_ok: "conninfo_ok read_conninfo"
  unfolding conninfo_ok_def
proof (intro conjI allI impI)
  fix k v s :: string assume k: "keyword k"
  have sp: "is_space CHR '' ''" by code_simp
  show "read_conninfo (k @ ''= '' @ s) = read_conninfo (k @ ''='' @ s)"
    using k sp by (simp add: read_conninfo.simps [of "k @ _"] keyword_split)
  assume v: "plain_value v"
  show "read_conninfo (k @ ''='' @ v @ '' '' @ s) = map_option (Cons (k, v)) (read_conninfo s)"
    using k v sp by (simp add: read_conninfo.simps [of "k @ _"] keyword_split plain_split)
next
  fix k v :: string assume k: "keyword k" and v: "plain_value v"
  have "\<forall>c \<in> set v. \<not> is_space c" using v by (auto simp: plain_value_def list_all_iff)
  then show "read_conninfo (k @ ''='' @ v) = Some [(k, v)]"
    using k v plain_split(1) [OF v, of "[]"]
    by (simp add: read_conninfo.simps [of "k @ _"] keyword_split plain_split)
qed

definition sample_db :: db_config where
  "sample_db = (load_database no_settings)\<lparr>db_Driver := ''postgres'', db_Password := []\<rparr>"

theorem postgres_dsn_read_back_witness:
  "map_of (the (read_conninfo (postgres_dsn sample_db))) ''password'' = Some ''dbname=app.db'' \<and>
   map_of (the (read_conninfo (postgres_dsn sample_db))) ''dbname'' = None"
proof -
  have "plain_value (db_Host sample_db)" "plain_value (db_User sample_db)" "plain_value (db_Name sample_db)"
    "plain_value (db_Port sample_db)" "plain_value (db_SSLMode sample_db)" "db_DSN sample_db = []"
    "db_Password sample_db = []" "db_Name sample_db = ''app.db''"
    by code_simp+
  with postgres_dsn_read_back [OF read_conninfo_ok, of sample_db] show ?thesis by simp
qed

end
