(* ===== verification/Log_Setup.thy ===== *)
theory Log_Setup
  imports Config Driver_Registry "HOL-Library.List_Lexorder" "HOL-Library.Char_ord"
begin

text \<open>
  \<open>pkg/logger/logger.go\<close>: the registry of log drivers, the handlers and \<open>InitLogger\<close>. Where a
  handler writes is a \<open>sink\<close>; Lumberjack's rotating file is its settings. A log handler of the
  package \<open>slog\<close> is a format, a level and a sink, or one that a registered driver brings. A
  driver may leave its closer nil. Creating the log directory is an effect of the file drivers
  that the code only logs the error of, and it is not modelled. \<open>init_record\<close> is the record that
  \<open>InitLogger\<close> writes with the new logger: its level, its message and its attributes.

  Lemmas: \<open>InitLogger\<close> gives a logger and a closer whatever the configuration, and which; which names
  the warning about an unknown driver offers.
\<close>

section \<open>Paths\<close>

text \<open>\<open>filepath.Join\<close> of two elements that are not empty: the cleaned path.\<close>

fun clean_elems :: "bool \<Rightarrow> string list \<Rightarrow> string list \<Rightarrow> string list" where
  "clean_elems rooted acc [] = rev acc"
| "clean_elems rooted acc (e # es) =
     (if e = [] \<or> e = ''.'' then clean_elems rooted acc es
      else if e = ''..'' then
        (case acc of
           a # as \<Rightarrow> if a = ''..'' then clean_elems rooted (''..'' # acc) es else clean_elems rooted as es
         | [] \<Rightarrow> clean_elems rooted (if rooted then [] else [''..'']) es)
      else clean_elems rooted (e # acc) es)"

definition filepath_clean :: "string \<Rightarrow> string" where
  "filepath_clean p =
     (let rooted = has_prefix p ''/'';
          r = (if rooted then ''/'' else []) @ join ''/'' (clean_elems rooted [] (split_on CHR ''/'' p))
      in if r = [] then ''.'' else r)"

definition filepath_join :: "string \<Rightarrow> string \<Rightarrow> string" where
  "filepath_join a b = filepath_clean (a @ ''/'' @ b)"

section \<open>Handlers\<close>

datatype slog_level = SlogDebug | SlogInfo | SlogWarn | SlogError

record rolling_file =
  rf_Filename :: string
  rf_MaxSize :: int
  rf_MaxBackups :: int
  rf_MaxAge :: int
  rf_Compress :: bool
  rf_LocalTime :: bool

datatype 'x sink = Stdout | RollingFile rolling_file | MultiWriter "'x sink list" | Discard | OtherSink 'x

datatype log_format = TextFormat | JSONFormat

datatype 'x log_handler = SlogHandler log_format slog_level "'x sink" | OtherHandler 'x

datatype 'x closer = NopCloser | FileCloser rolling_file | OtherCloser 'x

type_synonym 'x handler_builder = "log_config \<Rightarrow> err + 'x log_handler \<times> 'x closer option"
type_synonym 'x writer_builder = "log_config \<Rightarrow> err + 'x sink \<times> 'x closer option"
type_synonym 'x log_drivers = "string \<rightharpoonup> 'x handler_builder"

definition ParseLevel :: "string \<Rightarrow> slog_level" where
  "ParseLevel lvl =
     (let l = to_lower lvl in
      if l = ''debug'' then SlogDebug
      else if l = ''warn'' \<or> l = ''warning'' then SlogWarn
      else if l = ''error'' then SlogError
      else SlogInfo)"

definition NewHandlerForWriter :: "'x sink \<Rightarrow> log_config \<Rightarrow> 'x log_handler" where
  "NewHandlerForWriter w cfg =
     (if to_lower (log_Format cfg) = ''text'' \<or> to_lower (log_Format cfg) = ''console''
      then SlogHandler TextFormat (ParseLevel (log_Level cfg)) w
      else SlogHandler JSONFormat (ParseLevel (log_Level cfg)) w)"

definition newRollingFileWriter :: "log_config \<Rightarrow> rolling_file" where
  "newRollingFileWriter cfg =
     (let logDir = (if log_Directory cfg = [] then ''logs'' else log_Directory cfg);
          filename = (if log_Filename cfg = [] then ''app.log'' else log_Filename cfg)
      in \<lparr>rf_Filename = filepath_join logDir filename, rf_MaxSize = log_MaxSizeMB cfg,
          rf_MaxBackups = log_MaxBackups cfg, rf_MaxAge = log_MaxAgeDays cfg,
          rf_Compress = log_Compress cfg, rf_LocalTime = True\<rparr>)"

section \<open>Drivers\<close>

definition logger_RegisterDriver ::
  "'x log_drivers \<Rightarrow> string \<Rightarrow> 'x handler_builder \<Rightarrow> 'x log_drivers" where
  "logger_RegisterDriver drivers name b = register_lower drivers name b"

definition RegisterWriter :: "'x log_drivers \<Rightarrow> string \<Rightarrow> 'x writer_builder \<Rightarrow> 'x log_drivers" where
  "RegisterWriter drivers name builder =
     logger_RegisterDriver drivers name (\<lambda>cfg.
       case builder cfg of
         Inl e \<Rightarrow> Inl e
       | Inr (w, c) \<Rightarrow> Inr (NewHandlerForWriter w cfg, c))"

definition stdout_writer :: "'x writer_builder" where
  "stdout_writer cfg = Inr (Stdout, Some NopCloser)"

definition file_writer :: "'x writer_builder" where
  "file_writer cfg = (let fw = newRollingFileWriter cfg in Inr (RollingFile fw, Some (FileCloser fw)))"

definition stack_writer :: "'x writer_builder" where
  "stack_writer cfg =
     (let fw = newRollingFileWriter cfg in Inr (MultiWriter [Stdout, RollingFile fw], Some (FileCloser fw)))"

definition discard_writer :: "'x writer_builder" where
  "discard_writer cfg = Inr (Discard, Some NopCloser)"

definition logger_init_drivers :: "'x log_drivers" where
  "logger_init_drivers =
     (let d1 = RegisterWriter Map.empty ''stdout'' stdout_writer;
          d2 = RegisterWriter d1 ''console'' stdout_writer;
          d3 = RegisterWriter d2 ''file'' file_writer;
          d4 = RegisterWriter d3 ''stack'' stack_writer;
          d5 = RegisterWriter d4 ''multi'' stack_writer;
          d6 = RegisterWriter d5 ''discard'' discard_writer
      in RegisterWriter d6 ''null'' discard_writer)"

text \<open>The names in the byte-wise order of \<open>sort.Strings\<close>.\<close>

definition logger_GetRegisteredDrivers :: "'x log_drivers \<Rightarrow> string list" where
  "logger_GetRegisteredDrivers drivers = sorted_list_of_set (dom drivers)"

section \<open>Initialization\<close>

definition log_driver_name :: "log_config \<Rightarrow> string" where
  "log_driver_name cfg = (let n = to_lower (log_Driver cfg) in if n = [] then ''stack'' else n)"

definition InitLogger :: "'x log_drivers \<Rightarrow> log_config \<Rightarrow> 'x log_handler \<times> 'x closer" where
  "InitLogger drivers cfg =
     (case drivers (log_driver_name cfg) of
        None \<Rightarrow> (NewHandlerForWriter Stdout cfg, NopCloser)
      | Some builder \<Rightarrow>
          (case builder cfg of
             Inl e \<Rightarrow> (NewHandlerForWriter Stdout cfg, NopCloser)
           | Inr (handler, closer) \<Rightarrow>
               (handler, case closer of None \<Rightarrow> NopCloser | Some c \<Rightarrow> c)))"

definition init_record ::
  "'x log_drivers \<Rightarrow> log_config \<Rightarrow> slog_level \<times> string \<times> (string \<times> string) list" where
  "init_record drivers cfg =
     (case drivers (log_driver_name cfg) of
        None \<Rightarrow>
          (SlogWarn, ''Unsupported log driver '' @ [CHR 0x27] @ log_Driver cfg @ [CHR 0x27] @
             '', falling back to stdout. Registered drivers: ['' @
             join '', '' (logger_GetRegisteredDrivers drivers) @ '']'', [])
      | Some builder \<Rightarrow>
          (case builder cfg of
             Inl e \<Rightarrow>
               (SlogError, ''Failed to initialize log driver'',
                [(''driver'', log_Driver cfg), (''error'', error_text e)])
           | Inr r \<Rightarrow>
               (SlogInfo, ''Logger initialized successfully'',
                [(''driver'', log_driver_name cfg), (''format'', log_Format cfg), (''level'', log_Level cfg)])))"

section \<open>Lemmas\<close>

interpretation log_drivers: driver_registry logger_RegisterDriver "\<lambda>m k. m (to_lower k)"
  by unfold_locales (simp add: logger_RegisterDriver_def register_lower_find)

lemma logger_names [simp]:
  "to_lower ''stdout'' = ''stdout''" "to_lower ''console'' = ''console''" "to_lower ''file'' = ''file''"
  "to_lower ''stack'' = ''stack''" "to_lower ''multi'' = ''multi''" "to_lower ''discard'' = ''discard''"
  "to_lower ''null'' = ''null''"
  by code_simp+

lemmas logger_drivers_defs =
  logger_init_drivers_def RegisterWriter_def logger_RegisterDriver_def register_lower_def

lemmas writer_defs = stdout_writer_def file_writer_def stack_writer_def discard_writer_def

text \<open>Every driver that writes somewhere honours the level and the format of the configuration.\<close>

lemma NewHandler_level: "\<exists>f. NewHandlerForWriter w cfg = SlogHandler f (ParseLevel (log_Level cfg)) w"
  by (simp add: NewHandlerForWriter_def)

lemma logger_init_find:
  "logger_init_drivers n = Some b \<Longrightarrow> \<exists>w c. b cfg = Inr (NewHandlerForWriter w cfg, Some c)"
  by (auto simp: logger_drivers_defs writer_defs Let_def split: if_splits)

lemma InitLogger_builtin:
  "\<exists>w c. InitLogger (logger_init_drivers :: 'x log_drivers) cfg = (NewHandlerForWriter w cfg, c)"
proof (cases "logger_init_drivers (log_driver_name cfg) :: 'x handler_builder option")
  case None
  then show ?thesis by (auto simp: InitLogger_def intro: exI [of _ Stdout])
next
  case (Some b)
  from logger_init_find [OF Some, of cfg] obtain w c where "b cfg = Inr (NewHandlerForWriter w cfg, Some c)"
    by blast
  with Some show ?thesis by (auto simp: InitLogger_def intro: exI [of _ w])
qed

lemma InitLogger_fallback:
  "drivers (log_driver_name cfg) = None \<or>
   (\<exists>b e. drivers (log_driver_name cfg) = Some b \<and> b cfg = Inl e) \<Longrightarrow>
   InitLogger drivers cfg = (NewHandlerForWriter Stdout cfg, NopCloser)"
  by (auto simp: InitLogger_def)

lemma logger_init_names:
  "logger_GetRegisteredDrivers (logger_init_drivers :: 'x log_drivers) =
    [''console'', ''discard'', ''file'', ''multi'', ''null'', ''stack'', ''stdout'']" (is "_ = ?names")
proof -
  have "dom (logger_init_drivers :: 'x log_drivers) = set ?names"
    by (auto simp: logger_drivers_defs Let_def)
  moreover have "sorted_list_of_set (set ?names) = ?names"
    by (intro sorted_list_of_set.idem_if_sorted_distinct) code_simp+
  ultimately show ?thesis by (simp only: logger_GetRegisteredDrivers_def)
qed

end
