(* ===== verification/Seeder.thy ===== *)
theory Seeder
  imports User_Repository Credentials
begin

text \<open>
  \<open>database/seeder\<close>: the registry of seeders and the seeder of users. It works on the table of
  users through the calls of \<open>user_db\<close> and one more, the count of the users with an address,
  whose error the code ignores. What is drawn at random for a fake user (\<open>gofakeit\<close>, \<open>uuid\<close>, the
  clock) is a \<open>fake\<close>, and the salts and the draws for the administrator are a \<open>draws\<close>.

  Lemmas: no run loses or changes a user; a run that ends well leaves an administrator.
\<close>

section \<open>The registry of seeders\<close>

record 'd seeder =
  sdr_Name :: string
  sdr_Seed :: "'d \<Rightarrow> 'd \<times> err option"

type_synonym 'd seeders = "'d seeder list"

definition seeder_NewRegistry :: "'d seeder list \<Rightarrow> 'd seeders" where
  "seeder_NewRegistry seeders = seeders"

definition seeder_Register :: "'d seeders \<Rightarrow> 'd seeder \<Rightarrow> 'd seeders" where
  "seeder_Register r s = r @ [s]"

fun seeder_Run :: "'d seeders \<Rightarrow> 'd \<Rightarrow> 'd \<times> err option" where
  "seeder_Run [] d = (d, None)"
| "seeder_Run (s # ss) d =
     (case sdr_Seed s d of
        (d', Some e) \<Rightarrow> (d', Some (Errorf (''seeder '' @ sdr_Name s @ '' failed: '') e []))
      | (d', None) \<Rightarrow> seeder_Run ss d')"

section \<open>The seeder of users\<close>

record fake =
  fk_Email :: string
  fk_Name :: string
  fk_ID :: string
  fk_CreatedAt :: instant
  fk_UpdatedAt :: instant

record draws =
  dr_adminSalt :: string
  dr_adminID :: string
  dr_adminCreatedAt :: instant
  dr_adminUpdatedAt :: instant
  dr_salt :: string
  dr_fakes :: "nat \<Rightarrow> fake"

definition NewUserSeeder :: "int list \<Rightarrow> int" where
  "NewUserSeeder cnt = (case cnt of c # cs \<Rightarrow> if c > 0 then c else 10 | [] \<Rightarrow> 10)"

definition adminEmail :: string where "adminEmail = ''admin@example.com''"
definition seedPassword :: string where "seedPassword = ''password123''"

definition admin_user :: "draws \<Rightarrow> string \<Rightarrow> user" where
  "admin_user dr h =
     \<lparr>user_ID = dr_adminID dr, user_Name = ''System Administrator'', user_Email = adminEmail,
      user_Password = h, user_CreatedAt = dr_adminCreatedAt dr, user_UpdatedAt = dr_adminUpdatedAt dr\<rparr>"

definition fake_user :: "fake \<Rightarrow> string \<Rightarrow> user" where
  "fake_user f h =
     \<lparr>user_ID = fk_ID f, user_Name = fk_Name f, user_Email = fk_Email f, user_Password = h,
      user_CreatedAt = fk_CreatedAt f, user_UpdatedAt = fk_UpdatedAt f\<rparr>"

definition seed_admin :: "bcrypt \<Rightarrow> 'd user_db \<Rightarrow> draws \<Rightarrow> 'd \<Rightarrow> 'd \<times> err option" where
  "seed_admin B U dr d =
     (case udb_First U d (\<lambda>u. user_Email u = adminEmail) of
        Inr existing \<Rightarrow> (d, None)
      | Inl e \<Rightarrow>
          if errors_is e GormErrRecordNotFound then
            (case HashPassword B (dr_adminSalt dr) seedPassword of
               Inl e \<Rightarrow> (d, Some (Errorf ''failed to hash admin password: '' e []))
             | Inr h \<Rightarrow>
                 (case udb_Create U d (admin_user dr h) of
                    (d', Some e) \<Rightarrow> (d', Some (Errorf ''failed to create default admin: '' e []))
                  | (d', None) \<Rightarrow> (d', None)))
          else (d, Some (Errorf ''failed to query admin user: '' e [])))"

text \<open>The loop over the fake users; an error of \<open>Count\<close> leaves the count zero.\<close>

definition seed_fake :: "'d user_db \<Rightarrow> ('d \<Rightarrow> string \<Rightarrow> err + int) \<Rightarrow> string \<Rightarrow> fake \<Rightarrow> 'd \<Rightarrow> 'd" where
  "seed_fake U countEmail h f d =
     (let cnt = (case countEmail d (fk_Email f) of Inl e \<Rightarrow> 0 | Inr n \<Rightarrow> n) in
      if cnt > 0 then d else fst (udb_Create U d (fake_user f h)))"

fun seed_fakes ::
  "'d user_db \<Rightarrow> ('d \<Rightarrow> string \<Rightarrow> err + int) \<Rightarrow> string \<Rightarrow> (nat \<Rightarrow> fake) \<Rightarrow> nat \<Rightarrow> 'd \<Rightarrow> 'd" where
  "seed_fakes U countEmail h fakes 0 d = d"
| "seed_fakes U countEmail h fakes (Suc n) d =
     seed_fake U countEmail h (fakes n) (seed_fakes U countEmail h fakes n d)"

definition UserSeeder_Seed ::
  "bcrypt \<Rightarrow> 'd user_db \<Rightarrow> ('d \<Rightarrow> string \<Rightarrow> err + int) \<Rightarrow> int \<Rightarrow> draws \<Rightarrow> 'd \<Rightarrow> 'd \<times> err option" where
  "UserSeeder_Seed B U countEmail cnt dr d =
     (case seed_admin B U dr d of
        (d1, Some e) \<Rightarrow> (d1, Some e)
      | (d1, None) \<Rightarrow>
          (case HashPassword B (dr_salt dr) seedPassword of
             Inl e \<Rightarrow> (d1, Some (Errorf ''failed to hash default fake password: '' e []))
           | Inr h \<Rightarrow> (seed_fakes U countEmail h (dr_fakes dr) (nat cnt) d1, None)))"

definition user_seeder ::
  "bcrypt \<Rightarrow> 'd user_db \<Rightarrow> ('d \<Rightarrow> string \<Rightarrow> err + int) \<Rightarrow> int \<Rightarrow> draws \<Rightarrow> 'd seeder" where
  "user_seeder B U countEmail cnt dr =
     \<lparr>sdr_Name = ''UserSeeder'', sdr_Seed = UserSeeder_Seed B U countEmail cnt dr\<rparr>"

definition RunAll ::
  "bcrypt \<Rightarrow> 'd user_db \<Rightarrow> ('d \<Rightarrow> string \<Rightarrow> err + int) \<Rightarrow> draws \<Rightarrow> 'd \<Rightarrow> 'd \<times> err option" where
  "RunAll B U countEmail dr d =
     seeder_Run (seeder_NewRegistry [user_seeder B U countEmail (NewUserSeeder []) dr]) d"

section \<open>Lemmas\<close>

lemma seeder_Run_append:
  "seeder_Run (ss @ ts) d =
     (case seeder_Run ss d of (d', Some e) \<Rightarrow> (d', Some e) | (d', None) \<Rightarrow> seeder_Run ts d')"
  by (induction ss arbitrary: d) (auto split: option.splits prod.splits)

context user_store
begin

lemma create_grows: "udb_Create U d u = (d', e) \<Longrightarrow> rows d \<subseteq>\<^sub>m rows d'"
  by (cases e) (auto dest!: create_ok create_err simp: map_le_def)

lemma create_at_most: "udb_Create U d u = (d', e) \<Longrightarrow> dom (rows d') \<subseteq> insert (user_ID u) (dom (rows d))"
  by (cases e) (auto dest!: create_ok create_err)

lemma seed_fake_grows: "rows d \<subseteq>\<^sub>m rows (seed_fake U countEmail h f d)"
  using create_grows [OF prod.collapse [symmetric]] by (simp add: seed_fake_def Let_def)

lemma seed_fakes_grows: "rows d \<subseteq>\<^sub>m rows (seed_fakes U countEmail h fakes n d)"
  by (induction n) (auto intro: map_le_trans seed_fake_grows)

lemma seed_fakes_at_most:
  "dom (rows (seed_fakes U countEmail h fakes n d)) \<subseteq> dom (rows d) \<union> (\<lambda>i. fk_ID (fakes i)) ` {..<n}"
proof (induction n)
  case (Suc n)
  have "dom (rows (seed_fake U countEmail h (fakes n) e)) \<subseteq> insert (fk_ID (fakes n)) (dom (rows e))" for e
    using create_at_most [OF prod.collapse [symmetric], of e "fake_user (fakes n) h"]
    by (auto simp: seed_fake_def Let_def fake_user_def)
  from this [of "seed_fakes U countEmail h fakes n d"] Suc show ?case
    by (simp add: lessThan_Suc) blast
qed simp

lemma seed_admin_grows: "seed_admin B U dr d = (d', e) \<Longrightarrow> rows d \<subseteq>\<^sub>m rows d'"
  by (auto simp: seed_admin_def split: sum.splits if_splits prod.splits option.splits dest: create_grows)

lemma seed_admin_at_most:
  "seed_admin B U dr d = (d', e) \<Longrightarrow> dom (rows d') \<subseteq> insert (dr_adminID dr) (dom (rows d))"
  using create_at_most [of d "admin_user dr h" for h]
  by (auto simp: seed_admin_def admin_user_def split: sum.splits if_splits prod.splits option.splits)

lemma seed_admin_ok:
  assumes "seed_admin B U dr d = (d', None)"
  shows "(\<exists>u. rows d (user_ID u) = Some u \<and> user_Email u = adminEmail \<and> d' = d) \<or>
    (\<exists>h. HashPassword B (dr_adminSalt dr) seedPassword = Inr h \<and> rows d (dr_adminID dr) = None \<and>
       rows d' = (rows d)(dr_adminID dr \<mapsto> admin_user dr h))"
  using assms first_ok [of d "\<lambda>u. user_Email u = adminEmail"]
  by (fastforce simp: seed_admin_def admin_user_def split: sum.splits if_splits prod.splits option.splits
      dest: create_ok)

end

section \<open>Seeding\<close>

text \<open>A run is the administrator and then, if all went well, ten draws; \<open>n\<close> is the number used.\<close>

lemma RunAll_cases:
  assumes "RunAll B U countEmail dr d = (d', e)"
  obtains d1 e1 h n where "seed_admin B U dr d = (d1, e1)" "e = None \<Longrightarrow> e1 = None"
    "d' = seed_fakes U countEmail h (dr_fakes dr) n d1" "n \<le> 10"
proof -
  obtain d1 e1 where a: "seed_admin B U dr d = (d1, e1)" by (cases "seed_admin B U dr d")
  show ?thesis
  proof (cases "e1 = None \<and> (\<exists>h. HashPassword B (dr_salt dr) seedPassword = Inr h)")
    case True
    then obtain h where h: "e1 = None" "HashPassword B (dr_salt dr) seedPassword = Inr h" by blast
    show ?thesis
      by (rule that [OF a, of h 10])
        (use assms a h in \<open>simp_all add: RunAll_def seeder_NewRegistry_def user_seeder_def UserSeeder_Seed_def
          NewUserSeeder_def\<close>)
  next
    case False
    then show ?thesis
      by (intro that [OF a, of undefined 0])
        (use assms a in \<open>auto simp: RunAll_def seeder_NewRegistry_def user_seeder_def UserSeeder_Seed_def
          split: sum.splits option.splits\<close>)
  qed
qed

context user_store
begin

lemma RunAll_grows: "RunAll B U countEmail dr d = (d', e) \<Longrightarrow> rows d \<subseteq>\<^sub>m rows d'"
  by (elim RunAll_cases) (auto intro: map_le_trans seed_admin_grows seed_fakes_grows)

lemma RunAll_at_most:
  assumes "RunAll B U countEmail dr d = (d', e)"
  shows "card (dom (rows d')) \<le> card (dom (rows d)) + 11"
  using assms
proof (rule RunAll_cases)
  fix d1 e1 h n
  assume a: "seed_admin B U dr d = (d1, e1)" and d': "d' = seed_fakes U countEmail h (dr_fakes dr) n d1"
    and n: "n \<le> (10 :: nat)"
  let ?I = "(\<lambda>i. fk_ID (dr_fakes dr i)) ` {..<n}"
  have "dom (rows d') \<subseteq> insert (dr_adminID dr) (dom (rows d) \<union> ?I)"
    unfolding d' using seed_fakes_at_most [of countEmail h "dr_fakes dr" n d1] seed_admin_at_most [OF a] by blast
  then have "card (dom (rows d')) \<le> card (insert (dr_adminID dr) (dom (rows d) \<union> ?I))"
    by (intro card_mono) (simp_all add: rows_finite)
  also have "\<dots> \<le> Suc (card (dom (rows d) \<union> ?I))" by (simp add: card_insert_if rows_finite)
  also have "\<dots> \<le> Suc (card (dom (rows d)) + card ?I)" by (simp add: card_Un_le)
  also have "card ?I \<le> n" using card_image_le [of "{..<n}" "\<lambda>i. fk_ID (dr_fakes dr i)"] by simp
  finally show ?thesis using n by simp
qed

end

text \<open>
  C38. Running all seeders never loses or changes a user, whether it ends well or in an error, and
  adds at most eleven; after a run that ended well there is a user with the administrator's
  address, and a further run, with whatever draws, leaves this user as it is. A new administrator
  has the published password.
\<close>

theorem seeding_keeps_users:
  assumes U: "user_store U rows listing" and B: "bcrypt_ok B" and run: "RunAll B U countEmail dr d = (d', e)"
  shows "rows d \<subseteq>\<^sub>m rows d' \<and> card (dom (rows d')) \<le> card (dom (rows d)) + 11 \<and>
    (e = None \<longrightarrow> (\<exists>u. rows d' (user_ID u) = Some u \<and> user_Email u = adminEmail \<and>
       (rows d (user_ID u) = None \<longrightarrow> CheckPasswordHash B seedPassword (user_Password u)) \<and>
       (\<forall>dr'. rows (fst (RunAll B U countEmail dr' d')) (user_ID u) = Some u)))"
proof (intro conjI impI)
  show "rows d \<subseteq>\<^sub>m rows d'" "card (dom (rows d')) \<le> card (dom (rows d)) + 11"
    by (rule user_store.RunAll_grows [OF U run], rule user_store.RunAll_at_most [OF U run])
  assume "e = None"
  with run obtain d1 h n where a: "seed_admin B U dr d = (d1, None)"
    and d': "d' = seed_fakes U countEmail h (dr_fakes dr) n d1"
    by (metis RunAll_cases)
  have "\<exists>u. rows d1 (user_ID u) = Some u \<and> user_Email u = adminEmail \<and>
      (rows d (user_ID u) = None \<longrightarrow> CheckPasswordHash B seedPassword (user_Password u))"
    using user_store.seed_admin_ok [OF U a]
  proof (elim disjE exE conjE)
    fix h assume "HashPassword B (dr_adminSalt dr) seedPassword = Inr h"
      "rows d1 = (rows d)(dr_adminID dr \<mapsto> admin_user dr h)"
    then show ?thesis
      by (intro exI [of _ "admin_user dr h"]) (simp add: admin_user_def bcrypt_checks [OF B])
  qed auto
  then obtain u where u: "rows d1 (user_ID u) = Some u" "user_Email u = adminEmail"
    "rows d (user_ID u) = None \<longrightarrow> CheckPasswordHash B seedPassword (user_Password u)" by auto
  have keep: "f \<subseteq>\<^sub>m g \<Longrightarrow> f i = Some u \<Longrightarrow> g i = Some u" for f g :: "string \<rightharpoonup> user" and i
    unfolding map_le_def dom_def by (metis mem_Collect_eq option.distinct(1))
  have u': "rows d' (user_ID u) = Some u"
    unfolding d' by (rule keep [OF user_store.seed_fakes_grows [OF U] u(1)])
  have "rows (fst (RunAll B U countEmail dr' d')) (user_ID u) = Some u" for dr'
    by (rule keep [OF user_store.RunAll_grows [OF U prod.collapse [symmetric]] u'])
  with u u' show "\<exists>u. rows d' (user_ID u) = Some u \<and> user_Email u = adminEmail \<and>
       (rows d (user_ID u) = None \<longrightarrow> CheckPasswordHash B seedPassword (user_Password u)) \<and>
       (\<forall>dr'. rows (fst (RunAll B U countEmail dr' d')) (user_ID u) = Some u)"
    by (intro exI [of _ u]) simp
qed

definition mem_count_email :: "user list \<Rightarrow> string \<Rightarrow> err + int" where
  "mem_count_email us m = Inr (int (length (filter (\<lambda>u. user_Email u = m) us)))"

definition sample_draws :: draws where
  "sample_draws =
     \<lparr>dr_adminSalt = ''s'', dr_adminID = ''a1'', dr_adminCreatedAt = 1, dr_adminUpdatedAt = 1, dr_salt = ''t'',
      dr_fakes = (\<lambda>n. \<lparr>fk_Email = ''fake@x.org'', fk_Name = ''Fake'', fk_ID = ''f1'', fk_CreatedAt = 2, fk_UpdatedAt = 2\<rparr>)\<rparr>"

theorem seeding_keeps_users_witness:
  "let d = fst (RunAll mem_bcrypt mem_user_db mem_count_email sample_draws []) in
   \<exists>u. mem_user_rows d (user_ID u) = Some u \<and> user_Email u = ''admin@example.com''"
proof -
  have "snd (RunAll mem_bcrypt mem_user_db mem_count_email sample_draws []) = None" by code_simp
  then obtain d where d: "RunAll mem_bcrypt mem_user_db mem_count_email sample_draws [] = (d, None)"
    by (metis prod.collapse)
  from seeding_keeps_users [OF mem_users.user_store_axioms mem_bcrypt_ok d] d
  show ?thesis by (auto simp: adminEmail_def Let_def)
qed

end
