(* ===== verification/Application.thy ===== *)
theory Application
  imports Queue_Factory Database_Connection Log_Setup User_Usecase Router
begin

text \<open>
  The programs under \<open>cmd\<close>: what \<open>cmd/api\<close>, \<open>cmd/worker\<close>, \<open>cmd/migrate\<close> and \<open>cmd/seed\<close> do
  with the components, in order, and with which exit code they give up. What a program finds
  outside is a \<open>start_env\<close>: the settings, the registries as the packages' clients left them, and
  the libraries. A program that came up is a value \<open>Running\<close>; then what happens to its listener and
  the signals it gets are events, and its shutdown is a function of how the waits end. \<open>done\<close> says of a
  call of \<open>Stop\<close> or \<open>Close\<close> whether the workers finish before its timeout.

  Lemmas: when a program comes up; that shutting down a queue returns.
\<close>

section \<open>Queues of any kind\<close>

text \<open>A queue of a registered custom driver is used through the interfaces \<open>Queue\<close> and \<open>Worker\<close>.\<close>

record 'x custom_queue =
  cq_Start :: "'x \<Rightarrow> 'x \<times> err option"
  cq_Stop :: "bool \<Rightarrow> 'x \<Rightarrow> ('x \<times> err option) outcome"
  cq_Close :: "bool \<Rightarrow> 'x \<Rightarrow> ('x \<times> err option) outcome"

fun queue_Start ::
  "'x custom_queue \<Rightarrow> ('d, 'w, 'x) queue_instance \<Rightarrow> ('d, 'w, 'x) queue_instance \<times> err option" where
  "queue_Start X (DatabaseQueue q) = map_prod DatabaseQueue id (database_Start q)"
| "queue_Start X (MemoryQueue q) = map_prod MemoryQueue id (memory_Start q)"
| "queue_Start X (SyncQueue q) = map_prod SyncQueue id (sync_Start q)"
| "queue_Start X (RedisQueue q) = map_prod RedisQueue id (redis_Start q)"
| "queue_Start X (CustomQueue q) = map_prod CustomQueue id (cq_Start X q)"

fun outcome_map :: "('a \<Rightarrow> 'b) \<Rightarrow> 'a outcome \<Rightarrow> 'b outcome" where
  "outcome_map f (Ret x) = Ret (f x)"
| "outcome_map f (Panic msg) = Panic msg"

fun queue_Stop ::
  "'x custom_queue \<Rightarrow> duration \<Rightarrow> bool \<Rightarrow> ('d, 'w, 'x) queue_instance \<Rightarrow>
   (('d, 'w, 'x) queue_instance \<times> err option) outcome" where
  "queue_Stop X t done (DatabaseQueue q) = outcome_map (map_prod DatabaseQueue id) (database_Stop done q)"
| "queue_Stop X t done (MemoryQueue q) = outcome_map (map_prod MemoryQueue id) (memory_Stop done q)"
| "queue_Stop X t done (SyncQueue q) = Ret (map_prod SyncQueue id (sync_Stop q t))"
| "queue_Stop X t done (RedisQueue q) = outcome_map (map_prod RedisQueue id) (redis_Stop done q)"
| "queue_Stop X t done (CustomQueue q) = outcome_map (map_prod CustomQueue id) (cq_Stop X done q)"

fun queue_Close ::
  "'x custom_queue \<Rightarrow> bool \<Rightarrow> ('d, 'w, 'x) queue_instance \<Rightarrow>
   (('d, 'w, 'x) queue_instance \<times> err option) outcome" where
  "queue_Close X done (DatabaseQueue q) = outcome_map (map_prod DatabaseQueue id) (database_Close done q)"
| "queue_Close X done (MemoryQueue q) = outcome_map (map_prod MemoryQueue id) (memory_Close done q)"
| "queue_Close X done (SyncQueue q) = Ret (map_prod SyncQueue id (sync_Close q))"
| "queue_Close X done (RedisQueue q) = outcome_map (map_prod RedisQueue id) (redis_Close done q)"
| "queue_Close X done (CustomQueue q) = outcome_map (map_prod CustomQueue id) (cq_Close X done q)"

section \<open>Starting\<close>

record ('j, 'd, 'w, 'x, 'y, 'z, 'g, 't) start_env =
  se_viper :: viper
  se_log_drivers :: "'y log_drivers"
  se_db_drivers :: "'z dialector_builders"
  se_db_names :: "string list"
  se_gorm :: "('z, 'g) gorm_open"
  se_AutoMigrate :: "'g \<Rightarrow> entity list \<Rightarrow> err option"
  se_CloseDB :: "'g \<Rightarrow> err option"
  se_jobs :: "'g \<Rightarrow> 'j job_db"
  se_connect :: "string \<Rightarrow> string \<Rightarrow> int \<Rightarrow> 'd redis_ops"
  se_cache :: 'd
  se_smtp :: "'w smtp_ops"
  se_header_order :: "string list"
  se_templates :: "'t tmpl_ops"
  se_unmarshal :: "string \<Rightarrow> err + welcome_email_payload"
  se_year :: int
  se_queue_drivers :: "('j, 'd, 'w, 'x) builders"
  se_custom :: "'x custom_queue"

record ('d, 'w, 'x, 'y, 'g) app =
  ap_config :: config
  ap_log :: "'y log_handler \<times> 'y closer"
  ap_db :: "'g \<times> sql_pool"
  ap_redis :: "'d redis_client"
  ap_jwt :: jwt_service
  ap_mailer :: "'w mailer"
  ap_registry :: "'w registry"
  ap_queue :: "('d, 'w, 'x) queue_instance"

datatype 'a run = Exit int | Running 'a

definition mail_settings_config :: "mail_settings \<Rightarrow> mail_config" where
  "mail_settings_config m =
     \<lparr>mc_Driver = mail_Driver m, mc_Host = mail_Host m, mc_Port = mail_Port m,
      mc_Username = mail_Username m, mc_Password = mail_Password m, mc_FromAddress = mail_FromAddress m,
      mc_FromName = mail_FromName m, mc_Encryption = mail_Encryption m\<rparr>"

text \<open>The warning about the secret is all that happens: the program goes on with it.\<close>

definition weak_secret :: "config \<Rightarrow> bool" where
  "weak_secret cfg \<longleftrightarrow>
     app_Env (cfg_App cfg) = ''production'' \<and>
     (jwt_Secret (cfg_JWT cfg) = default_secret \<or> length (jwt_Secret (cfg_JWT cfg)) < 32)"

text \<open>The part that both services share: mailer, handlers and queue.\<close>

definition start_queue ::
  "('j, 'd, 'w, 'x, 'y, 'z, 'g, 't) start_env \<Rightarrow> config \<Rightarrow> 'g \<times> sql_pool \<Rightarrow> 'd redis_client \<Rightarrow>
   (err + ('d, 'w, 'x, 'y, 'g) app) outcome" where
  "start_queue E cfg db client =
     (let mailer = NewMailer (se_smtp E) (se_header_order E) (se_templates E)
                     (Some (mail_settings_config (cfg_Mail cfg)));
          reg = RegisterUserQueueHandlers (se_unmarshal E) (se_year E) NewRegistry (Some mailer)
      in outcome_map (map_sum id (\<lambda>q.
           \<lparr>ap_config = cfg, ap_log = InitLogger (se_log_drivers E) (cfg_Log cfg), ap_db = db, ap_redis = client,
            ap_jwt = NewJWTService (jwt_Secret (cfg_JWT cfg)) (jwt_ExpiryHours (cfg_JWT cfg)),
            ap_mailer = mailer, ap_registry = reg, ap_queue = q\<rparr>))
         (InitQueue (se_queue_drivers E) (cfg_Queue cfg) (Some reg) (Some (se_jobs E (fst db))) (Some client)))"

text \<open>\<open>cmd/api\<close>: the error of \<open>Start\<close> is ignored.\<close>

definition api_start ::
  "('j, 'd, 'w, 'x, 'y, 'z, 'g, 't) start_env \<Rightarrow> ('d, 'w, 'x, 'y, 'g) app run outcome" where
  "api_start E =
     (case LoadConfig (se_viper E) of
        Inl e \<Rightarrow> Ret (Exit 1)
      | Inr cfg \<Rightarrow>
          (case InitDB (se_db_drivers E) (se_gorm E) (se_db_names E) (cfg_Database cfg) (app_Env (cfg_App cfg)) of
             Inl e \<Rightarrow> Ret (Exit 1)
           | Inr db \<Rightarrow>
               if db_AutoMigrate (cfg_Database cfg) \<and> se_AutoMigrate E (fst db) Entities \<noteq> None then Ret (Exit 1)
               else case InitRedis (se_connect E) (cfg_Redis cfg) (se_cache E) of
                 Inl e \<Rightarrow> Ret (Exit 1)
               | Inr client \<Rightarrow>
                   outcome_map (\<lambda>r. case r of
                       Inl e \<Rightarrow> Exit 1
                     | Inr a \<Rightarrow> Running (a\<lparr>ap_queue := fst (queue_Start (se_custom E) (ap_queue a))\<rparr>))
                     (start_queue E cfg db client)))"

text \<open>\<open>cmd/worker\<close>: a failing migration is only logged, a failing \<open>Start\<close> is not.\<close>

definition worker_start ::
  "('j, 'd, 'w, 'x, 'y, 'z, 'g, 't) start_env \<Rightarrow> ('d, 'w, 'x, 'y, 'g) app run outcome" where
  "worker_start E =
     (case LoadConfig (se_viper E) of
        Inl e \<Rightarrow> Ret (Exit 1)
      | Inr cfg \<Rightarrow>
          (case InitDB (se_db_drivers E) (se_gorm E) (se_db_names E) (cfg_Database cfg) (app_Env (cfg_App cfg)) of
             Inl e \<Rightarrow> Ret (Exit 1)
           | Inr db \<Rightarrow>
               (case InitRedis (se_connect E) (cfg_Redis cfg) (se_cache E) of
                  Inl e \<Rightarrow> Ret (Exit 1)
                | Inr client \<Rightarrow>
                    outcome_map (\<lambda>r. case r of
                        Inl e \<Rightarrow> Exit 1
                      | Inr a \<Rightarrow>
                          (case queue_Start (se_custom E) (ap_queue a) of
                             (q, Some e) \<Rightarrow> Exit 1
                           | (q, None) \<Rightarrow> Running (a\<lparr>ap_queue := q\<rparr>)))
                      (start_queue E cfg db client))))"

text \<open>\<open>cmd/migrate\<close> and \<open>cmd/seed\<close> run to their end: the exit code. \<open>seed\<close> is \<open>seeder.RunAll\<close>.\<close>

definition migrate_main :: "('j, 'd, 'w, 'x, 'y, 'z, 'g, 't) start_env \<Rightarrow> int" where
  "migrate_main E =
     (case LoadConfig (se_viper E) of
        Inl e \<Rightarrow> 1
      | Inr cfg \<Rightarrow>
          (case InitDB (se_db_drivers E) (se_gorm E) (se_db_names E) (cfg_Database cfg) (app_Env (cfg_App cfg)) of
             Inl e \<Rightarrow> 1
           | Inr db \<Rightarrow> if se_AutoMigrate E (fst db) Entities \<noteq> None then 1 else 0))"

definition seed_main ::
  "('j, 'd, 'w, 'x, 'y, 'z, 'g, 't) start_env \<Rightarrow> ('g \<Rightarrow> 'r \<Rightarrow> 'r \<times> err option) \<Rightarrow> 'r \<Rightarrow> 'r \<times> int" where
  "seed_main E seed r =
     (case LoadConfig (se_viper E) of
        Inl e \<Rightarrow> (r, 1)
      | Inr cfg \<Rightarrow>
          (case InitDB (se_db_drivers E) (se_gorm E) (se_db_names E) (cfg_Database cfg) (app_Env (cfg_App cfg)) of
             Inl e \<Rightarrow> (r, 1)
           | Inr db \<Rightarrow>
               if se_AutoMigrate E (fst db) Entities \<noteq> None then (r, 1)
               else (case seed (fst db) r of (r', Some e) \<Rightarrow> (r', 1) | (r', None) \<Rightarrow> (r', 0))))"

section \<open>Wiring and shutdown\<close>

text \<open>
  The dependencies that \<open>cmd/api\<close> injects into the router. The dispatcher is that of the queue,
  on a state that holds it.
\<close>

definition api_router ::
  "('d, 'w, 'x, 'y, 'g) app \<Rightarrow> 'r user_repository_ops \<Rightarrow> 'q dispatcher \<Rightarrow> http_libs \<Rightarrow> 'r health_ops \<Rightarrow>
   'l limiter_ops \<Rightarrow> ('r, 'd, 'q, 'l) world handler_func \<Rightarrow> ('r, 'd, 'q, 'w, 'l) router_config" where
  "api_router a repo dispatch H HD M swagger =
     \<lparr>rcf_AppEnv = app_Env (cfg_App (ap_config a)), rcf_libs = H,
      rcf_usecase = NewUserUsecase repo (Some (ap_redis a)) (ap_jwt a) (Some dispatch) [ap_mailer a],
      rcf_health = HD, rcf_cache = Some (ap_redis a), rcf_JWTService = ap_jwt a,
      rcf_CORS = cfg_CORS (ap_config a), rcf_RateLimit = cfg_RateLimit (ap_config a), rcf_limiter = M,
      rcf_swagger = swagger\<rparr>"

text \<open>
  The queue, the Redis client and the database are closed in this order; an error is only logged, and
  the rest is closed nevertheless. The errors are those of the four calls.
\<close>

definition close_clients ::
  "('j, 'd, 'w, 'x, 'y, 'z, 'g, 't) start_env \<Rightarrow> ('d, 'w, 'x, 'y, 'g) app \<Rightarrow> 'd \<Rightarrow> 'd \<times> err option list" where
  "close_clients E a d =
     (let (d', e) = client_Close (Some (ap_redis a)) d
      in (d', [e, case go_DB (se_gorm E) (fst (ap_db a)) of
                    Some e' \<Rightarrow> None
                  | None \<Rightarrow> se_CloseDB E (fst (ap_db a))]))"

definition api_shutdown ::
  "('j, 'd, 'w, 'x, 'y, 'z, 'g, 't) start_env \<Rightarrow> bool \<Rightarrow> bool \<Rightarrow> ('d, 'w, 'x, 'y, 'g) app \<Rightarrow> 'd \<Rightarrow>
   (('d, 'w, 'x, 'y, 'g) app \<times> 'd \<times> err option list) outcome" where
  "api_shutdown E done done' a d =
     bind_outcome (queue_Stop (se_custom E) (5 * second) done (ap_queue a)) (\<lambda>(q1, e1).
       bind_outcome (queue_Close (se_custom E) done' q1) (\<lambda>(q2, e2).
         Ret (a\<lparr>ap_queue := q2\<rparr>, map_prod id (append [e1, e2]) (close_clients E a d))))"

definition worker_shutdown ::
  "('j, 'd, 'w, 'x, 'y, 'z, 'g, 't) start_env \<Rightarrow> bool \<Rightarrow> ('d, 'w, 'x, 'y, 'g) app \<Rightarrow> 'd \<Rightarrow>
   (('d, 'w, 'x, 'y, 'g) app \<times> 'd \<times> err option list) outcome" where
  "worker_shutdown E done a d =
     bind_outcome (queue_Stop (se_custom E) (15 * second) done (ap_queue a)) (\<lambda>(q1, e1).
       Ret (a\<lparr>ap_queue := q1\<rparr>, map_prod id (Cons e1) (close_clients E a d)))"

section \<open>Serving\<close>

record http_server =
  hs_Addr :: string
  hs_ReadTimeout :: duration
  hs_WriteTimeout :: duration
  hs_IdleTimeout :: duration

definition api_server :: "('d, 'w, 'x, 'y, 'g) app \<Rightarrow> http_server" where
  "api_server a =
     \<lparr>hs_Addr = '':'' @ app_Port (cfg_App (ap_config a)), hs_ReadTimeout = 15 * second,
      hs_WriteTimeout = 15 * second, hs_IdleTimeout = 60 * second\<rparr>"

text \<open>
  What \<open>main\<close> waits for: the goroutine of the listener gets an error from \<open>ListenAndServe\<close>, or a signal
  comes and \<open>srv.Shutdown\<close> ends with or without an error, which is only logged.
\<close>

datatype server_event = ListenReturned err | Signalled "err option"

definition http_ErrServerClosed :: err where
  "http_ErrServerClosed = ErrNew ''http: Server closed''"

text \<open>
  The exit code, or \<open>None\<close> as long as the program serves, and what it leaves. \<open>os.Exit\<close> in the goroutine
  runs none of the steps of the shutdown.
\<close>

fun api_serve ::
  "('j, 'd, 'w, 'x, 'y, 'z, 'g, 't) start_env \<Rightarrow> bool \<Rightarrow> bool \<Rightarrow> server_event list \<Rightarrow> ('d, 'w, 'x, 'y, 'g) app \<Rightarrow>
   'd \<Rightarrow> (int option \<times> ('d, 'w, 'x, 'y, 'g) app \<times> 'd) outcome" where
  "api_serve E done done' [] a d = Ret (None, a, d)"
| "api_serve E done done' (ListenReturned e # evs) a d =
     (if errors_is e http_ErrServerClosed then api_serve E done done' evs a d else Ret (Some 1, a, d))"
| "api_serve E done done' (Signalled e # evs) a d =
     bind_outcome (api_shutdown E done done' a d) (\<lambda>(a', d', es). Ret (Some 0, a', d'))"

fun worker_serve ::
  "('j, 'd, 'w, 'x, 'y, 'z, 'g, 't) start_env \<Rightarrow> bool \<Rightarrow> bool \<Rightarrow> ('d, 'w, 'x, 'y, 'g) app \<Rightarrow>
   'd \<Rightarrow> (int option \<times> ('d, 'w, 'x, 'y, 'g) app \<times> 'd) outcome" where
  "worker_serve E done False a d = Ret (None, a, d)"
| "worker_serve E done True a d =
     bind_outcome (worker_shutdown E done a d) (\<lambda>(a', d', es). Ret (Some 0, a', d'))"

section \<open>Lemmas\<close>

lemma outcome_map_Ret: "outcome_map f x = Ret y \<longleftrightarrow> (\<exists>z. x = Ret z \<and> y = f z)"
  by (cases x) auto

text \<open>A queue that was never started or stopped, as the builders make them.\<close>

fun fresh_queue :: "('d, 'w, 'x) queue_instance \<Rightarrow> bool" where
  "fresh_queue (DatabaseQueue q) \<longleftrightarrow> \<not> dd_running q \<and> \<not> dd_quit q"
| "fresh_queue (MemoryQueue q) \<longleftrightarrow> \<not> md_running q \<and> \<not> md_quit q \<and> \<not> md_chan_closed q"
| "fresh_queue (SyncQueue q) \<longleftrightarrow> True"
| "fresh_queue (RedisQueue q) \<longleftrightarrow> \<not> rd_running q \<and> \<not> rd_quit q"
| "fresh_queue (CustomQueue q) \<longleftrightarrow> False"

lemma fresh_builds:
  "database_builder cfg reg db = Inr q \<Longrightarrow> \<not> dd_running q \<and> \<not> dd_quit q"
  "\<not> md_running (memory_builder cfg reg)" "\<not> md_quit (memory_builder cfg reg)"
  "\<not> md_chan_closed (memory_builder cfg reg)"
  "\<not> rd_running (redis_builder cfg reg client)" "\<not> rd_quit (redis_builder cfg reg client)"
  by (auto simp: database_builder_def memory_builder_def redis_builder_def NewDatabaseDriver_def
      NewMemoryDriver_def NewRedisDriver_def split: option.splits)

lemma init_drivers_builtin: "queue_init_drivers n \<noteq> Some (CustomBuilder f)"
  by (simp add: queue_init_drivers_def queue_RegisterDriver_def register_lower_def)

lemma leaf_build_fresh:
  "queue_init_drivers n = b \<Longrightarrow> leaf_build b cfg r db client = Ret (Inr q) \<Longrightarrow> fresh_queue q"
  using init_drivers_builtin [of n]
  by (cases "database_builder cfg r db")
    (auto simp: leaf_build_def fresh_builds split: option.splits builder.splits)

lemma build_fresh:
  "build queue_init_drivers (queue_init_drivers n) cfg r db client = Ret (Inr q) \<Longrightarrow> fresh_queue q"
  by (auto simp: build_def fresh_builds split: option.splits builder.splits if_splits
      intro: leaf_build_fresh [OF refl] leaf_build_fresh)

lemma init_queue_fresh:
  fixes q :: "('d, 'w, 'x) queue_instance" and db :: "'j job_db option"
  assumes "InitQueue queue_init_drivers cfg reg db client = Ret (Inr q)"
  shows "fresh_queue q"
proof -
  let ?m = "queue_init_drivers :: ('j, 'd, 'w, 'x) builders"
  have "\<exists>n. (case ?m (queue_driver_name cfg) of None \<Rightarrow> ?m ''memory'' | Some b \<Rightarrow> Some b) = ?m n"
    by (auto split: option.split intro: exI [of _ "queue_driver_name cfg"])
  then obtain n where n: "(case ?m (queue_driver_name cfg) of None \<Rightarrow> ?m ''memory'' | Some b \<Rightarrow> Some b) = ?m n" ..
  from assms obtain x where x: "build ?m (?m n) cfg (registry_or_new reg) db client = Ret x"
    "(case x of Inl e \<Rightarrow> build ?m (?m ''memory'') cfg (registry_or_new reg) db client | Inr p \<Rightarrow> Ret (Inr p)) =
      Ret (Inr q)"
    unfolding InitQueue_def Let_def n by auto
  then show ?thesis by (cases x) (auto intro: build_fresh)
qed

text \<open>Started and stopped once, a fresh queue returns from \<open>Stop\<close>, and then \<open>Close\<close> has nothing to do.\<close>

lemma fresh_started_stops:
  assumes "fresh_queue q"
  shows "\<exists>q' e. queue_Stop X t done (fst (queue_Start X q)) = Ret (q', e) \<and> queue_Close X done' q' = Ret (q', None)"
proof (cases q)
  case (DatabaseQueue d)
  have "\<not> dd_quit (fst (database_Start d))" using assms DatabaseQueue by (simp add: database_lifecycle.start_quit)
  then obtain d' e where s: "database_Stop done (fst (database_Start d)) = Ret (d', e)"
    using database_lifecycle.stop_running [OF database_lifecycle.start_runs] by blast
  from database_lifecycle.stop_twice [OF s] s show ?thesis
    by (simp add: DatabaseQueue database_Close_def)
next
  case (MemoryQueue m)
  have "\<not> (md_quit (fst (memory_Start m)) \<or> md_chan_closed (fst (memory_Start m)))"
    using assms MemoryQueue memory_lifecycle.start_quit [of m] by simp
  then obtain m' e where s: "memory_Stop done (fst (memory_Start m)) = Ret (m', e)"
    using memory_lifecycle.stop_running [OF memory_lifecycle.start_runs] by blast
  from memory_lifecycle.stop_twice [OF s] s show ?thesis
    by (simp add: MemoryQueue memory_Close_def)
next
  case (RedisQueue r)
  have "\<not> rd_quit (fst (redis_Start r))" using assms RedisQueue by (simp add: redis_lifecycle.start_quit)
  then obtain r' e where s: "redis_Stop done (fst (redis_Start r)) = Ret (r', e)"
    using redis_lifecycle.stop_running [OF redis_lifecycle.start_runs] by blast
  from redis_lifecycle.stop_twice [OF s] s show ?thesis
    by (simp add: RedisQueue redis_Close_def)
qed (use assms in \<open>simp_all add: sync_Start_def sync_Stop_def sync_Close_def\<close>)

end
