(* ===== verification/Application_Properties.thy ===== *)
theory Application_Properties
  imports Application
begin

text \<open>
  Properties of the programs under \<open>cmd\<close>: when the API comes up, with what, and that its shutdown
  returns.
\<close>

section \<open>Starting\<close>

lemma api_start_returns:
  assumes ok: "builders_ok (se_queue_drivers E)" "se_queue_drivers E ''memory'' = Some MemoryBuilder"
  shows "\<exists>a. start_queue E cfg db client = Ret (Inr a) \<and>
    InitQueue (se_queue_drivers E) (cfg_Queue cfg) (Some (ap_registry a)) (Some (se_jobs E (fst db))) (Some client) =
      Ret (Inr (ap_queue a)) \<and>
    ap_config a = cfg \<and> Get (ap_registry a) JobWelcomeEmail =
      Some (welcome_handler (se_unmarshal E) (se_year E) (Some (ap_mailer a)))"
proof -
  let ?m = "NewMailer (se_smtp E) (se_header_order E) (se_templates E) (Some (mail_settings_config (cfg_Mail cfg)))"
  let ?r = "RegisterUserQueueHandlers (se_unmarshal E) (se_year E) NewRegistry (Some ?m)"
  obtain q where "InitQueue (se_queue_drivers E) (cfg_Queue cfg) (Some ?r) (Some (se_jobs E (fst db))) (Some client) =
      Ret (Inr q)"
    using InitQueue_succeeds [OF ok] by blast
  then show ?thesis
    by (simp add: start_queue_def Let_def RegisterUserQueueHandlers_def)
qed

text \<open>
  C39. With the built-in memory queue and with a driver under \<open>database\<close>, built-in or custom, where a custom
  constructor may fail but does not panic, the API never panics while it starts: it exits with code 1, or it comes up, and it comes up
  exactly when the configuration has a port, the database connects, the migration, if it is on,
  succeeds, and Redis answers, if it is on. No queue setting, unknown driver or failing driver
  keeps it from starting, and neither does a weak JWT secret in production. Once up, the handler
  of the welcome mail is registered.
\<close>

theorem api_start_outcome:
  assumes ok: "builders_ok (se_queue_drivers E)" "se_queue_drivers E ''memory'' = Some MemoryBuilder"
  shows "case api_start E of
      Panic msg \<Rightarrow> False
    | Ret (Exit n) \<Rightarrow> n = 1 \<and> \<not> (\<exists>cfg db client. LoadConfig (se_viper E) = Inr cfg \<and>
        InitDB (se_db_drivers E) (se_gorm E) (se_db_names E) (cfg_Database cfg) (app_Env (cfg_App cfg)) = Inr db \<and>
        (db_AutoMigrate (cfg_Database cfg) \<longrightarrow> se_AutoMigrate E (fst db) Entities = None) \<and>
        InitRedis (se_connect E) (cfg_Redis cfg) (se_cache E) = Inr client)
    | Ret (Running a) \<Rightarrow> LoadConfig (se_viper E) = Inr (ap_config a) \<and>
        (\<exists>db client. InitDB (se_db_drivers E) (se_gorm E) (se_db_names E) (cfg_Database (ap_config a))
           (app_Env (cfg_App (ap_config a))) = Inr db \<and>
         (db_AutoMigrate (cfg_Database (ap_config a)) \<longrightarrow> se_AutoMigrate E (fst db) Entities = None) \<and>
         InitRedis (se_connect E) (cfg_Redis (ap_config a)) (se_cache E) = Inr client) \<and>
        Get (ap_registry a) JobWelcomeEmail \<noteq> None"
proof (cases "LoadConfig (se_viper E)")
  case (Inl e)
  then show ?thesis by (simp add: api_start_def)
next
  case cfg: (Inr cfg)
  show ?thesis
  proof (cases "InitDB (se_db_drivers E) (se_gorm E) (se_db_names E) (cfg_Database cfg) (app_Env (cfg_App cfg))")
    case (Inl e)
    with cfg show ?thesis by (simp add: api_start_def)
  next
    case db: (Inr db)
    show ?thesis
    proof (cases "InitRedis (se_connect E) (cfg_Redis cfg) (se_cache E)")
      case (Inl e)
      with cfg db show ?thesis by (simp add: api_start_def)
    next
      case (Inr client)
      with cfg db api_start_returns [OF ok, of cfg db client] show ?thesis
        by (auto simp: api_start_def)
    qed
  qed
qed

section \<open>A concrete start\<close>

definition silent_smtp :: "nat smtp_ops" where
  "silent_smtp =
     \<lparr>sm_DialTLS = (\<lambda>a h w. (w, None)), sm_NewClient = (\<lambda>h w. (w, None)), sm_Auth = (\<lambda>a w. (w, None)),
      sm_Mail = (\<lambda>f w. (w, None)), sm_Rcpt = (\<lambda>r w. (w, None)), sm_Data = (\<lambda>w. (w, None)),
      sm_Write = (\<lambda>m w. (Suc w, None)), sm_CloseData = (\<lambda>w. (w, None)), sm_Quit = (\<lambda>w. (w, None)),
      sm_CloseClient = id, sm_CloseConn = id, sm_SendMail = (\<lambda>a au f to m w. (Suc w, None)), sm_Log = (\<lambda>r w. w)\<rparr>"

definition sample_env ::
  "(mem_table, mem_server, nat, unit, unit, unit, unit, unit) start_env" where
  "sample_env =
     \<lparr>se_viper = no_settings, se_log_drivers = logger_init_drivers, se_db_drivers = database_init_drivers,
      se_db_names = [''postgres'', ''mysql'', ''sqlite''],
      se_gorm = \<lparr>go_Open = (\<lambda>d l. Inr ()), go_DB = (\<lambda>g. None)\<rparr>,
      se_AutoMigrate = (\<lambda>g es. None), se_CloseDB = (\<lambda>g. None), se_jobs = (\<lambda>g. mem_job_db),
      se_connect = (\<lambda>a p n. mem_redis), se_cache = mem_server_empty,
      se_smtp = silent_smtp, se_header_order = header_keys,
      se_templates = \<lparr>tm_Parse = (\<lambda>p. Inr ()), tm_Execute = (\<lambda>t d. Inr ''hello'')\<rparr>,
      se_unmarshal = (\<lambda>s. Inl (ErrNew s)), se_year = 2026, se_queue_drivers = queue_init_drivers,
      se_custom = \<lparr>cq_Start = (\<lambda>x. (x, None)), cq_Stop = (\<lambda>b x. Ret (x, None)), cq_Close = (\<lambda>b x. Ret (x, None))\<rparr>\<rparr>"

lemma sample_env_drivers:
  "builders_ok (se_queue_drivers sample_env)" "se_queue_drivers sample_env ''memory'' = Some MemoryBuilder"
  by (simp_all add: sample_env_def builders_ok_init init_drivers_simps)

lemma sample_env_simps:
  "se_viper sample_env = no_settings" "se_db_drivers sample_env = database_init_drivers"
  "se_AutoMigrate sample_env = (\<lambda>g es. None)" "go_Open (se_gorm sample_env) d l = Inr ()"
  "go_DB (se_gorm sample_env) g = None"
  by (simp_all add: sample_env_def)

lemma sample_env_up: "\<exists>a. api_start sample_env = Ret (Running a)"
proof -
  obtain cfg where cfg: "LoadConfig no_settings = Inr cfg" "db_Driver (cfg_Database cfg) = ''sqlite''"
    "\<not> redis_Enabled (cfg_Redis cfg)"
    by (simp add: LoadConfig_def load_app_def load_database_def load_redis_def setting_def no_settings_def)
  obtain db where db: "InitDB database_init_drivers (se_gorm sample_env) (se_db_names sample_env) (cfg_Database cfg)
      (app_Env (cfg_App cfg)) = Inr db"
    by (simp add: InitDB_def cfg(2) database_init_simps sample_env_simps)
  obtain a where "start_queue sample_env cfg db \<lparr>rc_rdb = None, rc_enabled = False\<rparr> = Ret (Inr a)"
    using api_start_returns [OF sample_env_drivers, of cfg db "\<lparr>rc_rdb = None, rc_enabled = False\<rparr>"] by blast
  with cfg db show ?thesis by (simp add: api_start_def InitRedis_def sample_env_simps)
qed

theorem api_start_outcome_witness:
  "\<exists>a. api_start sample_env = Ret (Running a) \<and> Get (ap_registry a) JobWelcomeEmail \<noteq> None"
proof -
  obtain a where a: "api_start sample_env = Ret (Running a)" using sample_env_up by blast
  from api_start_outcome [OF sample_env_drivers] a show ?thesis by simp
qed

section \<open>Shutting down\<close>

lemma api_serve_first:
  assumes "api_shutdown E done done' a d = Ret (a', map_prod id (append es) dc)"
  shows "api_serve E done done' evs a d = Ret
      (case dropWhile (\<lambda>ev. case ev of ListenReturned e \<Rightarrow> errors_is e http_ErrServerClosed | _ \<Rightarrow> False) evs of
         [] \<Rightarrow> (None, a, d)
       | ListenReturned e # evs' \<Rightarrow> (Some 1, a, d)
       | Signalled e # evs' \<Rightarrow> (Some 0, a', fst dc))"
proof (induction evs)
  case (Cons ev evs)
  then show ?case using assms by (cases ev) (auto simp: split_beta)
qed simp

lemma running_iff:
  "Running a = (case z of Inl e \<Rightarrow> Exit 1 | Inr b \<Rightarrow> Running (f b)) \<longleftrightarrow> (\<exists>b. z = Inr b \<and> a = f b)"
  by (cases z) auto

text \<open>
  C40. With the built-in queue drivers, the shutdown of an API that came up returns, whatever the
  driver, and whether or not the workers finish within the five seconds: \<open>Stop\<close> closes the quit
  channel once, and the \<open>Close\<close> after it, on the same driver, finds nothing running.
  Then the Redis client and the database are closed, whatever the queue answered. So whatever happens
  to the listener and whenever a signal comes, the API goes on serving, or ends with code 0 after this
  shutdown when a signal comes first, or with code 1 when the listener fails first; but then it skips the
  shutdown, and leaves the jobs it is executing and its clients as they are.
\<close>

theorem api_shutdown_returns:
  assumes "se_queue_drivers E = queue_init_drivers" "api_start E = Ret (Running a)"
  shows "\<exists>q e. queue_Stop (se_custom E) (5 * second) done (ap_queue a) = Ret (q, e) \<and>
    queue_Close (se_custom E) done' q = Ret (q, None) \<and>
    api_shutdown E done done' a d =
      Ret (a\<lparr>ap_queue := q\<rparr>, map_prod id (append [e, None]) (close_clients E a d)) \<and>
    api_serve E done done' evs a d = Ret
      (case dropWhile (\<lambda>ev. case ev of ListenReturned e \<Rightarrow> errors_is e http_ErrServerClosed | _ \<Rightarrow> False) evs of
         [] \<Rightarrow> (None, a, d)
       | ListenReturned e # evs' \<Rightarrow> (Some 1, a, d)
       | Signalled e # evs' \<Rightarrow> (Some 0, a\<lparr>ap_queue := q\<rparr>, fst (close_clients E a d)))"
proof -
  have ok: "builders_ok (se_queue_drivers E)" "se_queue_drivers E ''memory'' = Some MemoryBuilder"
    by (simp_all add: assms(1) builders_ok_init init_drivers_simps)
  obtain cfg db client b where b: "start_queue E cfg db client = Ret (Inr b)"
    "a = b\<lparr>ap_queue := fst (queue_Start (se_custom E) (ap_queue b))\<rparr>"
    using assms(2) by (auto simp: api_start_def outcome_map_Ret running_iff split: sum.split_asm if_splits)
  from api_start_returns [OF ok, of cfg db client] b(1)
  have "InitQueue queue_init_drivers (cfg_Queue cfg) (Some (ap_registry b)) (Some (se_jobs E (fst db))) (Some client) =
      Ret (Inr (ap_queue b))"
    by (auto simp: assms(1))
  from fresh_started_stops [OF init_queue_fresh [OF this], of "se_custom E" "5 * second" "done" done']
  obtain q e where "queue_Stop (se_custom E) (5 * second) done (ap_queue a) = Ret (q, e)"
    "queue_Close (se_custom E) done' q = Ret (q, None)"
    by (auto simp: b(2))
  then have q: "queue_Stop (se_custom E) (5 * second) done (ap_queue a) = Ret (q, e)"
    "queue_Close (se_custom E) done' q = Ret (q, None)"
    "api_shutdown E done done' a d = Ret (a\<lparr>ap_queue := q\<rparr>, map_prod id (append [e, None]) (close_clients E a d))"
    by (simp_all add: api_shutdown_def)
  have "api_serve E done done' evs a d = Ret
      (case dropWhile (\<lambda>ev. case ev of ListenReturned e \<Rightarrow> errors_is e http_ErrServerClosed | _ \<Rightarrow> False) evs of
         [] \<Rightarrow> (None, a, d)
       | ListenReturned e # evs' \<Rightarrow> (Some 1, a, d)
       | Signalled e # evs' \<Rightarrow> (Some 0, a\<lparr>ap_queue := q\<rparr>, fst (close_clients E a d)))"
    by (rule api_serve_first [OF q(3)])
  with q show ?thesis by blast
qed

theorem api_shutdown_returns_witness:
  "\<exists>a r. api_start sample_env = Ret (Running a) \<and> api_shutdown sample_env False True a mem_server_empty = Ret r"
proof -
  obtain a where a: "api_start sample_env = Ret (Running a)" using sample_env_up by blast
  have "se_queue_drivers sample_env = queue_init_drivers" by (simp add: sample_env_def)
  from api_shutdown_returns [OF this a] a show ?thesis by blast
qed

end
