(* ===== verification/User_Interleaving.thy ===== *)
theory User_Interleaving
  imports User_Read_Properties
begin

text \<open>
  The server handles requests in goroutines of their own, so the calls of
  \<open>internal/usecase/user_usecase.go\<close> overlap. \<open>call_step\<close> is one call up to its next access to the
  database, the cache or the queue: what is left of it, or its reply. Run without interruption it is the
  operation of \<open>User_Usecase\<close> (\<open>register_runs\<close> and so on). \<open>server_step\<close> interleaves any number of calls,
  entries that expire and the workers of the queue. Logins and the listing change nothing and are left out.

  \<open>us_seen\<close> observes which users the table has held under an identifier, \<open>us_created\<close> the users that
  registrations inserted. Lemmas: what a step reads and writes; the invariant of the interleaving.
\<close>

section \<open>Calls in steps\<close>

datatype user_call =
    RegisterCall create_user_request string string instant instant
  | RegisterInsert user
  | RegisterWelcome user
  | GetCall string
  | GetLoad string
  | GetStore string user_response
  | UpdateCall string update_user_request instant
  | UpdateCheck string update_user_request instant user
  | UpdateSave string user
  | UpdateForget string user
  | DeleteCall string
  | DeleteForget string

datatype user_reply =
    Registered "err + user_response"
  | Found string "err + user_response option"
  | Updated string "err + user_response"
  | Deleted string "err option"
  | Died string

type_synonym ('r, 'd, 'q) progress = "('r, 'd, 'q) app_state \<times> (user_call + user_reply)"

text \<open>\<open>Register\<close>\<close>

definition register_check ::
  "libs \<Rightarrow> ('r, 'd, 'q, 'w) user_usecase \<Rightarrow> create_user_request \<Rightarrow> string \<Rightarrow> string \<Rightarrow> instant \<Rightarrow> instant \<Rightarrow>
   ('r, 'd, 'q) app_state \<Rightarrow> ('r, 'd, 'q) progress" where
  "register_check L uc req salt uuid t1 t2 s =
     (case repo_FindByEmail (uu_userRepo uc) (as_repo s) (cur_Email req) of
        Inr existing \<Rightarrow> (s, Inr (Registered (Inl ErrAlreadyExists)))
      | Inl e0 \<Rightarrow>
          (case HashPassword (lib_bcrypt L) salt (cur_Password req) of
             Inl e \<Rightarrow> (s, Inr (Registered (Inl e)))
           | Inr hashed \<Rightarrow>
               (s, Inl (RegisterInsert
                 \<lparr>user_ID = uuid, user_Name = cur_Name req, user_Email = cur_Email req,
                  user_Password = hashed, user_CreatedAt = t1, user_UpdatedAt = t2\<rparr>))))"

definition register_insert ::
  "('r, 'd, 'q, 'w) user_usecase \<Rightarrow> user \<Rightarrow>
   ('r, 'd, 'q) app_state \<Rightarrow> ('r, 'd, 'q) progress" where
  "register_insert uc u s =
     (case repo_Create (uu_userRepo uc) (as_repo s) u of
        (r', Some e) \<Rightarrow> (s\<lparr>as_repo := r'\<rparr>, Inr (Registered (Inl e)))
      | (r', None) \<Rightarrow> (s\<lparr>as_repo := r'\<rparr>, Inl (RegisterWelcome u)))"

definition register_welcome ::
  "('r, 'd, 'q, 'w) user_usecase \<Rightarrow> user \<Rightarrow>
   ('r, 'd, 'q) app_state \<Rightarrow> ('r, 'd, 'q) progress" where
  "register_welcome uc u s =
     (case dispatch_welcome uc RequestContext u (as_queue s) of
        Panic msg \<Rightarrow> (s, Inr (Died msg))
      | Ret q' \<Rightarrow> (s\<lparr>as_queue := q'\<rparr>, Inr (Registered (Inr (ToResponse u)))))"

text \<open>\<open>GetByID\<close>, with \<open>redis.Remember\<close>\<close>

definition get_lookup ::
  "libs \<Rightarrow> ('r, 'd, 'q, 'w) user_usecase \<Rightarrow> string \<Rightarrow>
   ('r, 'd, 'q) app_state \<Rightarrow> ('r, 'd, 'q) progress" where
  "get_lookup L uc i s =
     (case GetJSON (lib_dec L) (uu_cache uc) (user_cache_key i) (as_cache s) of
        Inr (Some cached) \<Rightarrow> (s, Inr (Found i (Inr (Some cached))))
      | _ \<Rightarrow> (s, Inl (GetLoad i)))"

definition get_load ::
  "('r, 'd, 'q, 'w) user_usecase \<Rightarrow> string \<Rightarrow>
   ('r, 'd, 'q) app_state \<Rightarrow> ('r, 'd, 'q) progress" where
  "get_load uc i s =
     (case repo_FindByID (uu_userRepo uc) (as_repo s) i of
        Inl e \<Rightarrow> (s, Inr (Found i (Inl e)))
      | Inr u \<Rightarrow> (s, Inl (GetStore i (ToResponse u))))"

definition get_store ::
  "libs \<Rightarrow> ('r, 'd, 'q, 'w) user_usecase \<Rightarrow> string \<Rightarrow> user_response \<Rightarrow>
   ('r, 'd, 'q) app_state \<Rightarrow> ('r, 'd, 'q) progress" where
  "get_store L uc i x s =
     (s\<lparr>as_cache := fst (SetJSON (lib_enc L) (uu_cache uc) (user_cache_key i) x (10 * minute) (as_cache s))\<rparr>,
      Inr (Found i (Inr (Some x))))"

text \<open>\<open>Update\<close>\<close>

definition update_find ::
  "('r, 'd, 'q, 'w) user_usecase \<Rightarrow> string \<Rightarrow> update_user_request \<Rightarrow> instant \<Rightarrow>
   ('r, 'd, 'q) app_state \<Rightarrow> ('r, 'd, 'q) progress" where
  "update_find uc i req now s =
     (case repo_FindByID (uu_userRepo uc) (as_repo s) i of
        Inl e \<Rightarrow> (s, Inr (Updated i (Inl e)))
      | Inr u \<Rightarrow>
          let u1 = updated_name req u in
          if uur_Email req \<noteq> [] \<and> uur_Email req \<noteq> user_Email u1 then (s, Inl (UpdateCheck i req now u1))
          else (s, Inl (UpdateSave i (u1\<lparr>user_UpdatedAt := now\<rparr>))))"

definition update_check ::
  "('r, 'd, 'q, 'w) user_usecase \<Rightarrow> string \<Rightarrow> update_user_request \<Rightarrow> instant \<Rightarrow> user \<Rightarrow>
   ('r, 'd, 'q) app_state \<Rightarrow> ('r, 'd, 'q) progress" where
  "update_check uc i req now u1 s =
     (if (case repo_FindByEmail (uu_userRepo uc) (as_repo s) (uur_Email req) of
            Inl e \<Rightarrow> False | Inr existing \<Rightarrow> user_ID existing \<noteq> i)
      then (s, Inr (Updated i (Inl ErrAlreadyExists)))
      else (s, Inl (UpdateSave i (u1\<lparr>user_Email := uur_Email req, user_UpdatedAt := now\<rparr>))))"

definition update_save ::
  "('r, 'd, 'q, 'w) user_usecase \<Rightarrow> string \<Rightarrow> user \<Rightarrow>
   ('r, 'd, 'q) app_state \<Rightarrow> ('r, 'd, 'q) progress" where
  "update_save uc i u s =
     (case repo_Update (uu_userRepo uc) (as_repo s) u of
        (r', Some e) \<Rightarrow> (s\<lparr>as_repo := r'\<rparr>, Inr (Updated i (Inl e)))
      | (r', None) \<Rightarrow> (s\<lparr>as_repo := r'\<rparr>, Inl (UpdateForget i u)))"

definition update_forget ::
  "('r, 'd, 'q, 'w) user_usecase \<Rightarrow> string \<Rightarrow> user \<Rightarrow>
   ('r, 'd, 'q) app_state \<Rightarrow> ('r, 'd, 'q) progress" where
  "update_forget uc i u s =
     (s\<lparr>as_cache := fst (Invalidate (uu_cache uc) [user_cache_key i] (as_cache s))\<rparr>,
      Inr (Updated i (Inr (ToResponse u))))"

text \<open>\<open>Delete\<close>\<close>

definition delete_row ::
  "('r, 'd, 'q, 'w) user_usecase \<Rightarrow> string \<Rightarrow>
   ('r, 'd, 'q) app_state \<Rightarrow> ('r, 'd, 'q) progress" where
  "delete_row uc i s =
     (case repo_Delete (uu_userRepo uc) (as_repo s) i of
        (r', Some e) \<Rightarrow> (s\<lparr>as_repo := r'\<rparr>, Inr (Deleted i (Some e)))
      | (r', None) \<Rightarrow> (s\<lparr>as_repo := r'\<rparr>, Inl (DeleteForget i)))"

definition delete_forget ::
  "('r, 'd, 'q, 'w) user_usecase \<Rightarrow> string \<Rightarrow>
   ('r, 'd, 'q) app_state \<Rightarrow> ('r, 'd, 'q) progress" where
  "delete_forget uc i s =
     (s\<lparr>as_cache := fst (Invalidate (uu_cache uc) [user_cache_key i] (as_cache s))\<rparr>,
      Inr (Deleted i None))"

fun call_step ::
  "libs \<Rightarrow> ('r, 'd, 'q, 'w) user_usecase \<Rightarrow> user_call \<Rightarrow> ('r, 'd, 'q) app_state \<Rightarrow> ('r, 'd, 'q) progress" where
  "call_step L uc (RegisterCall req salt uuid t1 t2) = register_check L uc req salt uuid t1 t2"
| "call_step L uc (RegisterInsert u) = register_insert uc u"
| "call_step L uc (RegisterWelcome u) = register_welcome uc u"
| "call_step L uc (GetCall i) = get_lookup L uc i"
| "call_step L uc (GetLoad i) = get_load uc i"
| "call_step L uc (GetStore i x) = get_store L uc i x"
| "call_step L uc (UpdateCall i req now) = update_find uc i req now"
| "call_step L uc (UpdateCheck i req now u1) = update_check uc i req now u1"
| "call_step L uc (UpdateSave i u) = update_save uc i u"
| "call_step L uc (UpdateForget i u) = update_forget uc i u"
| "call_step L uc (DeleteCall i) = delete_row uc i"
| "call_step L uc (DeleteForget i) = delete_forget uc i"

lemmas call_step_defs [simp] =
  register_check_def register_insert_def register_welcome_def get_lookup_def get_load_def get_store_def
  update_find_def update_check_def update_save_def update_forget_def delete_row_def delete_forget_def

text \<open>At most \<open>n\<close> steps of a call with nothing in between.\<close>

fun call_run ::
  "nat \<Rightarrow> libs \<Rightarrow> ('r, 'd, 'q, 'w) user_usecase \<Rightarrow> user_call \<Rightarrow> ('r, 'd, 'q) app_state \<Rightarrow>
   ('r, 'd, 'q) app_state \<times> (user_call + user_reply)" where
  "call_run 0 L uc c s = (s, Inl c)"
| "call_run (Suc n) L uc c s =
     (case call_step L uc c s of
        (s', Inl c') \<Rightarrow> call_run n L uc c' s'
      | (s', Inr r) \<Rightarrow> (s', Inr r))"

fun outcome_reply :: "(err + user_response) outcome \<Rightarrow> user_reply" where
  "outcome_reply (Ret r) = Registered r"
| "outcome_reply (Panic msg) = Died msg"

lemma app_state_same [simp]: "s\<lparr>as_repo := as_repo s\<rparr> = s" "s\<lparr>as_cache := as_cache s\<rparr> = (s :: ('r, 'd, 'q) app_state)"
  by simp_all

lemma register_runs:
  "call_run 3 L uc (RegisterCall req salt uuid t1 t2) s =
    map_prod id (Inr \<circ> outcome_reply) (usecase_Register L uc RequestContext req salt uuid t1 t2 s)"
  by (auto simp: eval_nat_numeral usecase_Register_def Let_def
      split: sum.splits prod.splits option.splits outcome.splits)

lemma get_runs:
  "call_run 3 L uc (GetCall i) s = map_prod id (Inr \<circ> Found i) (usecase_GetByID L uc i s)"
  by (auto simp: eval_nat_numeral usecase_GetByID_def Remember_def fetch_user_def
      split: sum.splits prod.splits option.splits)

lemma update_save_runs:
  "call_run 2 L uc (UpdateSave i u) s = map_prod id (Inr \<circ> Updated i) (update_commit uc i u s)"
  by (auto simp: eval_nat_numeral update_commit_def split: prod.splits option.splits)

lemma update_runs:
  "call_run 4 L uc (UpdateCall i req now) s = map_prod id (Inr \<circ> Updated i) (usecase_Update uc i req now s)"
proof (cases "repo_FindByID (uu_userRepo uc) (as_repo s) i")
  case (Inl e)
  then show ?thesis by (simp add: eval_nat_numeral usecase_Update_def update_prepare_def)
next
  case (Inr u)
  let ?u = "updated_name req u"
  let ?change = "uur_Email req \<noteq> [] \<and> uur_Email req \<noteq> user_Email ?u"
  let ?taken = "case repo_FindByEmail (uu_userRepo uc) (as_repo s) (uur_Email req) of
    Inl e \<Rightarrow> False | Inr existing \<Rightarrow> user_ID existing \<noteq> i"
  consider (same) "\<not> ?change" | (taken) "?change" ?taken | (free) "?change" "\<not> ?taken" by blast
  then show ?thesis
  proof cases
    case same
    let ?v = "?u\<lparr>user_UpdatedAt := now\<rparr>"
    from same Inr have "call_step L uc (UpdateCall i req now) s = (s, Inl (UpdateSave i ?v))"
      and prep: "update_prepare uc i req now (as_repo s) = Inr ?v"
      by (cases "uur_Email req = []"; simp add: update_prepare_def Let_def)+
    then have "call_run 4 L uc (UpdateCall i req now) s = call_run 2 L uc (UpdateSave i ?v) s"
      by (simp add: eval_nat_numeral split: prod.split option.split)
    then show ?thesis by (simp add: update_save_runs usecase_Update_def prep)
  next
    case taken
    with Inr show ?thesis
      by (simp add: eval_nat_numeral Let_def usecase_Update_def update_prepare_def)
  next
    case free
    let ?v = "?u\<lparr>user_Email := uur_Email req, user_UpdatedAt := now\<rparr>"
    have "call_run 4 L uc (UpdateCall i req now) s = call_run 2 L uc (UpdateSave i ?v) s"
      using Inr free by (simp add: eval_nat_numeral Let_def del: update_save_def)
    then show ?thesis
      using free Inr by (simp add: update_save_runs usecase_Update_def update_prepare_def Let_def)
  qed
qed

lemma delete_runs:
  "call_run 2 L uc (DeleteCall i) s = map_prod id (Inr \<circ> Deleted i) (usecase_Delete uc i s)"
  by (auto simp: eval_nat_numeral usecase_Delete_def split: prod.splits option.splits)

section \<open>Any number of calls\<close>

record ('r, 'd, 'q) user_server =
  us_app :: "('r, 'd, 'q) app_state"
  us_calls :: "user_call list"
  us_replies :: "(user_call \<times> user_reply) list" \<comment> \<open>with the step that gave the reply\<close>
  us_seen :: "string \<Rightarrow> user set"
  us_created :: "user list"

definition server_boot ::
  "('r \<Rightarrow> string \<rightharpoonup> user) \<Rightarrow> ('r, 'd, 'q) app_state \<Rightarrow> ('r, 'd, 'q) user_server" where
  "server_boot users a =
     \<lparr>us_app = a, us_calls = [], us_replies = [], us_seen = (\<lambda>i. set_option (users (as_repo a) i)),
      us_created = []\<rparr>"

definition see :: "(string \<Rightarrow> user set) \<Rightarrow> (string \<rightharpoonup> user) \<Rightarrow> string \<Rightarrow> user set" where
  "see seen t i = seen i \<union> set_option (t i)"

fun is_request :: "user_call \<Rightarrow> bool" where
  "is_request (RegisterCall req salt uuid t1 t2) = True"
| "is_request (GetCall i) = True"
| "is_request (UpdateCall i req now) = True"
| "is_request (DeleteCall i) = True"
| "is_request _ = False"

fun welcomes :: "user_call \<Rightarrow> user list" where
  "welcomes (RegisterWelcome u) = [u]"
| "welcomes _ = []"

text \<open>The \<open>k\<close>th call in progress makes a step.\<close>

definition server_advance ::
  "libs \<Rightarrow> ('r, 'd, 'q, 'w) user_usecase \<Rightarrow> ('r \<Rightarrow> string \<rightharpoonup> user) \<Rightarrow> nat \<Rightarrow>
   ('r, 'd, 'q) user_server \<Rightarrow> ('r, 'd, 'q) user_server option" where
  "server_advance L uc users k s =
     (if k < length (us_calls s) then
        (case call_step L uc (us_calls s ! k) (us_app s) of
           (a, Inl c) \<Rightarrow>
             Some (s\<lparr>us_app := a, us_calls := (us_calls s)[k := c],
                     us_seen := see (us_seen s) (users (as_repo a)), us_created := us_created s @ welcomes c\<rparr>)
         | (a, Inr r) \<Rightarrow>
             Some (s\<lparr>us_app := a, us_calls := remove_at k (us_calls s),
                     us_seen := see (us_seen s) (users (as_repo a)),
                     us_replies := us_replies s @ [(us_calls s ! k, r)]\<rparr>))
      else None)"

text \<open>\<open>work\<close> is whatever the workers of the queue do to it.\<close>

inductive server_step ::
  "libs \<Rightarrow> ('r, 'd, 'q, 'w) user_usecase \<Rightarrow> ('r \<Rightarrow> string \<rightharpoonup> user) \<Rightarrow> ('d \<Rightarrow> string \<rightharpoonup> string) \<Rightarrow>
   ('r, 'd, 'q) user_server \<Rightarrow> ('r, 'd, 'q) user_server \<Rightarrow> bool" for L uc users strs where
  arrive: "is_request c \<Longrightarrow> server_step L uc users strs s (s\<lparr>us_calls := us_calls s @ [c]\<rparr>)"
| advance: "server_advance L uc users k s = Some t \<Longrightarrow> server_step L uc users strs s t"
| expire: "strs d' \<subseteq>\<^sub>m strs (as_cache (us_app s)) \<Longrightarrow>
    server_step L uc users strs s (s\<lparr>us_app := (us_app s)\<lparr>as_cache := d'\<rparr>\<rparr>)"
| work: "server_step L uc users strs s (s\<lparr>us_app := (us_app s)\<lparr>as_queue := q'\<rparr>\<rparr>)"

section \<open>The invariant\<close>

text \<open>Only users the table has held under an identifier are cached, on their way, or answered for it.\<close>

definition version_of :: "(string \<Rightarrow> user set) \<Rightarrow> string \<Rightarrow> user_response \<Rightarrow> bool" where
  "version_of seen i x \<longleftrightarrow> (\<exists>u \<in> seen i. x = ToResponse u)"

definition entries_seen ::
  "(string \<Rightarrow> err + user_response) \<Rightarrow> (string \<Rightarrow> user set) \<Rightarrow> (string \<rightharpoonup> string) \<Rightarrow> bool" where
  "entries_seen dec seen c \<longleftrightarrow>
     (\<forall>i v. c (user_cache_key i) = Some v \<longrightarrow> (\<exists>x. dec v = Inr x \<and> version_of seen i x))"

fun call_ok :: "(string \<Rightarrow> user set) \<Rightarrow> user_call \<Rightarrow> bool" where
  "call_ok seen (RegisterWelcome u) \<longleftrightarrow> u \<in> seen (user_ID u)"
| "call_ok seen (GetStore i x) \<longleftrightarrow> version_of seen i x"
| "call_ok seen (UpdateCheck i req now u) \<longleftrightarrow> user_ID u = i"
| "call_ok seen (UpdateSave i u) \<longleftrightarrow> user_ID u = i"
| "call_ok seen (UpdateForget i u) \<longleftrightarrow> u \<in> seen i"
| "call_ok seen _ \<longleftrightarrow> True"

fun reply_ok :: "(string \<Rightarrow> user set) \<Rightarrow> user_reply \<Rightarrow> bool" where
  "reply_ok seen (Registered (Inr x)) \<longleftrightarrow> version_of seen (ur_ID x) x"
| "reply_ok seen (Found i (Inr r)) \<longleftrightarrow> (\<exists>x. r = Some x \<and> version_of seen i x)"
| "reply_ok seen (Updated i (Inr x)) \<longleftrightarrow> version_of seen i x"
| "reply_ok seen _ \<longleftrightarrow> True"

lemma version_mono: "version_of seen i x \<Longrightarrow> seen \<le> seen' \<Longrightarrow> version_of seen' i x"
  by (force simp: version_of_def le_fun_def)

lemma call_ok_mono: "call_ok seen c \<Longrightarrow> seen \<le> seen' \<Longrightarrow> call_ok seen' c"
  by (cases c) (auto intro: version_mono simp: le_fun_def)

lemma reply_ok_mono: "reply_ok seen r \<Longrightarrow> seen \<le> seen' \<Longrightarrow> reply_ok seen' r"
  by (cases "(seen, r)" rule: reply_ok.cases) (auto intro: version_mono)

lemma entries_seen_mono: "entries_seen dec seen c \<Longrightarrow> seen \<le> seen' \<Longrightarrow> entries_seen dec seen' c"
  unfolding entries_seen_def using version_mono by meson

lemma entries_seen_submap: "entries_seen dec seen c \<Longrightarrow> c' \<subseteq>\<^sub>m c \<Longrightarrow> entries_seen dec seen c'"
  by (auto simp: entries_seen_def map_le_def dom_def)

lemma entries_seen_set:
  "entries_seen dec seen c \<Longrightarrow> dec v = Inr x \<Longrightarrow> version_of seen i x \<Longrightarrow>
   entries_seen dec seen (c(user_cache_key i \<mapsto> v))"
  by (auto simp: entries_seen_def)

lemma is_request_ok: "is_request c \<Longrightarrow> call_ok seen c \<and> welcomes c = []"
  by (cases c) auto

lemma seen_see: "seen \<le> see seen t" "t i = Some u \<Longrightarrow> u \<in> see seen t i"
  by (auto simp: see_def le_fun_def)

lemma seen_row: "\<forall>u. t i = Some u \<longrightarrow> u \<in> seen i \<Longrightarrow> t i = Some u \<Longrightarrow> version_of seen i (ToResponse u)"
  by (auto simp: version_of_def)

text \<open>The result of a step.\<close>

definition step_ok :: "(string \<Rightarrow> user set) \<Rightarrow> user_call + user_reply \<Rightarrow> bool" where
  "step_ok seen x \<longleftrightarrow> (case x of Inl c \<Rightarrow> call_ok seen c | Inr r \<Rightarrow> reply_ok seen r)"

context user_repository
begin

lemma call_step_ok:
  assumes uc: "uu_userRepo uc = repo" and ok: "call_ok seen c"
    and rows: "\<And>i u. users (as_repo s) i = Some u \<Longrightarrow> u \<in> seen i"
    and entry: "\<And>i x. GetJSON (lib_dec L) (uu_cache uc) (user_cache_key i) (as_cache s) = Inr (Some x) \<Longrightarrow>
      version_of seen i x"
    and step: "call_step L uc c s = (s', x)"
  shows "step_ok (see seen (users (as_repo s'))) x"
proof (cases c)
  case (RegisterInsert u)
  with step uc show ?thesis using repo_create_ok [of "as_repo s" u "as_repo s'"]
    by (auto simp: step_ok_def split: prod.splits option.splits intro!: seen_see(2))
next
  case (RegisterWelcome u)
  with step ok show ?thesis
    by (auto simp: step_ok_def version_of_def see_def split: outcome.splits)
next
  case (GetCall i)
  with step show ?thesis using version_mono [OF entry seen_see(1)]
    by (auto simp: step_ok_def split: sum.splits option.splits)
next
  case (GetLoad i)
  with step uc show ?thesis using repo_id_ok [of "as_repo s" i] rows
    by (auto simp: step_ok_def version_of_def see_def split: sum.splits)
next
  case (GetStore i y)
  with step ok show ?thesis using version_mono [OF _ seen_see(1)] by (auto simp: step_ok_def)
next
  case (UpdateCall i req now)
  have "user_ID (updated_name req u) = i" if "repo_FindByID repo (as_repo s) i = Inr u" for u
    using user_key [OF repo_id_ok [OF that]] by (simp add: updated_name_def)
  with UpdateCall step uc show ?thesis
    by (auto simp: step_ok_def Let_def split: sum.splits if_splits)
next
  case (UpdateCheck i req now u)
  with step ok show ?thesis by (auto simp: step_ok_def split: if_splits)
next
  case (UpdateSave i u)
  with step ok uc show ?thesis using repo_update_ok [of "as_repo s" u "as_repo s'"]
    by (auto simp: step_ok_def split: prod.splits option.splits intro!: seen_see(2))
next
  case (UpdateForget i u)
  with step ok show ?thesis by (auto simp: step_ok_def version_of_def see_def)
qed (use step in \<open>auto simp: step_ok_def split: sum.splits prod.splits option.splits\<close>)

text \<open>
  Of two registrations with one address that have both passed the check, the insertion of the second is
  refused by the unique index as long as the first user is there. Its reply is the error that the database gave.
\<close>

lemma racing_registrations:
  assumes uc: "uu_userRepo uc = repo" and uv: "user_Email u = user_Email v" "user_ID u \<noteq> user_ID v"
    and held: "users (as_repo s2) (user_ID u) = Some u"
  shows "\<exists>r' e. repo_Create repo (as_repo s2) v = (r', Some e) \<and> users r' = users (as_repo s2) \<and>
    call_step L uc (RegisterInsert v) s2 = (s2\<lparr>as_repo := r'\<rparr>, Inr (Registered (Inl e)))"
proof -
  obtain r' x where c: "repo_Create repo (as_repo s2) v = (r', x)" by (cases "repo_Create repo (as_repo s2) v")
  have "x \<noteq> None"
  proof
    assume "x = None"
    with c repo_create_ok have "users r' = (users (as_repo s2))(user_ID v \<mapsto> v)" by blast
    with held uv have "users r' (user_ID u) = Some u" "users r' (user_ID v) = Some v" by simp_all
    with uv emails_unique [of r'] show False unfolding email_index_def by blast
  qed
  then show ?thesis using c uc repo_create_err [of "as_repo s2" v r'] by auto
qed

end

text \<open>A step writes to the cache a version on its way there, or takes an entry out.\<close>

context redis_server
begin

lemma call_step_entries:
  assumes app: "cached_app uc repo R" and L: "codec_ok L" and ok: "call_ok seen c"
    and entries: "entries_seen (lib_dec L) seen (strs (as_cache s))"
    and step: "call_step L uc c s = (s', x)"
  shows "entries_seen (lib_dec L) seen (strs (as_cache s'))"
proof -
  note U = cached_app_simps [OF app]
  have forget: "strs (fst (Invalidate (uu_cache uc) [k] d)) \<subseteq>\<^sub>m strs d" for k d
    using Invalidate_cases [OF U(2,3) prod.collapse [symmetric], of k d] by (auto simp: map_le_def split: if_splits)
  show ?thesis
  proof (cases c)
    case (GetStore i y)
    with step have "strs (as_cache s') = strs (fst (SetJSON (lib_enc L) (uu_cache uc) (user_cache_key i) y
        (10 * minute) (as_cache s)))" by auto
    with SetJSON_cases [OF U(2), of "lib_enc L" "user_cache_key i" y "10 * minute" "as_cache s"] show ?thesis
      using entries ok L GetStore by (auto simp: codec_ok_def intro!: entries_seen_set)
  next
    case (UpdateForget i u)
    with step show ?thesis using entries_seen_submap [OF entries forget] by auto
  next
    case (DeleteForget i)
    with step show ?thesis using entries_seen_submap [OF entries forget] by auto
  qed (use step entries in \<open>auto simp: Let_def split: sum.splits prod.splits option.splits outcome.splits if_splits\<close>)
qed

lemma entry_version:
  assumes app: "cached_app uc repo R" and "entries_seen (lib_dec L) seen (strs d)"
    and "GetJSON (lib_dec L) (uu_cache uc) (user_cache_key i) d = Inr (Some x)"
  shows "version_of seen i x"
  using GetJSON_found [OF cached_app_simps(2) [OF app] assms(3)] assms(2) by (force simp: entries_seen_def)

end

definition server_inv ::
  "(string \<Rightarrow> err + user_response) \<Rightarrow> ('r \<Rightarrow> string \<rightharpoonup> user) \<Rightarrow> ('d \<Rightarrow> string \<rightharpoonup> string) \<Rightarrow>
   ('r, 'd, 'q) user_server \<Rightarrow> bool" where
  "server_inv dec users strs s \<longleftrightarrow>
     (\<forall>i u. users (as_repo (us_app s)) i = Some u \<longrightarrow> u \<in> us_seen s i) \<and>
     (\<forall>i. \<forall>u \<in> us_seen s i. user_ID u = i) \<and>
     entries_seen dec (us_seen s) (strs (as_cache (us_app s))) \<and>
     (\<forall>c \<in> set (us_calls s). call_ok (us_seen s) c) \<and>
     (\<forall>(c, r) \<in> set (us_replies s). reply_ok (us_seen s) r) \<and>
     mset (us_created s) =
       mset (concat (map welcomes (us_calls s))) + mset (concat (map (welcomes \<circ> fst) (us_replies s)))"

lemma remove_at_split: "k < length xs \<Longrightarrow> mset (concat (map f xs)) = mset (f (xs ! k)) + mset (concat (map f (remove_at k xs)))"
  by (subst id_take_nth_drop [of k xs], assumption) (simp add: remove_at_def)

lemma upd_split: "k < length xs \<Longrightarrow> mset (concat (map f (xs[k := y]))) = mset (f y) + mset (concat (map f (remove_at k xs)))"
  by (simp add: upd_conv_take_nth_drop remove_at_def)

lemma set_remove_at: "set (remove_at k xs) \<subseteq> set xs"
  unfolding remove_at_def using set_take_subset [of k xs] set_drop_subset [of "Suc k" xs] by auto

text \<open>Only the insertion leads to a step that welcomes, and no step that welcomes is followed by another.\<close>

lemma call_step_welcomes: "call_step L uc c s = (s', Inl c') \<Longrightarrow> welcomes c = []"
  by (cases c) (auto split: outcome.splits)

lemma server_advance_inv:
  assumes repo: "user_repository repo users listed" and R: "redis_server R strs lsts"
    and app: "cached_app uc repo R" and L: "codec_ok L"
    and inv: "server_inv (lib_dec L) users strs s" and adv: "server_advance L uc users k s = Some t"
  shows "server_inv (lib_dec L) users strs t"
proof -
  let ?c = "us_calls s ! k" and ?seen = "us_seen s"
  have k: "k < length (us_calls s)" using adv by (simp add: server_advance_def split: if_splits)
  obtain a x where step: "call_step L uc ?c (us_app s) = (a, x)" by (cases "call_step L uc ?c (us_app s)")
  let ?seen' = "see ?seen (users (as_repo a))"
  have ok: "call_ok ?seen ?c" using inv k by (simp add: server_inv_def)
  have entries: "entries_seen (lib_dec L) ?seen (strs (as_cache (us_app s)))" using inv by (simp add: server_inv_def)
  have old: "\<And>c. c \<in> set (us_calls s) \<Longrightarrow> call_ok ?seen' c" "\<And>c r. (c, r) \<in> set (us_replies s) \<Longrightarrow> reply_ok ?seen' r"
    using inv call_ok_mono [OF _ seen_see(1)] reply_ok_mono [OF _ seen_see(1)] unfolding server_inv_def by blast+
  have cache: "entries_seen (lib_dec L) ?seen' (strs (as_cache a))"
    using entries_seen_mono [OF redis_server.call_step_entries [OF R app L ok entries step] seen_see(1)] .
  have new: "step_ok ?seen' x"
    using inv redis_server.entry_version [OF R app entries]
    by (intro user_repository.call_step_ok [OF repo cached_app_simps(1) [OF app] ok _ _ step])
       (simp_all add: server_inv_def)
  have ids: "user_ID u = i" if "u \<in> ?seen' i" for u i
    using that inv user_repository.user_key [OF repo, of "as_repo a" i u] by (auto simp: server_inv_def see_def)
  have count: "mset (us_created s) = mset (welcomes ?c) + mset (concat (map welcomes (remove_at k (us_calls s)))) +
      mset (concat (map (welcomes \<circ> fst) (us_replies s)))"
    using inv remove_at_split [OF k, of welcomes] by (simp add: server_inv_def)
  show ?thesis
  proof (cases x)
    case (Inl c)
    with adv k step have t: "t = s\<lparr>us_app := a, us_calls := (us_calls s)[k := c], us_seen := ?seen',
        us_created := us_created s @ welcomes c\<rparr>" by (simp add: server_advance_def)
    have "\<forall>c' \<in> set ((us_calls s)[k := c]). call_ok ?seen' c'"
      using old(1) new Inl set_update_subset_insert [of "us_calls s" k c] by (auto simp: step_ok_def)
    with old(2) cache ids count call_step_welcomes [OF step [unfolded Inl]] show ?thesis
      by (auto simp: server_inv_def t upd_split [OF k] seen_see(2))
  next
    case (Inr r)
    with adv k step have t: "t = s\<lparr>us_app := a, us_calls := remove_at k (us_calls s), us_seen := ?seen',
        us_replies := us_replies s @ [(?c, r)]\<rparr>" by (simp add: server_advance_def)
    with old cache ids count new Inr set_remove_at [of k "us_calls s"] show ?thesis
      by (auto simp: server_inv_def step_ok_def seen_see(2))
  qed
qed

lemma server_steps_inv:
  assumes repo: "user_repository repo users listed" and R: "redis_server R strs lsts"
    and app: "cached_app uc repo R" and L: "codec_ok L"
    and steps: "(server_step L uc users strs)\<^sup>*\<^sup>* s t" and inv: "server_inv (lib_dec L) users strs s"
  shows "server_inv (lib_dec L) users strs t"
  using steps
proof (induction rule: rtranclp_induct)
  case (step t u)
  from step.hyps(2) show ?case
  proof cases
    case (arrive c)
    with step.IH is_request_ok [of c "us_seen t"] show ?thesis by (auto simp: server_inv_def)
  next
    case (advance k)
    from server_advance_inv [OF repo R app L step.IH advance] show ?thesis .
  next
    case (expire d')
    with step.IH show ?thesis by (auto simp: server_inv_def intro: entries_seen_submap)
  next
    case (work q')
    with step.IH show ?thesis by (simp add: server_inv_def)
  qed
qed (rule inv)

section \<open>What clients are told while calls overlap\<close>

text \<open>
  C12. However registrations, cached reads, updates and removals overlap, expire and meet failures of the
  database and of Redis, from a start where the cache agrees with the table (an empty one, for instance):
  a read or an update that succeeds answers with a user that the table held under the
  requested identifier, in this form, at some time since the start, never with another user's data or
  with a mixture; the cache holds nothing else. A registration that succeeds answers with a user that was in the
  table, and each user that registrations inserted is welcomed once: its one call to the queue is over
  or in progress.
\<close>

theorem overlapping_calls_answer_versions:
  assumes repo: "user_repository repo users listed" and R: "redis_server R strs lsts"
    and app: "cached_app uc repo R" and L: "codec_ok L"
    and coherent: "cache_coherent (lib_dec L) (users (as_repo a)) (strs (as_cache a))"
    and steps: "(server_step L uc users strs)\<^sup>*\<^sup>* (server_boot users a) s"
  shows "(\<forall>i. \<forall>u \<in> us_seen s i. user_ID u = i) \<and>
    (\<forall>c i r. (c, Found i (Inr r)) \<in> set (us_replies s) \<longrightarrow> (\<exists>u \<in> us_seen s i. r = Some (ToResponse u))) \<and>
    (\<forall>c i x. (c, Updated i (Inr x)) \<in> set (us_replies s) \<longrightarrow> (\<exists>u \<in> us_seen s i. x = ToResponse u)) \<and>
    (\<forall>c x. (c, Registered (Inr x)) \<in> set (us_replies s) \<longrightarrow> (\<exists>u \<in> us_seen s (ur_ID x). x = ToResponse u)) \<and>
    (\<forall>i v. strs (as_cache (us_app s)) (user_cache_key i) = Some v \<longrightarrow>
      (\<exists>u \<in> us_seen s i. lib_dec L v = Inr (ToResponse u))) \<and>
    mset (us_created s) =
      mset (concat (map welcomes (us_calls s))) + mset (concat (map (welcomes \<circ> fst) (us_replies s)))"
proof -
  have "server_inv (lib_dec L) users strs (server_boot users a)"
    using coherent user_repository.user_key [OF repo]
    by (fastforce simp: server_inv_def server_boot_def entries_seen_def version_of_def cache_coherent_def)
  from server_steps_inv [OF repo R app L steps this]
  have inv: "server_inv (lib_dec L) users strs s" .
  then have "reply_ok (us_seen s) r" if "(c, r) \<in> set (us_replies s)" for c r
    using that by (auto simp: server_inv_def)
  note replies = this [of _ "Found i (Inr r)" for i r] this [of _ "Updated i (Inr x)" for i x]
    this [of _ "Registered (Inr x)" for x]
  from inv have "entries_seen (lib_dec L) (us_seen s) (strs (as_cache (us_app s)))"
    by (simp add: server_inv_def)
  with inv replies show ?thesis
    by (fastforce simp: server_inv_def version_of_def entries_seen_def)
qed

text \<open>
  A cached read fetches the user; before it stores the user, an update renames it and invalidates the entry; a
  second read then gets the old name from the cache.
\<close>

datatype call_event = Arrive user_call | Advance nat

fun server_run ::
  "libs \<Rightarrow> ('r, 'd, 'q, 'w) user_usecase \<Rightarrow> ('r \<Rightarrow> string \<rightharpoonup> user) \<Rightarrow> call_event list \<Rightarrow>
   ('r, 'd, 'q) user_server \<Rightarrow> ('r, 'd, 'q) user_server option" where
  "server_run L uc users [] s = Some s"
| "server_run L uc users (Arrive c # es) s =
     (if is_request c then server_run L uc users es (s\<lparr>us_calls := us_calls s @ [c]\<rparr>) else None)"
| "server_run L uc users (Advance k # es) s =
     (case server_advance L uc users k s of None \<Rightarrow> None | Some t \<Rightarrow> server_run L uc users es t)"

lemma server_run_steps:
  "server_run L uc users es s = Some t \<Longrightarrow> (server_step L uc users strs)\<^sup>*\<^sup>* s t"
proof (induction es arbitrary: s)
  case (Cons e es)
  then show ?case
    by (cases e) (auto split: if_splits option.splits
        intro: converse_rtranclp_into_rtranclp [of "server_step L uc users strs"] server_step.arrive server_step.advance)
qed simp

definition overlap_script :: "call_event list" where
  "overlap_script =
     [Arrive (GetCall ''id1''), Advance 0, Advance 0, Arrive (UpdateCall ''id1'' rename_request 20),
      Advance 1, Advance 1, Advance 1, Advance 0, Arrive (GetCall ''id1''), Advance 0]"

definition overlapped :: "(user list, mem_server, nat) user_server" where
  "overlapped = the (server_run sample_libs sample_usecase mem_user_rows overlap_script
     (server_boot mem_user_rows sample_registered))"

lemma overlapped_replies:
  "server_run sample_libs sample_usecase mem_user_rows overlap_script (server_boot mem_user_rows sample_registered) \<noteq> None"
  "map snd (us_replies overlapped) = [Updated ''id1'' (Inr (ToResponse (sample_user\<lparr>user_Name := ''Augusta'', user_UpdatedAt := 20\<rparr>))),
     Found ''id1'' (Inr (Some (ToResponse sample_user))), Found ''id1'' (Inr (Some (ToResponse sample_user)))]"
  by code_simp+

theorem overlapping_calls_answer_versions_witness:
  "\<exists>c u. (c, Found ''id1'' (Inr (Some (ToResponse u)))) \<in> set (us_replies overlapped) \<and>
    u \<in> us_seen overlapped ''id1'' \<and> user_Name u = ''Ada'' \<and>
    map_option user_Name (mem_user_rows (as_repo (us_app overlapped)) ''id1'') = Some ''Augusta''"
proof -
  let ?old = "Found ''id1'' (Inr (Some (ToResponse sample_user)))"
  have "server_run sample_libs sample_usecase mem_user_rows overlap_script
      (server_boot mem_user_rows sample_registered) = Some overlapped"
    using overlapped_replies(1) by (simp add: overlapped_def)
  note steps = server_run_steps [OF this, of mrs_strs]
  have coh: "cache_coherent (lib_dec sample_libs) (mem_user_rows (as_repo sample_registered))
      (mrs_strs (as_cache sample_registered))"
    by (simp add: sample_registered_def mem_server_empty_def coherent_empty)
  have "?old \<in> snd ` set (us_replies overlapped)"
    using overlapped_replies(2) by (metis in_set_conv_decomp_last list.set_intros set_map)
  then obtain c where c: "(c, ?old) \<in> set (us_replies overlapped)" by force
  with overlapping_calls_answer_versions [OF mem_repository0 mem_redis.redis_server_axioms sample_app
      sample_codec coh steps]
  obtain u where u: "u \<in> us_seen overlapped ''id1''" "ToResponse sample_user = ToResponse u" by blast
  have "user_Name u = user_Name sample_user" using arg_cong [OF u(2), of ur_Name] by simp
  moreover have "map_option user_Name (mem_user_rows (as_repo (us_app overlapped)) ''id1'') = Some ''Augusta''" by code_simp
  ultimately show ?thesis using c u by (intro exI [of _ c] exI [of _ u]) (simp add: sample_user_def)
qed

end
