(* ===== verification/User_Exclusion.thy ===== *)
theory User_Exclusion
  imports User_Interleaving
begin

text \<open>
  Overlapping calls that leave each other's users alone: \<open>exclusive_step\<close> is \<open>server_step\<close> where an update or
  a removal of a user overlaps with no other call on the same user. Reads may overlap with each other,
  and calls on different users, and registrations, with anything. Then the cache is as good as the table. The invariant
  \<open>current_inv\<close> says in which states an entry may be out of date: only while the call that will take it out is
  in progress.
\<close>

section \<open>Calls on the same user\<close>

fun call_user :: "user_call \<Rightarrow> string option" where
  "call_user (GetCall i) = Some i"
| "call_user (GetLoad i) = Some i"
| "call_user (GetStore i x) = Some i"
| "call_user (UpdateCall i req now) = Some i"
| "call_user (UpdateCheck i req now u) = Some i"
| "call_user (UpdateSave i u) = Some i"
| "call_user (UpdateForget i u) = Some i"
| "call_user (DeleteCall i) = Some i"
| "call_user (DeleteForget i) = Some i"
| "call_user _ = None"

fun reads :: "user_call \<Rightarrow> bool" where
  "reads (GetCall i) = True"
| "reads (GetLoad i) = True"
| "reads (GetStore i x) = True"
| "reads _ = False"

definition compatible :: "user_call \<Rightarrow> user_call \<Rightarrow> bool" where
  "compatible c c' \<longleftrightarrow> call_user c = None \<or> call_user c \<noteq> call_user c' \<or> (reads c \<and> reads c')"

inductive exclusive_step ::
  "libs \<Rightarrow> ('r, 'd, 'q, 'w) user_usecase \<Rightarrow> ('r \<Rightarrow> string \<rightharpoonup> user) \<Rightarrow> ('d \<Rightarrow> string \<rightharpoonup> string) \<Rightarrow>
   ('r, 'd, 'q) user_server \<Rightarrow> ('r, 'd, 'q) user_server \<Rightarrow> bool" for L uc users strs where
  excl_arrive: "is_request c \<Longrightarrow> list_all (compatible c) (us_calls s) \<Longrightarrow>
    exclusive_step L uc users strs s (s\<lparr>us_calls := us_calls s @ [c]\<rparr>)"
| excl_advance: "server_advance L uc users k s = Some t \<Longrightarrow> exclusive_step L uc users strs s t"
| excl_expire: "strs d' \<subseteq>\<^sub>m strs (as_cache (us_app s)) \<Longrightarrow>
    exclusive_step L uc users strs s (s\<lparr>us_app := (us_app s)\<lparr>as_cache := d'\<rparr>\<rparr>)"
| excl_work: "exclusive_step L uc users strs s (s\<lparr>us_app := (us_app s)\<lparr>as_queue := q'\<rparr>\<rparr>)"

lemma exclusive_is_server_step: "exclusive_step L uc users strs s t \<Longrightarrow> server_step L uc users strs s t"
  by (induction rule: exclusive_step.induct) (auto intro: server_step.intros)

text \<open>A call stays on its user.\<close>

lemma call_step_user:
  "call_step L uc c s = (s', Inl c') \<Longrightarrow> call_user c' = call_user c \<and> reads c' = reads c"
  by (cases c) (auto simp: Let_def split: sum.splits prod.splits option.splits outcome.splits if_splits)

lemma compatible_sym: "compatible c c' = compatible c' c"
  by (auto simp: compatible_def)

lemma compatible_cong:
  "call_user c = call_user d \<Longrightarrow> reads c = reads d \<Longrightarrow> compatible c = compatible d"
  by (simp add: compatible_def fun_eq_iff)

section \<open>The invariant\<close>

definition forgets :: "string \<Rightarrow> user_call \<Rightarrow> bool" where
  "forgets i c \<longleftrightarrow> (case c of UpdateForget j u \<Rightarrow> j = i | DeleteForget j \<Rightarrow> j = i | _ \<Rightarrow> False)"

definition entry_current ::
  "(string \<Rightarrow> err + user_response) \<Rightarrow> (string \<rightharpoonup> user) \<Rightarrow> (string \<rightharpoonup> string) \<Rightarrow> string \<Rightarrow> bool" where
  "entry_current dec t c i \<longleftrightarrow>
     (\<forall>v. c (user_cache_key i) = Some v \<longrightarrow> (\<exists>u. t i = Some u \<and> dec v = Inr (ToResponse u)))"

definition store_current :: "(string \<rightharpoonup> user) \<Rightarrow> user_call \<Rightarrow> bool" where
  "store_current t c \<longleftrightarrow> (\<forall>i x. c = GetStore i x \<longrightarrow> (\<exists>u. t i = Some u \<and> x = ToResponse u))"

definition update_ids :: "user_call \<Rightarrow> bool" where
  "update_ids c \<longleftrightarrow> (case c of UpdateCheck i req now u \<Rightarrow> user_ID u = i | UpdateSave i u \<Rightarrow> user_ID u = i | _ \<Rightarrow> True)"

text \<open>Without the call at a position, the others are compatible with it.\<close>

lemma sorted_wrt_split:
  assumes "k < length cs" "sorted_wrt compatible cs"
  shows "sorted_wrt compatible (remove_at k cs)" "\<forall>x \<in> set (remove_at k cs). compatible (cs ! k) x"
    "(\<forall>x \<in> set (remove_at k cs). compatible c x) \<Longrightarrow> sorted_wrt compatible (cs[k := c])"
proof -
  let ?a = "take k cs" and ?b = "drop (Suc k) cs"
  have "sorted_wrt compatible (?a @ cs ! k # ?b)" using assms by (simp add: id_take_nth_drop [symmetric])
  then show "sorted_wrt compatible (remove_at k cs)" "\<forall>x \<in> set (remove_at k cs). compatible (cs ! k) x"
    "(\<forall>x \<in> set (remove_at k cs). compatible c x) \<Longrightarrow> sorted_wrt compatible (cs[k := c])"
    using assms(1) compatible_sym
    by (auto simp: remove_at_def sorted_wrt_append upd_conv_take_nth_drop)
qed

lemma set_upd_remove: "k < length cs \<Longrightarrow> set (cs[k := c]) = insert c (set (remove_at k cs))"
  by (simp add: remove_at_def upd_conv_take_nth_drop)

lemma set_nth_remove: "k < length cs \<Longrightarrow> set cs = insert (cs ! k) (set (remove_at k cs))"
  using set_upd_remove [of k cs "cs ! k"] by simp

section \<open>What a step does to the entries\<close>

definition entries_current ::
  "(string \<Rightarrow> err + user_response) \<Rightarrow> (string \<rightharpoonup> user) \<Rightarrow> (string \<rightharpoonup> string) \<Rightarrow> user_call set \<Rightarrow> bool" where
  "entries_current dec t c Y \<longleftrightarrow> (\<forall>i. (\<forall>y \<in> Y. \<not> forgets i y) \<longrightarrow> entry_current dec t c i)"

lemma entries_more: "entries_current dec t c Y \<Longrightarrow> Y \<subseteq> Z \<Longrightarrow> entries_current dec t c Z"
  by (auto simp: entries_current_def)

lemma entries_drop:
  "entries_current dec t c (insert x Y) \<Longrightarrow> \<forall>i. \<not> forgets i x \<Longrightarrow> entries_current dec t c Y"
  by (auto simp: entries_current_def)

lemma entries_insert:
  "entries_current dec t c Y \<Longrightarrow> t i = None \<Longrightarrow> entries_current dec (t(i \<mapsto> u)) c Y"
  by (fastforce simp: entries_current_def entry_current_def)

lemma entries_store:
  "entries_current dec t c Y \<Longrightarrow> t i = Some u \<Longrightarrow> dec v = Inr (ToResponse u) \<Longrightarrow>
   entries_current dec t (c(user_cache_key i \<mapsto> v)) Y"
  by (auto simp: entries_current_def entry_current_def)

lemma entries_change:
  "entries_current dec t c Y \<Longrightarrow> forgets i f \<Longrightarrow> entries_current dec (t(i := r)) c (insert f Y)"
  by (auto simp: entries_current_def entry_current_def)

lemma entries_forget:
  "entries_current dec t c (insert f Y) \<Longrightarrow> (\<And>j. forgets j f \<Longrightarrow> j = i) \<Longrightarrow>
   entries_current dec t (c(user_cache_key i := None)) Y"
  by (fastforce simp: entries_current_def entry_current_def)

lemma entries_submap: "entries_current dec t c Y \<Longrightarrow> c' \<subseteq>\<^sub>m c \<Longrightarrow> entries_current dec t c' Y"
  by (auto simp: entries_current_def entry_current_def map_le_def dom_def)

lemma store_current_change:
  "store_current t y \<Longrightarrow> (\<And>x. y \<noteq> GetStore i x) \<Longrightarrow> store_current (t(i := r)) y"
  by (auto simp: store_current_def)

lemma store_current_insert: "store_current t y \<Longrightarrow> t i = None \<Longrightarrow> store_current (t(i \<mapsto> u)) y"
  by (auto simp: store_current_def)

lemma forgets_simps [simp]:
  "forgets i (RegisterInsert u) = False" "forgets i (RegisterWelcome u) = False" "forgets i (RegisterCall rq sl n t1 t2) = False"
  "forgets i (GetCall j) = False" "forgets i (GetLoad j) = False" "forgets i (GetStore j x) = False"
  "forgets i (UpdateCall j req now) = False" "forgets i (UpdateCheck j req now u) = False"
  "forgets i (UpdateSave j u) = False" "forgets i (UpdateForget j u) = (j = i)"
  "forgets i (DeleteCall j) = False" "forgets i (DeleteForget j) = (j = i)"
  by (simp_all add: forgets_def)

lemma update_ids_simps [simp]:
  "update_ids (RegisterInsert u)" "update_ids (RegisterWelcome u)" "update_ids (GetLoad j)" "update_ids (GetStore j x)"
  "update_ids (UpdateCheck j req now u) = (user_ID u = j)" "update_ids (UpdateSave j u) = (user_ID u = j)"
  "update_ids (UpdateForget j u)" "update_ids (DeleteForget j)"
  by (simp_all add: update_ids_def)

lemma store_current_simps [simp]:
  "store_current t (GetStore i x) = (\<exists>u. t i = Some u \<and> x = ToResponse u)"
  "\<lbrakk>\<And>i x. y \<noteq> GetStore i x\<rbrakk> \<Longrightarrow> store_current t y"
  by (simp_all add: store_current_def)

text \<open>What is left of a call after a step, if anything.\<close>

fun left_over :: "user_call + user_reply \<Rightarrow> user_call set" where
  "left_over (Inl c) = {c}"
| "left_over (Inr r) = {}"

definition calls_current :: "(string \<rightharpoonup> user) \<Rightarrow> user_call set \<Rightarrow> bool" where
  "calls_current t Y \<longleftrightarrow> (\<forall>y \<in> Y. store_current t y \<and> update_ids y)"

lemma calls_current_union: "calls_current t (X \<union> Y) \<longleftrightarrow> calls_current t X \<and> calls_current t Y"
  by (auto simp: calls_current_def)

lemma calls_current_insert: "calls_current t Y \<Longrightarrow> t i = None \<Longrightarrow> calls_current (t(i \<mapsto> u)) Y"
  by (auto simp: calls_current_def intro: store_current_insert)

lemma calls_current_change:
  assumes "calls_current t Y" "\<forall>y \<in> Y. compatible x y" "call_user x = Some i" "\<not> reads x"
  shows "calls_current (t(i := r)) Y"
  using assms by (fastforce simp: calls_current_def compatible_def intro!: store_current_change)

text \<open>The state of table, cache and calls in progress is as the invariant has it.\<close>

definition up_to_date ::
  "(string \<Rightarrow> err + user_response) \<Rightarrow> (string \<rightharpoonup> user) \<Rightarrow> (string \<rightharpoonup> string) \<Rightarrow> user_call set \<Rightarrow> bool" where
  "up_to_date dec t c Y \<longleftrightarrow> entries_current dec t c Y \<and> calls_current t Y"

lemma up_to_date_kept:
  assumes "up_to_date dec t c (insert x Y)" "\<And>i. \<not> forgets i x" "calls_current t Z"
  shows "up_to_date dec t c (Z \<union> Y)"
  using assms entries_more [OF entries_drop [of dec t c x Y], of "Z \<union> Y"]
  by (auto simp: up_to_date_def calls_current_def)

lemma up_to_date_inserted:
  assumes "up_to_date dec t c (insert x Y)" "\<And>i. \<not> forgets i x" "t i = None" "calls_current (t(i \<mapsto> u)) Z"
  shows "up_to_date dec (t(i \<mapsto> u)) c (Z \<union> Y)"
  using assms entries_more [OF entries_insert [OF entries_drop [of dec t c x Y] assms(3)], of "Z \<union> Y"]
    calls_current_insert [of t Y i]
  by (auto simp: up_to_date_def calls_current_def)

lemma up_to_date_changed:
  assumes "up_to_date dec t c (insert x Y)" "\<And>i. \<not> forgets i x" "forgets i f" "calls_current (t(i := v)) {f}"
    and "\<forall>y \<in> Y. compatible x y" "call_user x = Some i" "\<not> reads x"
  shows "up_to_date dec (t(i := v)) c ({f} \<union> Y)"
  using assms entries_change [OF entries_drop [of dec t c x Y] assms(3)] calls_current_change [OF _ assms(5-7), of t v]
  by (auto simp: up_to_date_def calls_current_def)

lemma up_to_date_forgotten:
  assumes "up_to_date dec t c (insert f Y)" "\<And>j. forgets j f \<Longrightarrow> j = i"
  shows "up_to_date dec t (c(user_cache_key i := None)) Y"
  using assms entries_forget [of dec t c f Y i] by (simp add: up_to_date_def calls_current_def)

lemma up_to_date_stored:
  assumes "up_to_date dec t c (insert (GetStore i x) Y)" "dec v = Inr x"
  shows "up_to_date dec t (c(user_cache_key i \<mapsto> v)) Y"
proof -
  from assms(1) obtain u where u: "t i = Some u" "x = ToResponse u" by (auto simp: up_to_date_def calls_current_def)
  have "entries_current dec t c Y" using assms(1) entries_drop [of dec t c "GetStore i x" Y] by (simp add: up_to_date_def)
  from entries_store [OF this u(1)] assms u(2) show ?thesis by (simp add: up_to_date_def calls_current_def)
qed

lemma up_to_date_expired: "up_to_date dec t c Y \<Longrightarrow> c' \<subseteq>\<^sub>m c \<Longrightarrow> up_to_date dec t c' Y"
  by (auto simp: up_to_date_def intro: entries_submap)

text \<open>The steps that only look at the table and the cache.\<close>

fun looks :: "user_call \<Rightarrow> bool" where
  "looks (RegisterCall req salt uuid t1 t2) = True"
| "looks (RegisterWelcome u) = True"
| "looks (GetCall i) = True"
| "looks (GetLoad i) = True"
| "looks (UpdateCall i req now) = True"
| "looks (UpdateCheck i req now u) = True"
| "looks _ = False"

section \<open>Every step keeps the invariant\<close>

text \<open>First the steps that write to the table.\<close>

context user_repository
begin

lemma register_insert_current:
  assumes step: "call_step L uc (RegisterInsert u) s = (s', r)" and uc: "uu_userRepo uc = repo"
    and inv: "up_to_date dec (users (as_repo s)) c (insert (RegisterInsert u) Y)"
  shows "up_to_date dec (users (as_repo s')) c (left_over r \<union> Y) \<and> as_cache s' = as_cache s"
proof -
  let ?t = "users (as_repo s)"
  from step uc repo_create_ok [of "as_repo s" u "as_repo s'"] repo_create_err [of "as_repo s" u "as_repo s'"]
  consider (ok) "?t (user_ID u) = None" "users (as_repo s') = ?t(user_ID u \<mapsto> u)" "r = Inl (RegisterWelcome u)"
      "as_cache s' = as_cache s"
    | (err) e where "users (as_repo s') = ?t" "r = Inr (Registered (Inl e))" "as_cache s' = as_cache s"
    by (auto split: prod.splits option.splits)
  then show ?thesis
  proof cases
    case ok
    then show ?thesis using up_to_date_inserted [OF inv _ ok(1), of u "left_over r"] by (simp add: calls_current_def)
  next
    case err
    then show ?thesis using up_to_date_kept [OF inv, of "{}"] by (simp add: calls_current_def)
  qed
qed

lemma update_save_current:
  assumes step: "call_step L uc (UpdateSave i u) s = (s', r)" and uc: "uu_userRepo uc = repo"
    and inv: "up_to_date dec (users (as_repo s)) c (insert (UpdateSave i u) Y)"
    and comp: "\<forall>y \<in> Y. compatible (UpdateSave i u) y"
  shows "up_to_date dec (users (as_repo s')) c (left_over r \<union> Y) \<and> as_cache s' = as_cache s"
proof -
  let ?t = "users (as_repo s)"
  have "user_ID u = i" using inv by (simp add: up_to_date_def calls_current_def)
  with step uc repo_update_ok [of "as_repo s" u "as_repo s'"] repo_update_err [of "as_repo s" u "as_repo s'"]
  consider (ok) "users (as_repo s') = ?t(i \<mapsto> u)" "r = Inl (UpdateForget i u)" "as_cache s' = as_cache s"
    | (err) e where "users (as_repo s') = ?t" "r = Inr (Updated i (Inl e))" "as_cache s' = as_cache s"
    by (auto split: prod.splits option.splits)
  then show ?thesis
  proof cases
    case ok
    then show ?thesis
      using up_to_date_changed [OF inv _ _ _ comp, of i "UpdateForget i u" "Some u"] by (simp add: calls_current_def)
  next
    case err
    then show ?thesis using up_to_date_kept [OF inv, of "{}"] by (simp add: calls_current_def)
  qed
qed

lemma delete_row_current:
  assumes step: "call_step L uc (DeleteCall i) s = (s', r)" and uc: "uu_userRepo uc = repo"
    and inv: "up_to_date dec (users (as_repo s)) c (insert (DeleteCall i) Y)"
    and comp: "\<forall>y \<in> Y. compatible (DeleteCall i) y"
  shows "up_to_date dec (users (as_repo s')) c (left_over r \<union> Y) \<and> as_cache s' = as_cache s"
proof -
  let ?t = "users (as_repo s)"
  from step uc repo_delete_ok [of "as_repo s" i "as_repo s'"] repo_delete_err [of "as_repo s" i "as_repo s'"]
  consider (ok) "users (as_repo s') = ?t(i := None)" "r = Inl (DeleteForget i)" "as_cache s' = as_cache s"
    | (err) e where "users (as_repo s') = ?t" "r = Inr (Deleted i (Some e))" "as_cache s' = as_cache s"
    by (auto split: prod.splits option.splits)
  then show ?thesis
  proof cases
    case ok
    then show ?thesis
      using up_to_date_changed [OF inv _ _ _ comp, of i "DeleteForget i" None] by (simp add: calls_current_def)
  next
    case err
    then show ?thesis using up_to_date_kept [OF inv, of "{}"] by (simp add: calls_current_def)
  qed
qed

lemma look_step:
  assumes step: "call_step L uc x s = (s', r)" and uc: "uu_userRepo uc = repo" and x: "looks x"
    and inv: "up_to_date dec (users (as_repo s)) c (insert x Y)"
  shows "up_to_date dec (users (as_repo s')) c (left_over r \<union> Y) \<and> as_cache s' = as_cache s"
proof -
  have row: "user_ID (updated_name req u) = i" if "repo_FindByID repo (as_repo s) i = Inr u" for req i u
    using user_key [OF repo_id_ok [OF that]] by (simp add: updated_name_def)
  have "as_repo s' = as_repo s \<and> as_cache s' = as_cache s"
    using x step by (cases x) (auto simp: Let_def split: sum.splits option.splits outcome.splits if_splits)
  moreover have "calls_current (users (as_repo s)) (left_over r)"
    using x step uc inv row repo_id_ok
    by (cases x)
      (auto simp: Let_def calls_current_def up_to_date_def split: sum.splits option.splits outcome.splits if_splits)
  moreover have "\<not> forgets i x" for i using x by (cases x) simp_all
  ultimately show ?thesis using up_to_date_kept [OF inv, of "left_over r"] by simp
qed

end

context reliable_redis_server
begin

lemma call_step_current:
  assumes repo: "user_repository repo users listed" and app: "cached_app uc repo R" and L: "codec_ok L"
    and step: "call_step L uc x s = (s', r)" and comp: "\<forall>y \<in> Y. compatible x y"
    and inv: "up_to_date (lib_dec L) (users (as_repo s)) (strs (as_cache s)) (insert x Y)"
  shows "up_to_date (lib_dec L) (users (as_repo s')) (strs (as_cache s')) (left_over r \<union> Y)"
proof (cases "looks x")
  case True
  from user_repository.look_step [OF repo step cached_app_simps(1) [OF app] True inv] show ?thesis by simp
next
  case False
  note U = cached_app_simps [OF app]
  show ?thesis
  proof (cases x)
    case (RegisterInsert u)
    with user_repository.register_insert_current [OF repo _ U(1)] step inv show ?thesis by force
  next
    case (GetStore i y)
    with step have s': "s' = s\<lparr>as_cache := fst (SetJSON (lib_enc L) (uu_cache uc) (user_cache_key i) y
        (10 * minute) (as_cache s))\<rparr>" "left_over r = {}" by auto
    from up_to_date_kept [OF inv, of "{}"] GetStore
    have "up_to_date (lib_dec L) (users (as_repo s)) (strs (as_cache s)) Y" by (simp add: calls_current_def)
    then show ?thesis
      using SetJSON_cases [OF U(2), of "lib_enc L" "user_cache_key i" y "10 * minute" "as_cache s"] L
        up_to_date_stored [OF inv [unfolded GetStore]] by (auto simp: s' codec_ok_def)
  next
    case (UpdateSave i u)
    with user_repository.update_save_current [OF repo _ U(1)] step inv comp show ?thesis by force
  next
    case (UpdateForget i u)
    with step up_to_date_forgotten [OF inv [unfolded UpdateForget], of i] show ?thesis
      by (auto simp: invalidated [OF app])
  next
    case (DeleteCall i)
    with user_repository.delete_row_current [OF repo _ U(1)] step inv comp show ?thesis by force
  next
    case (DeleteForget i)
    with step up_to_date_forgotten [OF inv [unfolded DeleteForget], of i] show ?thesis
      by (auto simp: invalidated [OF app])
  qed (use False in simp_all)
qed

end

text \<open>The invariant of the interleaving.\<close>

definition current_inv ::
  "(string \<Rightarrow> err + user_response) \<Rightarrow> ('r \<Rightarrow> string \<rightharpoonup> user) \<Rightarrow> ('d \<Rightarrow> string \<rightharpoonup> string) \<Rightarrow>
   ('r, 'd, 'q) user_server \<Rightarrow> bool" where
  "current_inv dec users strs s \<longleftrightarrow>
     sorted_wrt compatible (us_calls s) \<and>
     up_to_date dec (users (as_repo (us_app s))) (strs (as_cache (us_app s))) (set (us_calls s))"

lemma arrived_up_to_date: "is_request c \<Longrightarrow> up_to_date dec t m Y \<Longrightarrow> up_to_date dec t m (insert c Y)"
  using entries_more [of dec t m Y "insert c Y"]
  by (cases c) (auto simp: up_to_date_def calls_current_def update_ids_def)

lemma server_advance_current:
  assumes repo: "user_repository repo users listed" and R: "reliable_redis_server R strs lsts"
    and app: "cached_app uc repo R" and L: "codec_ok L"
    and inv: "current_inv (lib_dec L) users strs s" and adv: "server_advance L uc users k s = Some t"
  shows "current_inv (lib_dec L) users strs t"
proof -
  let ?cs = "us_calls s" and ?Y = "set (remove_at k (us_calls s))"
  have k: "k < length ?cs" using adv by (simp add: server_advance_def split: if_splits)
  obtain a r where step: "call_step L uc (?cs ! k) (us_app s) = (a, r)" by (cases "call_step L uc (?cs ! k) (us_app s)")
  from inv have sorted: "sorted_wrt compatible ?cs"
    and up: "up_to_date (lib_dec L) (users (as_repo (us_app s))) (strs (as_cache (us_app s))) (insert (?cs ! k) ?Y)"
    by (simp_all add: current_inv_def set_nth_remove [OF k, symmetric])
  note split = sorted_wrt_split [OF k sorted]
  from reliable_redis_server.call_step_current [OF R repo app L step split(2) up]
  have up': "up_to_date (lib_dec L) (users (as_repo a)) (strs (as_cache a)) (left_over r \<union> ?Y)" .
  show ?thesis
  proof (cases r)
    case (Inl c)
    with call_step_user step have "call_user c = call_user (?cs ! k)" "reads c = reads (?cs ! k)" by blast+
    note compatible_cong [OF this]
    with split have "sorted_wrt compatible (?cs[k := c])" by simp
    with Inl adv k step up' show ?thesis
      by (auto simp: server_advance_def current_inv_def set_upd_remove [OF k])
  next
    case (Inr y)
    with split(1) adv k step up' show ?thesis by (auto simp: server_advance_def current_inv_def)
  qed
qed

lemma exclusive_steps_current:
  assumes repo: "user_repository repo users listed" and R: "reliable_redis_server R strs lsts"
    and app: "cached_app uc repo R" and L: "codec_ok L"
    and steps: "(exclusive_step L uc users strs)\<^sup>*\<^sup>* s t" and inv: "current_inv (lib_dec L) users strs s"
  shows "current_inv (lib_dec L) users strs t"
  using steps
proof (induction rule: rtranclp_induct)
  case (step t u)
  from step.hyps(2) show ?case
  proof cases
    case (excl_arrive c)
    with step.IH arrived_up_to_date [OF excl_arrive(2)] show ?thesis
      by (auto simp: current_inv_def sorted_wrt_append list_all_iff compatible_sym [of _ c])
  next
    case (excl_advance k)
    from server_advance_current [OF repo R app L step.IH excl_advance] show ?thesis .
  next
    case (excl_expire d')
    with step.IH show ?thesis by (auto simp: current_inv_def intro: up_to_date_expired)
  next
    case (excl_work q')
    with step.IH show ?thesis by (simp add: current_inv_def)
  qed
qed (rule inv)

section \<open>Reads that nothing disturbs\<close>

text \<open>A read that replies has no call in progress that is about to take the entry out.\<close>

lemma reading_entry_current:
  assumes inv: "current_inv dec users strs s" and k: "k < length (us_calls s)"
    and c: "reads (us_calls s ! k)" "call_user (us_calls s ! k) = Some i"
  shows "entry_current dec (users (as_repo (us_app s))) (strs (as_cache (us_app s))) i"
proof -
  have "\<not> forgets i y" if y: "y \<in> set (us_calls s)" for y
  proof
    assume "forgets i y"
    then have f: "call_user y = Some i" "\<not> reads y" by (cases y; simp)+
    with c(1) y have "y \<in> set (remove_at k (us_calls s))" by (auto simp: set_nth_remove [OF k])
    with sorted_wrt_split(2) [OF k] inv have "compatible (us_calls s ! k) y" by (simp add: current_inv_def)
    with c f show False by (simp add: compatible_def)
  qed
  with inv show ?thesis by (simp add: current_inv_def up_to_date_def entries_current_def)
qed

text \<open>
  C11. Any number of calls may overlap, as long as an update or a removal of a user overlaps with no other
  call on that user (on other users, or with registrations, it may). Then every cached read replies with what the
  table holds for its user at the moment of the reply: the user, or \<open>ErrNotFound\<close> if there is none. The cache
  starts empty, entries expire at any time, and the database and Redis do not fail.
\<close>

theorem undisturbed_reads_are_current:
  assumes repo: "reliable_user_repository repo users listed" and R: "reliable_redis_server R strs lsts"
    and app: "cached_app uc repo R" and L: "codec_ok L" and empty: "strs (as_cache a) = Map.empty"
    and steps: "(exclusive_step L uc users strs)\<^sup>*\<^sup>* (server_boot users a) s"
    and k: "k < length (us_calls s)"
    and reply: "call_step L uc (us_calls s ! k) (us_app s) = (a', Inr (Found i r))"
  shows "r = (case users (as_repo (us_app s)) i of None \<Rightarrow> Inl ErrNotFound | Some u \<Rightarrow> Inr (Some (ToResponse u)))"
proof -
  note repo0 = reliable_user_repository.axioms(1) [OF repo] and R0 = reliable_redis_server.axioms(1) [OF R]
  have "current_inv (lib_dec L) users strs (server_boot users a)"
    by (simp add: current_inv_def server_boot_def up_to_date_def entries_current_def entry_current_def
        calls_current_def empty)
  from exclusive_steps_current [OF repo0 R app L steps this]
  have inv: "current_inv (lib_dec L) users strs s" .
  let ?c = "us_calls s ! k"
  consider (hit) "?c = GetCall i" | (failed) "?c = GetLoad i" | (stored) x where "?c = GetStore i x" "r = Inr (Some x)"
    using reply by (cases ?c) (auto simp: Let_def split: sum.splits prod.splits option.splits outcome.splits if_splits)
  then show ?thesis
  proof cases
    case hit
    with reply obtain x where x: "GetJSON (lib_dec L) (uu_cache uc) (user_cache_key i) (as_cache (us_app s)) = Inr (Some x)"
      "r = Inr (Some x)" by (auto split: sum.splits option.splits)
    from redis_server.GetJSON_found [OF R0 cached_app_simps(2) [OF app] x(1)]
      reading_entry_current [OF inv k, of i] hit x(2)
    show ?thesis by (fastforce simp: entry_current_def)
  next
    case failed
    with reply obtain e where e: "repo_FindByID repo (as_repo (us_app s)) i = Inl e" "r = Inl e"
      using cached_app_simps(1) [OF app] by (auto split: sum.splits)
    then show ?thesis
      using reliable_user_repository.repo_id_up [OF repo e(1)] user_repository.repo_id_none [OF repo0, of "as_repo (us_app s)" i]
      by simp
  next
    case (stored x)
    have "?c \<in> set (us_calls s)" using k by simp
    with inv have "store_current (users (as_repo (us_app s))) ?c"
      by (simp add: current_inv_def up_to_date_def calls_current_def)
    with stored show ?thesis by auto
  qed
qed

text \<open>An update of one user, a read of another in its midst, and then a read of the first.\<close>

fun exclusive_run ::
  "libs \<Rightarrow> ('r, 'd, 'q, 'w) user_usecase \<Rightarrow> ('r \<Rightarrow> string \<rightharpoonup> user) \<Rightarrow> call_event list \<Rightarrow>
   ('r, 'd, 'q) user_server \<Rightarrow> ('r, 'd, 'q) user_server option" where
  "exclusive_run L uc users [] s = Some s"
| "exclusive_run L uc users (Arrive c # es) s =
     (if is_request c \<and> list_all (compatible c) (us_calls s)
      then exclusive_run L uc users es (s\<lparr>us_calls := us_calls s @ [c]\<rparr>) else None)"
| "exclusive_run L uc users (Advance k # es) s =
     (case server_advance L uc users k s of None \<Rightarrow> None | Some t \<Rightarrow> exclusive_run L uc users es t)"

lemma exclusive_run_steps:
  "exclusive_run L uc users es s = Some t \<Longrightarrow> (exclusive_step L uc users strs)\<^sup>*\<^sup>* s t"
proof (induction es arbitrary: s)
  case (Cons e es)
  then show ?case
    by (cases e) (auto split: if_splits option.splits
        intro: converse_rtranclp_into_rtranclp [of "exclusive_step L uc users strs"] excl_arrive excl_advance)
qed simp

definition two_users_script :: "call_event list" where
  "two_users_script =
     [Arrive (UpdateCall ''id1'' rename_request 20), Advance 0, Arrive (GetCall ''id2''), Advance 1, Advance 0,
      Advance 1, Advance 0, Arrive (GetCall ''id1''), Advance 1, Advance 1]"

definition undisturbed :: "(user list, mem_server, nat) user_server" where
  "undisturbed = the (exclusive_run sample_libs sample_usecase mem_user_rows two_users_script
     (server_boot mem_user_rows two_users))"

lemma undisturbed_run:
  "exclusive_run sample_libs sample_usecase mem_user_rows two_users_script (server_boot mem_user_rows two_users) \<noteq> None"
  "length (us_calls undisturbed) = 2"
  "snd (call_step sample_libs sample_usecase (us_calls undisturbed ! 1) (us_app undisturbed)) =
    Inr (Found ''id1'' (Inr (Some (ToResponse (sample_user\<lparr>user_Name := ''Augusta'', user_UpdatedAt := 20\<rparr>)))))"
  by code_simp+

theorem undisturbed_reads_are_current_witness:
  "\<exists>a r. call_step sample_libs sample_usecase (us_calls undisturbed ! 1) (us_app undisturbed) =
      (a, Inr (Found ''id1'' (Inr (Some r)))) \<and> ur_Name r = ''Augusta'' \<and>
    map_option ToResponse (mem_user_rows (as_repo (us_app undisturbed)) ''id1'') = Some r"
proof -
  let ?r = "ToResponse (sample_user\<lparr>user_Name := ''Augusta'', user_UpdatedAt := 20\<rparr>)"
  have "exclusive_run sample_libs sample_usecase mem_user_rows two_users_script
      (server_boot mem_user_rows two_users) = Some undisturbed"
    using undisturbed_run(1) by (simp add: undisturbed_def)
  note steps = exclusive_run_steps [OF this, of mrs_strs]
  have empty: "mrs_strs (as_cache two_users) = Map.empty"
    by (simp add: two_users_def sample_registered_def mem_server_empty_def)
  have k: "1 < length (us_calls undisturbed)" by (simp add: undisturbed_run(2))
  obtain a where a: "call_step sample_libs sample_usecase (us_calls undisturbed ! 1) (us_app undisturbed) =
      (a, Inr (Found ''id1'' (Inr (Some ?r))))"
    using undisturbed_run(3) by (metis prod.collapse)
  from undisturbed_reads_are_current [OF mem_repository mem_redis.reliable_redis_server_axioms sample_app
      sample_codec empty steps k a]
  have "map_option ToResponse (mem_user_rows (as_repo (us_app undisturbed)) ''id1'') = Some ?r"
    by (simp split: option.splits)
  with a show ?thesis by (intro exI [of _ a] exI [of _ ?r]) simp
qed

end
