(* ===== verification/User_Service.thy ===== *)
theory User_Service
  imports User_Read_Properties
begin

text \<open>
  What the interface \<open>UserUsecase\<close> of \<open>internal/usecase/user_usecase.go\<close> promises, as an abstract
  service: its state is the table of users, a map from identifiers, and the welcome payloads
  handed out so far. \<open>service_step\<close> says which state and which reply a call may lead to; it knows
  neither a repository nor a cache nor a queue. \<open>user_call_run\<close> is the interface on the use
  case of the code, and \<open>user_trace\<close> a history of calls in which cache entries may expire at any
  time.

  Lemmas: one simulation lemma per method, and the simulation of a call. The refinement at the
  end: every history of the code is a history of the abstract service with the same replies.
\<close>

section \<open>The interface\<close>

datatype user_call =
  CallRegister create_user_request string string instant instant
| CallLogin login_request instant
| CallGetByID string
| CallGetAll int int
| CallUpdate string update_user_request instant
| CallDelete string

datatype user_reply =
  Refused err
| Registered user_response
| LoggedIn login_response
| Found "user_response option"
| Page "user_response list" int
| Updated user_response
| Removed
| Crashed string

definition user_call_run ::
  "libs \<Rightarrow> ('r, 'd, 'q, 'w) user_usecase \<Rightarrow> go_context \<Rightarrow> user_call \<Rightarrow> ('r, 'd, 'q) app_state \<Rightarrow>
   ('r, 'd, 'q) app_state \<times> user_reply" where
  "user_call_run L uc ctx c s =
     (case c of
        CallRegister req salt uuid t1 t2 \<Rightarrow>
          (case usecase_Register L uc ctx req salt uuid t1 t2 s of
             (s', Ret (Inl e)) \<Rightarrow> (s', Refused e)
           | (s', Ret (Inr x)) \<Rightarrow> (s', Registered x)
           | (s', Panic msg) \<Rightarrow> (s', Crashed msg))
      | CallLogin req now \<Rightarrow>
          (s, case usecase_Login L uc req now s of Inl e \<Rightarrow> Refused e | Inr x \<Rightarrow> LoggedIn x)
      | CallGetByID i \<Rightarrow>
          (case usecase_GetByID L uc i s of
             (s', Inl e) \<Rightarrow> (s', Refused e) | (s', Inr x) \<Rightarrow> (s', Found x))
      | CallGetAll page pageSize \<Rightarrow>
          (s, case usecase_GetAll uc page pageSize s of Inl e \<Rightarrow> Refused e | Inr (us, n) \<Rightarrow> Page us n)
      | CallUpdate i req now \<Rightarrow>
          (case usecase_Update uc i req now s of
             (s', Inl e) \<Rightarrow> (s', Refused e) | (s', Inr x) \<Rightarrow> (s', Updated x))
      | CallDelete i \<Rightarrow>
          (case usecase_Delete uc i s of
             (s', Some e) \<Rightarrow> (s', Refused e) | (s', None) \<Rightarrow> (s', Removed)))"

inductive user_trace ::
  "libs \<Rightarrow> ('r, 'd, 'q, 'w) user_usecase \<Rightarrow> go_context \<Rightarrow> ('d \<Rightarrow> string \<rightharpoonup> string) \<Rightarrow>
   ('r, 'd, 'q) app_state \<Rightarrow> (user_call \<times> user_reply) list \<Rightarrow> ('r, 'd, 'q) app_state \<Rightarrow> bool"
  for L uc ctx strs where
  trace_nil: "user_trace L uc ctx strs s [] s"
| trace_call: "user_call_run L uc ctx c s = (s1, a) \<Longrightarrow> user_trace L uc ctx strs s1 tr s' \<Longrightarrow>
    user_trace L uc ctx strs s ((c, a) # tr) s'"
| trace_expire: "strs d' \<subseteq>\<^sub>m strs (as_cache s) \<Longrightarrow>
    user_trace L uc ctx strs (s\<lparr>as_cache := d'\<rparr>) tr s' \<Longrightarrow> user_trace L uc ctx strs s tr s'"

section \<open>The abstract service\<close>

record service =
  sv_users :: "string \<rightharpoonup> user"
  sv_welcomed :: "welcome_email_payload list"

definition email_taken :: "(string \<rightharpoonup> user) \<Rightarrow> string \<Rightarrow> bool" where
  "email_taken t m \<longleftrightarrow> (\<exists>i v. t i = Some v \<and> user_Email v = m)"

definition welcome_payload :: "user \<Rightarrow> welcome_email_payload" where
  "welcome_payload u = \<lparr>wep_UserID = user_ID u, wep_Email = user_Email u, wep_UserName = user_Name u\<rparr>"

definition service_listing :: "(string \<rightharpoonup> user) \<Rightarrow> user list \<Rightarrow> bool" where
  "service_listing t us \<longleftrightarrow> distinct us \<and> set us = ran t \<and> newest_first us"

definition changed_user :: "update_user_request \<Rightarrow> instant \<Rightarrow> user \<Rightarrow> user" where
  "changed_user req now u =
     u\<lparr>user_Name := (if uur_Name req = [] then user_Name u else uur_Name req),
       user_Email := (if uur_Email req = [] then user_Email u else uur_Email req),
       user_UpdatedAt := now\<rparr>"

inductive service_step ::
  "libs \<Rightarrow> jwt_service \<Rightarrow> user_call \<Rightarrow> service \<Rightarrow> user_reply \<Rightarrow> service \<Rightarrow> bool"
  for L jwt where
  sv_register_taken: "email_taken (sv_users v) (cur_Email req) \<Longrightarrow>
    service_step L jwt (CallRegister req salt uuid t1 t2) v (Refused ErrAlreadyExists) v"
| sv_register_unhashable: "\<not> email_taken (sv_users v) (cur_Email req) \<Longrightarrow>
    HashPassword (lib_bcrypt L) salt (cur_Password req) = Inl e \<Longrightarrow>
    service_step L jwt (CallRegister req salt uuid t1 t2) v (Refused e) v"
| sv_register_collision: "\<not> email_taken (sv_users v) (cur_Email req) \<Longrightarrow> sv_users v uuid \<noteq> None \<Longrightarrow>
    service_step L jwt (CallRegister req salt uuid t1 t2) v (Refused e) v"
| sv_register_created: "\<not> email_taken (sv_users v) (cur_Email req) \<Longrightarrow> sv_users v uuid = None \<Longrightarrow>
    HashPassword (lib_bcrypt L) salt (cur_Password req) = Inr h \<Longrightarrow>
    u = new_user req uuid h t1 t2 \<Longrightarrow>
    service_step L jwt (CallRegister req salt uuid t1 t2) v (Registered (ToResponse u))
      \<lparr>sv_users = (sv_users v)(uuid \<mapsto> u), sv_welcomed = sv_welcomed v @ [welcome_payload u]\<rparr>"
| sv_login_ok: "sv_users v i = Some u \<Longrightarrow> user_Email u = lr_Email req \<Longrightarrow>
    CheckPasswordHash (lib_bcrypt L) (lr_Password req) (user_Password u) \<Longrightarrow>
    GenerateToken (lib_jwt L) jwt i (user_Email u) now = Inr tok \<Longrightarrow>
    service_step L jwt (CallLogin req now) v (LoggedIn \<lparr>lresp_Token = tok, lresp_User = ToResponse u\<rparr>) v"
| sv_login_refused: "(\<And>i u. sv_users v i = Some u \<Longrightarrow> user_Email u = lr_Email req \<Longrightarrow>
      \<not> CheckPasswordHash (lib_bcrypt L) (lr_Password req) (user_Password u)) \<Longrightarrow>
    service_step L jwt (CallLogin req now) v (Refused ErrInvalidCredentials) v"
| sv_get_ok: "sv_users v i = Some u \<Longrightarrow>
    service_step L jwt (CallGetByID i) v (Found (Some (ToResponse u))) v"
| sv_get_missing: "sv_users v i = None \<Longrightarrow> service_step L jwt (CallGetByID i) v (Refused ErrNotFound) v"
| sv_get_all: "service_listing (sv_users v) us \<Longrightarrow>
    service_step L jwt (CallGetAll page n) v
      (Page (map ToResponse (window (clamp_size n) (page_offset page n) us)) (int (length us))) v"
| sv_update_missing: "sv_users v i = None \<Longrightarrow>
    service_step L jwt (CallUpdate i req now) v (Refused ErrNotFound) v"
| sv_update_taken: "sv_users v i \<noteq> None \<Longrightarrow> uur_Email req \<noteq> [] \<Longrightarrow>
    email_taken ((sv_users v)(i := None)) (uur_Email req) \<Longrightarrow>
    service_step L jwt (CallUpdate i req now) v (Refused ErrAlreadyExists) v"
| sv_update_ok: "sv_users v i = Some u \<Longrightarrow>
    uur_Email req = [] \<or> \<not> email_taken ((sv_users v)(i := None)) (uur_Email req) \<Longrightarrow>
    service_step L jwt (CallUpdate i req now) v (Updated (ToResponse (changed_user req now u)))
      (v\<lparr>sv_users := (sv_users v)(i \<mapsto> changed_user req now u)\<rparr>)"
| sv_delete_missing: "sv_users v i = None \<Longrightarrow> service_step L jwt (CallDelete i) v (Refused ErrNotFound) v"
| sv_delete_ok: "sv_users v i \<noteq> None \<Longrightarrow>
    service_step L jwt (CallDelete i) v Removed (v\<lparr>sv_users := (sv_users v)(i := None)\<rparr>)"

inductive service_trace ::
  "libs \<Rightarrow> jwt_service \<Rightarrow> service \<Rightarrow> (user_call \<times> user_reply) list \<Rightarrow> service \<Rightarrow> bool"
  for L jwt where
  service_nil: "service_trace L jwt v [] v"
| service_cons: "service_step L jwt c v a w \<Longrightarrow> service_trace L jwt w tr v' \<Longrightarrow>
    service_trace L jwt v ((c, a) # tr) v'"

section \<open>The simulation\<close>

text \<open>
  The setting: the use case runs on a repository and a Redis server that are up, and its queue
  takes every welcome job. \<open>sent\<close> reads the payloads taken off the state of the queue.
\<close>

locale user_service =
  repository: reliable_user_repository repo users listed + cache: reliable_redis_server R strs lsts
  for repo :: "'r user_repository_ops" and users :: "'r \<Rightarrow> string \<rightharpoonup> user" and listed :: "'r \<Rightarrow> user list"
    and R :: "'d redis_ops" and strs :: "'d \<Rightarrow> string \<rightharpoonup> string" and lsts :: "'d \<Rightarrow> string \<Rightarrow> string list" +
  fixes L :: libs
    and uc :: "('r, 'd, 'q, 'w) user_usecase"
    and ctx :: go_context
    and sent :: "'q \<Rightarrow> welcome_email_payload list"
    and V :: "signing_method \<Rightarrow> string \<Rightarrow> string \<Rightarrow> claims \<Rightarrow> bool"
  assumes app: "cached_app uc repo R"
    and codec: "codec_ok L"
    and tokens: "jwt_ok (lib_jwt L) V"
    and hand_out: "\<exists>q'. dispatch_welcome uc ctx u q = Ret q' \<and> sent q' = sent q @ [welcome_payload u]"
begin

definition abs_service :: "('r, 'd, 'q) app_state \<Rightarrow> service" where
  "abs_service s = \<lparr>sv_users = users (as_repo s), sv_welcomed = sent (as_queue s)\<rparr>"

definition coherent :: "('r, 'd, 'q) app_state \<Rightarrow> bool" where
  "coherent s \<longleftrightarrow> cache_coherent (lib_dec L) (users (as_repo s)) (strs (as_cache s))"

lemma abs_sel [simp]:
  "sv_users (abs_service s) = users (as_repo s)" "sv_welcomed (abs_service s) = sent (as_queue s)"
  by (simp_all add: abs_service_def)

lemma abs_expire [simp]: "abs_service (s\<lparr>as_cache := d\<rparr>) = abs_service s"
  by (simp add: abs_service_def)

lemma repo_is [simp]: "uu_userRepo uc = repo"
  by (rule cached_app_simps(1) [OF app])

lemma find_email:
  "(\<exists>u. repo_FindByEmail repo r m = Inr u \<and> users r (user_ID u) = Some u \<and> user_Email u = m) \<or>
   repo_FindByEmail repo r m = Inl ErrNotFound \<and> \<not> email_taken (users r) m"
proof (cases "repo_FindByEmail repo r m")
  case (Inl e)
  with repository.repo_email_up have "e = ErrNotFound" by blast
  with Inl repository.repo_email_none show ?thesis by (auto simp: email_taken_def)
next
  case (Inr u)
  with repository.repo_email_ok show ?thesis by blast
qed

lemma find_id:
  "repo_FindByID repo r i = (case users r i of None \<Rightarrow> Inl ErrNotFound | Some u \<Rightarrow> Inr u)"
proof (cases "repo_FindByID repo r i")
  case (Inl e)
  with repository.repo_id_up have "e = ErrNotFound" by blast
  with Inl repository.repo_id_none show ?thesis by simp
next
  case (Inr u)
  with repository.repo_id_ok show ?thesis by simp
qed

text \<open>A registration of a free address, hashed, under an identifier that is free or taken.\<close>

lemma sim_register_fresh:
  assumes run: "user_call_run L uc ctx (CallRegister req salt uuid t1 t2) s = (s', a)"
    and free: "\<not> email_taken (users (as_repo s)) (cur_Email req)"
    and h: "HashPassword (lib_bcrypt L) salt (cur_Password req) = Inr h" and new: "users (as_repo s) uuid = None"
  shows "service_step L (uu_jwt uc) (CallRegister req salt uuid t1 t2) (abs_service s) a (abs_service s')"
proof -
  let ?u = "new_user req uuid h t1 t2"
  have mail: "\<And>i v. users (as_repo s) i = Some v \<Longrightarrow> user_Email v \<noteq> cur_Email req"
    using free by (auto simp: email_taken_def)
  obtain q' where q': "dispatch_welcome uc ctx ?u (as_queue s) = Ret q'"
    "sent q' = sent (as_queue s) @ [welcome_payload ?u]" using hand_out by blast
  obtain r' where r': "users r' = (users (as_repo s))(uuid \<mapsto> ?u)"
    "usecase_Register L uc ctx req salt uuid t1 t2 s =
      (s\<lparr>as_repo := r', as_queue := q'\<rparr>, Ret (Inr (ToResponse ?u)))"
    by (rule register_inserts [OF repository.reliable_user_repository_axioms repo_is h new mail,
          where ctx = ctx and ?t1.0 = t1 and ?t2.0 = t2]) (simp_all add: q')
  then have eqs: "abs_service s' = \<lparr>sv_users = (sv_users (abs_service s))(uuid \<mapsto> ?u),
      sv_welcomed = sv_welcomed (abs_service s) @ [welcome_payload ?u]\<rparr>"
    "a = Registered (ToResponse ?u)"
    using run q' by (auto simp: user_call_run_def abs_service_def)
  show ?thesis
    unfolding eqs by (rule service_step.sv_register_created [where h = h]) (use assms in simp_all)
qed

lemma sim_register_collision:
  assumes run: "user_call_run L uc ctx (CallRegister req salt uuid t1 t2) s = (s', a)"
    and free: "\<not> email_taken (users (as_repo s)) (cur_Email req)" and used: "users (as_repo s) uuid = Some w"
  shows "service_step L (uu_jwt uc) (CallRegister req salt uuid t1 t2) (abs_service s) a (abs_service s')"
proof -
  obtain res where reg: "usecase_Register L uc ctx req salt uuid t1 t2 s = (s', res)"
    using run by (cases "usecase_Register L uc ctx req salt uuid t1 t2 s")
      (auto simp: user_call_run_def split: outcome.splits sum.splits)
  from repository.register_cases [OF reg repo_is] used
  obtain e where "res = Ret (Inl e)" "users (as_repo s') = users (as_repo s)" "as_queue s' = as_queue s"
    by auto
  with run reg have "a = Refused e" "abs_service s' = abs_service s"
    by (auto simp: user_call_run_def abs_service_def)
  with free used show ?thesis by (auto intro: service_step.sv_register_collision)
qed

lemma sim_register:
  assumes "user_call_run L uc ctx (CallRegister req salt uuid t1 t2) s = (s', a)"
  shows "service_step L (uu_jwt uc) (CallRegister req salt uuid t1 t2) (abs_service s) a (abs_service s')"
proof (cases "email_taken (users (as_repo s)) (cur_Email req)")
  case True
  then obtain i v where v: "users (as_repo s) i = Some v" "user_Email v = cur_Email req"
    by (auto simp: email_taken_def)
  from register_taken [OF repository.reliable_user_repository_axioms repo_is v] assms True
  show ?thesis by (auto simp: user_call_run_def intro: service_step.sv_register_taken)
next
  case free: False
  show ?thesis
  proof (cases "HashPassword (lib_bcrypt L) salt (cur_Password req)")
    case (Inl e)
    have "usecase_Register L uc ctx req salt uuid t1 t2 s = (s, Ret (Inl e))"
      using find_email [of "as_repo s" "cur_Email req"] free Inl
      by (auto simp: usecase_Register_def email_taken_def)
    with assms free Inl show ?thesis
      by (auto simp: user_call_run_def intro: service_step.sv_register_unhashable)
  next
    case (Inr h)
    then show ?thesis
      using sim_register_fresh [OF assms free Inr] sim_register_collision [OF assms free]
      by (cases "users (as_repo s) uuid") auto
  qed
qed

lemma sim_login:
  assumes "user_call_run L uc ctx (CallLogin req now) s = (s', a)"
  shows "service_step L (uu_jwt uc) (CallLogin req now) (abs_service s) a (abs_service s')"
proof -
  have s': "s' = s" using assms by (simp add: user_call_run_def)
  consider u where "repo_FindByEmail repo (as_repo s) (lr_Email req) = Inr u"
      "users (as_repo s) (user_ID u) = Some u" "user_Email u = lr_Email req"
    | "repo_FindByEmail repo (as_repo s) (lr_Email req) = Inl ErrNotFound"
      "\<not> email_taken (users (as_repo s)) (lr_Email req)"
    using find_email [of "as_repo s" "lr_Email req"] by blast
  then show ?thesis
  proof cases
    case (1 u)
    have only: "users (as_repo s) i = Some w \<Longrightarrow> user_Email w = lr_Email req \<Longrightarrow> w = u" for i w
      using repository.emails_unique [of "as_repo s"] 1 unfolding email_index_def by (metis option.inject)
    obtain tok where tok: "GenerateToken (lib_jwt L) (uu_jwt uc) (user_ID u) (user_Email u) now = Inr tok"
      using GenerateToken_ok [OF tokens] by blast
    show ?thesis
    proof (cases "CheckPasswordHash (lib_bcrypt L) (lr_Password req) (user_Password u)")
      case True
      with 1 tok assms have "a = LoggedIn \<lparr>lresp_Token = tok, lresp_User = ToResponse u\<rparr>"
        by (simp add: user_call_run_def usecase_Login_def)
      with True 1 tok s' show ?thesis by (auto intro: service_step.sv_login_ok)
    next
      case False
      with 1 assms have "a = Refused ErrInvalidCredentials"
        by (simp add: user_call_run_def usecase_Login_def)
      with False only s' show ?thesis by (auto intro: service_step.sv_login_refused)
    qed
  next
    case 2
    with assms have "a = Refused ErrInvalidCredentials"
      by (simp add: user_call_run_def usecase_Login_def)
    with 2 s' show ?thesis by (auto simp: email_taken_def intro: service_step.sv_login_refused)
  qed
qed

lemma sim_get:
  assumes coh: "coherent s" and run: "user_call_run L uc ctx (CallGetByID i) s = (s', a)"
  shows "service_step L (uu_jwt uc) (CallGetByID i) (abs_service s) a (abs_service s')"
proof -
  obtain res where get: "usecase_GetByID L uc i s = (s', res)"
    using run by (cases "usecase_GetByID L uc i s") (auto simp: user_call_run_def split: sum.splits)
  from cache.get_by_id_cases [OF repository.user_repository_axioms app codec coh [unfolded coherent_def] get]
  have same: "as_repo s' = as_repo s" "as_queue s' = as_queue s"
    and res: "(\<exists>u. users (as_repo s) i = Some u \<and> res = Inr (Some (ToResponse u))) \<or>
      (\<exists>e. res = Inl e \<and> repo_FindByID repo (as_repo s) i = Inl e)" by auto
  from same have "abs_service s' = abs_service s" by (simp add: abs_service_def)
  with res run get show ?thesis
    by (auto simp: user_call_run_def find_id split: option.splits
        intro: service_step.sv_get_ok service_step.sv_get_missing)
qed

lemma sim_get_all:
  assumes "user_call_run L uc ctx (CallGetAll page n) s = (s', a)"
  shows "service_step L (uu_jwt uc) (CallGetAll page n) (abs_service s) a (abs_service s')"
proof -
  obtain us k where all: "usecase_GetAll uc page n s = Inr (us, k)"
    using repository.repo_all_up [of "as_repo s" "clamp_size n" "page_offset page n"]
    by (auto simp: usecase_GetAll_def)
  have "service_listing (sv_users (abs_service s)) (listed (as_repo s))"
    by (simp add: service_listing_def repository.listed_users repository.listed_distinct repository.listed_order)
  from service_step.sv_get_all [OF this, of L "uu_jwt uc" page n]
    repository.get_all_window [OF all repo_is] assms all
  show ?thesis by (auto simp: user_call_run_def)
qed

text \<open>\<open>Update\<close> reads the user, checks the new address, and writes the changed user.\<close>

lemma prepare_missing:
  "users r i = None \<Longrightarrow> update_prepare uc i req now r = Inl ErrNotFound"
  by (simp add: update_prepare_def find_id)

lemma prepare_taken:
  assumes u: "users r i = Some u"
    and m: "uur_Email req \<noteq> []" "email_taken ((users r)(i := None)) (uur_Email req)"
  shows "update_prepare uc i req now r = Inl ErrAlreadyExists"
proof -
  from m obtain k w where w: "users r k = Some w" "k \<noteq> i" "user_Email w = uur_Email req"
    by (auto simp: email_taken_def split: if_splits)
  then have "\<exists>w. repo_FindByEmail repo r (uur_Email req) = Inr w \<and> users r (user_ID w) = Some w \<and>
      user_Email w = uur_Email req"
    using find_email [of r "uur_Email req"] by (auto simp: email_taken_def)
  then obtain x where x: "repo_FindByEmail repo r (uur_Email req) = Inr x" "users r (user_ID x) = Some x"
    "user_Email x = uur_Email req" by blast
  have "user_ID x = k"
    using repository.emails_unique [of r] w x unfolding email_index_def by metis
  moreover have "user_Email u \<noteq> uur_Email req"
    using repository.emails_unique [of r] w u unfolding email_index_def by metis
  ultimately show ?thesis
    using u x m w by (auto simp: update_prepare_def find_id updated_name_def)
qed

lemma prepare_free:
  assumes u: "users r i = Some u"
    and m: "uur_Email req = [] \<or> \<not> email_taken ((users r)(i := None)) (uur_Email req)"
  shows "update_prepare uc i req now r = Inr (changed_user req now u)"
proof -
  have "user_ID x = i" if "uur_Email req \<noteq> []" "repo_FindByEmail repo r (uur_Email req) = Inr x" for x
  proof (rule ccontr)
    assume "user_ID x \<noteq> i"
    moreover from repository.repo_email_ok [OF that(2)]
    have "users r (user_ID x) = Some x" "user_Email x = uur_Email req" by auto
    ultimately show False using m that(1) by (auto simp: email_taken_def split: if_splits)
  qed
  with u show ?thesis
    by (cases u) (auto simp: update_prepare_def find_id updated_name_def changed_user_def Let_def split: sum.split)
qed

lemma changed_id: "users r i = Some u \<Longrightarrow> user_ID (changed_user req now u) = i"
  using repository.user_key [of r i u] by (simp add: changed_user_def)

lemma free_index:
  assumes u: "users r i = Some u"
    and m: "uur_Email req = [] \<or> \<not> email_taken ((users r)(i := None)) (uur_Email req)"
  shows "email_index ((users r)(i \<mapsto> changed_user req now u))"
  using repository.repo_email_up
  by (intro repository.update_prepare_email [OF prepare_free [OF u m] repo_is]) blast

lemma sim_update:
  assumes run: "user_call_run L uc ctx (CallUpdate i req now) s = (s', a)"
  shows "service_step L (uu_jwt uc) (CallUpdate i req now) (abs_service s) a (abs_service s')"
proof (cases "users (as_repo s) i")
  case None
  with run have "s' = s" "a = Refused ErrNotFound"
    by (simp_all add: user_call_run_def usecase_Update_def prepare_missing)
  with None show ?thesis by (auto intro: service_step.sv_update_missing)
next
  case (Some u)
  show ?thesis
  proof (cases "uur_Email req = [] \<or> \<not> email_taken ((users (as_repo s))(i := None)) (uur_Email req)")
    case True
    note prep = prepare_free [OF Some True, where now = now]
    obtain r' where up: "repo_Update repo (as_repo s) (changed_user req now u) = (r', None)"
      using repository.repo_update_up [of "as_repo s" "changed_user req now u"]
        free_index [OF Some True] changed_id [OF Some] by auto
    from repository.repo_update_ok [OF up] changed_id [OF Some]
    have r': "users r' = (users (as_repo s))(i \<mapsto> changed_user req now u)" by simp
    with run prep up have "a = Updated (ToResponse (changed_user req now u))"
      "abs_service s' = (abs_service s)\<lparr>sv_users := (sv_users (abs_service s))(i \<mapsto> changed_user req now u)\<rparr>"
      by (auto simp: user_call_run_def usecase_Update_def update_commit_def abs_service_def)
    with Some True service_step.sv_update_ok [of "abs_service s" i u req L "uu_jwt uc" now]
    show ?thesis by simp
  next
    case False
    with run Some have "s' = s" "a = Refused ErrAlreadyExists"
      by (simp_all add: user_call_run_def usecase_Update_def prepare_taken)
    with Some False service_step.sv_update_taken [of "abs_service s" i req L "uu_jwt uc" now]
    show ?thesis by simp
  qed
qed

lemma sim_delete:
  assumes run: "user_call_run L uc ctx (CallDelete i) s = (s', a)"
  shows "service_step L (uu_jwt uc) (CallDelete i) (abs_service s) a (abs_service s')"
proof (cases "users (as_repo s) i")
  case None
  then obtain r' where d: "repo_Delete repo (as_repo s) i = (r', Some ErrNotFound)"
    using repository.repo_delete_missing by blast
  with run repository.repo_delete_err [OF d] have "abs_service s' = abs_service s" "a = Refused ErrNotFound"
    by (auto simp: user_call_run_def usecase_Delete_def abs_service_def)
  with None show ?thesis by (auto intro: service_step.sv_delete_missing)
next
  case (Some u)
  then obtain r' where d: "repo_Delete repo (as_repo s) i = (r', None)"
    using repository.repo_delete_up [of "as_repo s" i] by auto
  with run repository.repo_delete_ok [OF d]
  have "abs_service s' = (abs_service s)\<lparr>sv_users := (sv_users (abs_service s))(i := None)\<rparr>" "a = Removed"
    by (auto simp: user_call_run_def usecase_Delete_def abs_service_def)
  with Some service_step.sv_delete_ok [of "abs_service s" i L "uu_jwt uc"] show ?thesis by simp
qed

text \<open>A call is a step of the service, and keeps the cache coherent.\<close>

lemma sim_call:
  assumes "coherent s" "user_call_run L uc ctx c s = (s', a)"
  shows "service_step L (uu_jwt uc) c (abs_service s) a (abs_service s')"
  using assms
  by (cases c) (simp_all add: sim_register sim_login sim_get sim_get_all sim_update sim_delete)

lemma call_step:
  assumes "user_call_run L uc ctx c s = (s', a)"
  shows "s' = s \<or> user_step L uc strs s s'"
  using assms
  by (cases c) (auto simp: user_call_run_def split: prod.splits outcome.splits sum.splits option.splits
      intro: user_step.intros)

lemma call_coherent:
  assumes coh: "coherent s" and run: "user_call_run L uc ctx c s = (s', a)"
  shows "coherent s'"
  using call_step [OF run] coh
    cache.user_step_coherent [OF repository.user_repository_axioms app codec]
  unfolding coherent_def by blast

lemma expire_coherent: "coherent s \<Longrightarrow> strs d \<subseteq>\<^sub>m strs (as_cache s) \<Longrightarrow> coherent (s\<lparr>as_cache := d\<rparr>)"
  by (simp add: coherent_def coherent_expire)

lemma sim_trace:
  assumes "user_trace L uc ctx strs s tr s'" "coherent s"
  shows "service_trace L (uu_jwt uc) (abs_service s) tr (abs_service s') \<and> coherent s'"
  using assms
proof induction
  case (trace_nil s)
  then show ?case by (simp add: service_trace.service_nil)
next
  case (trace_call c s s1 a tr s')
  from call_coherent [OF trace_call.prems trace_call.hyps(1)] trace_call.IH
    sim_call [OF trace_call.prems trace_call.hyps(1)]
  show ?case by (auto intro: service_trace.service_cons)
next
  case (trace_expire d' s tr s')
  from expire_coherent [OF trace_expire.prems trace_expire.hyps(1)] trace_expire.IH
  show ?case by simp
qed

end

section \<open>A sequence of calls\<close>

fun user_calls_run ::
  "libs \<Rightarrow> ('r, 'd, 'q, 'w) user_usecase \<Rightarrow> go_context \<Rightarrow> user_call list \<Rightarrow> ('r, 'd, 'q) app_state \<Rightarrow>
   (user_call \<times> user_reply) list \<times> ('r, 'd, 'q) app_state" where
  "user_calls_run L uc ctx [] s = ([], s)"
| "user_calls_run L uc ctx (c # cs) s =
     (let (s1, a) = user_call_run L uc ctx c s; (tr, s') = user_calls_run L uc ctx cs s1
      in ((c, a) # tr, s'))"

lemma user_calls_trace:
  "user_trace L uc ctx strs s (fst (user_calls_run L uc ctx cs s)) (snd (user_calls_run L uc ctx cs s))"
proof (induction cs arbitrary: s)
  case (Cons c cs)
  obtain s1 a where "user_call_run L uc ctx c s = (s1, a)" by (cases "user_call_run L uc ctx c s")
  with Cons.IH [of s1] show ?case
    by (cases "user_calls_run L uc ctx cs s1") (simp add: user_trace.trace_call)
qed (simp add: user_trace.trace_nil)

lemma user_calls_fst: "map fst (fst (user_calls_run L uc ctx cs s)) = cs"
proof (induction cs arbitrary: s)
  case (Cons c cs)
  obtain s1 a where "user_call_run L uc ctx c s = (s1, a)" by (cases "user_call_run L uc ctx c s")
  with Cons.IH [of s1] show ?case by (cases "user_calls_run L uc ctx cs s1") simp
qed simp

section \<open>The service on the synchronous queue\<close>

text \<open>
  The welcome jobs go through the synchronous driver to a handler that keeps the payloads it
  decodes; the other collaborators are those of the sample application.
\<close>

definition keep_payload :: "welcome_email_payload list handler" where
  "keep_payload ctx raw w = 
     (case dec_welcome raw of Inl e \<Rightarrow> (w, Ret (Some e)) | Inr p \<Rightarrow> (w @ [p], Ret None))"

definition keeping_driver :: "welcome_email_payload list sync_driver" where
  "keeping_driver = sync_RegisterHandler (NewSyncDriver None) JobWelcomeEmail keep_payload"

definition keeping_dispatch :: "welcome_email_payload list dispatcher" where
  "keeping_dispatch ctx name p w =
     (case sync_Dispatch enc_welcome keeping_driver ctx name p w of
        (w', r) \<Rightarrow> bind_outcome r (\<lambda>e. Ret (w', e)))"

definition keeping_usecase :: "(user list, mem_server, welcome_email_payload list, unit) user_usecase" where
  "keeping_usecase =
     NewUserUsecase (NewUserRepository mem_user_db) sample_client (NewJWTService ''secret'' 24)
       (Some keeping_dispatch) []"

lemma keeping_hands_out:
  "dispatch_welcome keeping_usecase ctx u w = Ret (w @ [welcome_payload u])"
proof -
  obtain raw where raw: "enc_welcome (welcome_payload u) = Inr raw" by (simp add: enc_welcome_def)
  show ?thesis
    using raw welcome_codec [OF raw]
    by (simp add: dispatch_welcome_def keeping_usecase_def NewUserUsecase_def keeping_dispatch_def
        sync_Dispatch_def keeping_driver_def sync_RegisterHandler_def NewSyncDriver_def
        ExecuteJob_registered MarshalPayload_def keep_payload_def welcome_payload_def [symmetric])
qed

lemma keeping_app: "cached_app keeping_usecase (NewUserRepository mem_user_db) mem_redis"
  by (simp add: cached_app_def keeping_usecase_def NewUserUsecase_def sample_client_def Underlying_def
      IsEnabled_def)

interpretation keeping: user_service "NewUserRepository mem_user_db" mem_user_rows mem_listing
  mem_redis mrs_strs mrs_lists sample_libs keeping_usecase ctx "\<lambda>w. w" mem_verified
  for ctx :: go_context
  by unfold_locales (simp_all add: keeping_app sample_codec sample_jwt keeping_hands_out)

section \<open>The refinement\<close>

text \<open>
  C2. The use cases refine the abstract service. Take any history of calls, with cache entries
  expiring in between, that starts with a cache that agrees with the table, on a database and a
  cache server that are up and a queue that takes the welcome jobs; the database takes every row whose
  address is free, so the lengths of its columns are left aside. The abstract service, which
  has nothing but a table of users, has the same calls with the same replies: registration,
  login, cached and listed reads, changes and removals reply as the table alone determines, and
  each successful registration, and nothing else, hands out one welcome payload.
\<close>

theorem user_service_refines_table:
  assumes svc: "user_service repo users listed R strs lsts L uc ctx sent V"
    and coh: "cache_coherent (lib_dec L) (users (as_repo s)) (strs (as_cache s))"
    and run: "user_trace L uc ctx strs s tr s'"
  shows "service_trace L (uu_jwt uc)
      \<lparr>sv_users = users (as_repo s), sv_welcomed = sent (as_queue s)\<rparr> tr
      \<lparr>sv_users = users (as_repo s'), sv_welcomed = sent (as_queue s')\<rparr>"
  using user_service.sim_trace [OF svc run] coh
  by (simp add: user_service.coherent_def [OF svc] user_service.abs_service_def [OF svc])

definition sample_calls :: "user_call list" where
  "sample_calls =
     [CallRegister sample_request ''salt'' ''id1'' 10 11, CallRegister sample_request ''salt'' ''id2'' 12 13,
      CallGetByID ''id1'', CallUpdate ''id1'' rename_request 20, CallGetByID ''id1'', CallGetAll 0 0,
      CallDelete ''id1'', CallGetByID ''id1'']"

definition keeping_start :: "(user list, mem_server, welcome_email_payload list) app_state" where
  "keeping_start = \<lparr>as_repo = [], as_cache = mem_server_empty, as_queue = []\<rparr>"

definition reply_names :: "user_reply \<Rightarrow> string list" where
  "reply_names a =
     (case a of Registered x \<Rightarrow> [ur_Name x] | Found (Some x) \<Rightarrow> [ur_Name x] | Updated x \<Rightarrow> [ur_Name x]
      | Page us n \<Rightarrow> map ur_Name us | _ \<Rightarrow> [])"

lemma sample_replies:
  "map (reply_names \<circ> snd) (fst (user_calls_run sample_libs keeping_usecase RequestContext sample_calls keeping_start)) =
   [[''Ada''], [], [''Ada''], [''Augusta''], [''Augusta''], [''Augusta''], [], []]"
  by code_simp

theorem user_service_refines_table_witness:
  "\<exists>tr v. service_trace sample_libs (uu_jwt keeping_usecase) \<lparr>sv_users = Map.empty, sv_welcomed = []\<rparr> tr v \<and>
     map fst tr = sample_calls \<and> map (reply_names \<circ> snd) tr =
       [[''Ada''], [], [''Ada''], [''Augusta''], [''Augusta''], [''Augusta''], [], []]"
proof -
  let ?r = "user_calls_run sample_libs keeping_usecase RequestContext sample_calls keeping_start"
  have run: "user_trace sample_libs keeping_usecase RequestContext mrs_strs keeping_start (fst ?r) (snd ?r)"
    by (rule user_calls_trace)
  have empty: "mem_user_rows (as_repo keeping_start) = Map.empty" "as_queue keeping_start = []"
    by (simp_all add: keeping_start_def mem_user_rows_def mem_listing_def)
  have "cache_coherent (lib_dec sample_libs) (mem_user_rows (as_repo keeping_start))
      (mrs_strs (as_cache keeping_start))"
    by (simp add: keeping_start_def mem_server_empty_def coherent_empty)
  note user_service_refines_table [OF keeping.user_service_axioms this run, unfolded empty]
  then show ?thesis
    by (intro exI [of _ "fst ?r"] exI conjI user_calls_fst sample_replies)
qed

end
