(* ===== verification/Http_Service.thy ===== *)
theory Http_Service
  imports User_Service Route_Reports Middleware_Properties
begin

text \<open>
  The HTTP server as a client of the abstract user service of \<open>User_Service\<close>. \<open>request_endpoint\<close> is
  the contract of the routes: which call of the service a request stands for, given its route, its
  parameters, its body and its token, or which status answers it without a call. \<open>answer_of\<close> is the
  reply that belongs to what a call returned. \<open>http_history\<close> is a history of requests on one server, in
  which cache entries may expire.

  Lemmas: each handler makes the call of its endpoint and no other; each middleware keeps that; the
  effect of a request.
\<close>

section \<open>What a reply says\<close>

text \<open>The status for an error, by the call it comes from.\<close>

fun refusal_status :: "user_call \<Rightarrow> err \<Rightarrow> int" where
  "refusal_status (CallRegister req salt uuid t1 t2) e = (if errors_is e ErrAlreadyExists then 409 else 500)"
| "refusal_status (CallLogin req now) e = (if errors_is e ErrInvalidCredentials then 401 else 500)"
| "refusal_status (CallGetByID i) e = (if errors_is e ErrNotFound then 404 else 500)"
| "refusal_status (CallGetAll page pageSize) e = 500"
| "refusal_status (CallUpdate i req now) e =
     (if errors_is e ErrNotFound then 404 else if errors_is e ErrAlreadyExists then 409 else 500)"
| "refusal_status (CallDelete i) e = (if errors_is e ErrNotFound then 404 else 500)"

fun answer_of :: "user_call \<Rightarrow> user_reply \<Rightarrow> reply \<Rightarrow> bool" where
  "answer_of c (Refused e) rep \<longleftrightarrow> reply_status rep = refusal_status c e \<and> reply_data_of rep = NoData"
| "answer_of c (Registered u) rep \<longleftrightarrow> reply_status rep = 201 \<and> reply_data_of rep = UserData (Some u)"
| "answer_of c (LoggedIn x) rep \<longleftrightarrow> reply_status rep = 200 \<and> reply_data_of rep = LoginData x"
| "answer_of c (Found u) rep \<longleftrightarrow> reply_status rep = 200 \<and> reply_data_of rep = UserData u"
| "answer_of c (Page us n) rep \<longleftrightarrow>
     reply_status rep = 200 \<and> (\<exists>m. reply_data_of rep = PageData us m \<and> pm_TotalItems m = n)"
| "answer_of c (Updated u) rep \<longleftrightarrow> reply_status rep = 200 \<and> reply_data_of rep = UserData (Some u)"
| "answer_of c Removed rep \<longleftrightarrow> reply_status rep = 200 \<and> reply_data_of rep = NoData"
| "answer_of c (Crashed msg) rep \<longleftrightarrow> rep = panic_reply"

text \<open>No user, token or page in it.\<close>

definition tells_no_user :: "reply \<Rightarrow> bool" where
  "tells_no_user rep \<longleftrightarrow> (case reply_data_of rep of NoData \<Rightarrow> True | Fields fs \<Rightarrow> True | _ \<Rightarrow> False)"

section \<open>The contract of the routes\<close>

text \<open>A request stands for a call, or is answered with one of some statuses and no call.\<close>

datatype endpoint = Calls user_call | Answers "int set"

definition valid_claims :: "jwt_ops \<Rightarrow> jwt_service \<Rightarrow> request \<Rightarrow> claims option" where
  "valid_claims J svc rq =
     (case bearer_token rq of
        None \<Rightarrow> None
      | Some tok \<Rightarrow> (case ValidateToken J svc (rq_Time rq) tok of Inl e \<Rightarrow> None | Inr cl \<Rightarrow> Some cl))"

definition create_endpoint :: "http_libs \<Rightarrow> seed \<Rightarrow> request \<Rightarrow> endpoint" where
  "create_endpoint H sd rq =
     (case bind_json (hl_decode_create H) (create_user_request_ok (hl_is_email H)) (hl_invalid H) (rq_Body rq) of
        Inl e \<Rightarrow> Answers {400}
      | Inr req \<Rightarrow> Calls (CallRegister req (sd_salt sd) (sd_uuid sd) (sd_created sd) (sd_updated sd)))"

definition login_endpoint :: "http_libs \<Rightarrow> request \<Rightarrow> endpoint" where
  "login_endpoint H rq =
     (case bind_json (hl_decode_login H) (login_request_ok (hl_is_email H)) (hl_invalid H) (rq_Body rq) of
        Inl e \<Rightarrow> Answers {400}
      | Inr req \<Rightarrow> Calls (CallLogin req (rq_Time rq)))"

definition update_endpoint :: "http_libs \<Rightarrow> request \<Rightarrow> string \<Rightarrow> endpoint" where
  "update_endpoint H rq i =
     (case bind_json (hl_decode_update H) (update_user_request_ok (hl_is_email H)) (hl_invalid H) (rq_Body rq) of
        Inl e \<Rightarrow> Answers {400}
      | Inr req \<Rightarrow> Calls (CallUpdate i req (rq_Time rq)))"

definition get_endpoint :: "string \<Rightarrow> endpoint" where
  "get_endpoint i = (if i = [] then Answers {400} else Calls (CallGetByID i))"

definition param_id :: "(string \<rightharpoonup> string) \<Rightarrow> string" where
  "param_id ps = (case ps ''id'' of None \<Rightarrow> [] | Some i \<Rightarrow> i)"

text \<open>The routes without a token, and those with the claims of one.\<close>

definition public_endpoint :: "http_libs \<Rightarrow> seed \<Rightarrow> request \<Rightarrow> route_key \<Rightarrow> endpoint option" where
  "public_endpoint H sd rq =
     [(''GET'', ''/swagger/*any'') \<mapsto> Answers UNIV,
      (''GET'', ''/health'') \<mapsto> Answers {200, 503},
      (''GET'', ''/health/live'') \<mapsto> Answers {200},
      (''GET'', ''/health/ready'') \<mapsto> Answers {200, 503},
      (''POST'', ''/api/v1/auth/register'') \<mapsto> create_endpoint H sd rq,
      (''POST'', ''/api/v1/auth/login'') \<mapsto> login_endpoint H rq,
      (''POST'', ''/api/v1/auth/logout'') \<mapsto> Answers {200}]"

definition private_endpoint ::
  "http_libs \<Rightarrow> seed \<Rightarrow> request \<Rightarrow> (string \<rightharpoonup> string) \<Rightarrow> claims \<Rightarrow> route_key \<Rightarrow> endpoint option" where
  "private_endpoint H sd rq ps cl =
     [(''GET'', ''/api/v1/auth/me'') \<mapsto> Calls (CallGetByID (cl_UserID cl)),
      (''POST'', ''/api/v1/users'') \<mapsto> create_endpoint H sd rq,
      (''GET'', ''/api/v1/users'') \<mapsto>
        Calls (CallGetAll (query_int ''page'' ''1'' rq) (query_int ''page_size'' ''10'' rq)),
      (''GET'', ''/api/v1/users/:id'') \<mapsto> get_endpoint (param_id ps),
      (''PUT'', ''/api/v1/users/:id'') \<mapsto> update_endpoint H rq (param_id ps),
      (''DELETE'', ''/api/v1/users/:id'') \<mapsto> Calls (CallDelete (param_id ps))]"

definition with_claims ::
  "('r, 'd, 'q, 'w, 'l) router_config \<Rightarrow> request \<Rightarrow> (claims \<Rightarrow> endpoint) \<Rightarrow> endpoint" where
  "with_claims cfg rq e =
     (case valid_claims (lib_jwt (hl_libs (rcf_libs cfg))) (rcf_JWTService cfg) rq of
        None \<Rightarrow> Answers {401} | Some cl \<Rightarrow> e cl)"

definition route_endpoint ::
  "('r, 'd, 'q, 'w, 'l) router_config \<Rightarrow> seed \<Rightarrow> request \<Rightarrow> route_key \<Rightarrow> (string \<rightharpoonup> string) \<Rightarrow> endpoint" where
  "route_endpoint cfg sd rq k ps =
     (case public_endpoint (rcf_libs cfg) sd rq k of
        Some e \<Rightarrow> e
      | None \<Rightarrow>
          with_claims cfg rq (\<lambda>cl.
            case private_endpoint (rcf_libs cfg) sd rq ps cl k of None \<Rightarrow> Answers {} | Some e \<Rightarrow> e))"

definition request_endpoint ::
  "route_match \<Rightarrow> ('r, 'd, 'q, 'w, 'l) router_config \<Rightarrow> seed \<Rightarrow> request \<Rightarrow> endpoint" where
  "request_endpoint lookup cfg sd rq =
     (case lookup (map route_key (routes cfg sd)) (rq_Method rq) (rq_Path rq) of
        TrailingSlash \<Rightarrow> Answers {redirect_status rq}
      | Unrouted \<Rightarrow> Answers (if rq_Method rq = ''OPTIONS'' then {204} else {404})
      | Handled k ps \<Rightarrow> route_endpoint cfg sd rq k ps)"

fun endpoint_effect ::
  "http_libs \<Rightarrow> ('r, 'd, 'q, 'w) user_usecase \<Rightarrow> endpoint \<Rightarrow> ('r, 'd, 'q) app_state \<Rightarrow>
   reply \<Rightarrow> ('r, 'd, 'q) app_state \<Rightarrow> bool" where
  "endpoint_effect H uc (Answers N) s rep s' \<longleftrightarrow> reply_status rep \<in> N \<and> tells_no_user rep \<and> s' = s"
| "endpoint_effect H uc (Calls c) s rep s' \<longleftrightarrow>
     (\<exists>a. user_call_run (hl_libs H) uc RequestContext c s = (s', a) \<and> answer_of c a rep)"

section \<open>The handlers\<close>

lemma pendingD:
  "pending rq ps s c \<Longrightarrow> c_Request c = rq" "pending rq ps s c \<Longrightarrow> c_Replies c = []"
  "pending rq ps s c \<Longrightarrow> sw_app (c_World c) = s"
  by (simp_all add: pending_def)

lemma param_pending: "pending rq ps s c \<Longrightarrow> ctx_Param ''id'' c = param_id ps"
  by (simp add: pending_def ctx_Param_def param_id_def)

lemmas handler_defs = app_of_def with_app_def response_defs ctx_simps tells_no_user_def Let_def

lemma effect_Create: "gives rq ps s (endpoint_effect H uc (create_endpoint H sd rq) s) (handler_Create H uc sd)"
proof (rule givesI, goal_cases)
  case (1 c)
  note r = pendingD [OF 1]
  show ?case
  proof (cases "bind_json (hl_decode_create H) (create_user_request_ok (hl_is_email H)) (hl_invalid H) (rq_Body rq)")
    case (Inl e)
    then show ?thesis by (simp add: r create_endpoint_def handler_Create_def handler_defs)
  next
    case (Inr req)
    obtain s' res where reg: "usecase_Register (hl_libs H) uc RequestContext req (sd_salt sd) (sd_uuid sd)
        (sd_created sd) (sd_updated sd) s = (s', res)" by (metis prod.exhaust)
    show ?thesis
    proof (cases res)
      case (Ret x)
      with Inr reg show ?thesis
        by (cases x) (simp_all add: r create_endpoint_def user_call_run_def handler_Create_def handler_defs)
    next
      case (Panic msg)
      with Inr reg show ?thesis
        by (simp add: r create_endpoint_def user_call_run_def handler_Create_def handler_defs)
    qed
  qed
qed

lemma effect_Login: "gives rq ps s (endpoint_effect H uc (login_endpoint H rq) s) (handler_Login H uc)"
proof (rule givesI, goal_cases)
  case (1 c)
  note r = pendingD [OF 1]
  show ?case
  proof (cases "bind_json (hl_decode_login H) (login_request_ok (hl_is_email H)) (hl_invalid H) (rq_Body rq)")
    case (Inl e)
    then show ?thesis by (simp add: r login_endpoint_def handler_Login_def handler_defs)
  next
    case (Inr req)
    then show ?thesis
      by (cases "usecase_Login (hl_libs H) uc req (rq_Time rq) s")
        (simp_all add: r login_endpoint_def user_call_run_def handler_Login_def handler_defs)
  qed
qed

lemma effect_GetProfile:
  assumes c: "pending rq ps s c" and i: "GetUserIDFromContext c = Some i"
  shows "settled (endpoint_effect H uc (Calls (CallGetByID i)) s) (handler_GetProfile H uc c)"
proof -
  obtain s' res where get: "usecase_GetByID (hl_libs H) uc i s = (s', res)" by (metis prod.exhaust)
  then show ?thesis
    by (cases res)
      (simp_all add: pendingD [OF c] i user_call_run_def handler_GetProfile_def usecase_GetProfile_def handler_defs)
qed

lemma effect_GetByID: "gives rq ps s (endpoint_effect H uc (get_endpoint (param_id ps)) s) (handler_GetByID H uc)"
proof (rule givesI, goal_cases)
  case (1 c)
  note r = pendingD [OF 1] param_pending [OF 1]
  obtain s' res where get: "usecase_GetByID (hl_libs H) uc (param_id ps) s = (s', res)" by (metis prod.exhaust)
  show ?case
  proof (cases "param_id ps = []")
    case True
    then show ?thesis by (simp add: r get_endpoint_def handler_GetByID_def handler_defs)
  next
    case False
    with get show ?thesis
      by (cases res) (simp_all add: r get_endpoint_def user_call_run_def handler_GetByID_def handler_defs)
  qed
qed

lemma effect_GetAll:
  "gives rq ps s (endpoint_effect H uc
     (Calls (CallGetAll (query_int ''page'' ''1'' rq) (query_int ''page_size'' ''10'' rq))) s) (handler_GetAll uc)"
proof (rule givesI, goal_cases)
  case (1 c)
  show ?case
    by (cases "usecase_GetAll uc (query_int ''page'' ''1'' rq) (query_int ''page_size'' ''10'' rq) s")
      (auto simp: pendingD [OF 1] query_int_pending [OF 1] user_call_run_def handler_GetAll_def handler_defs)
qed

lemma effect_Update: "gives rq ps s (endpoint_effect H uc (update_endpoint H rq (param_id ps)) s) (handler_Update H uc)"
proof (rule givesI, goal_cases)
  case (1 c)
  note r = pendingD [OF 1] param_pending [OF 1]
  show ?case
  proof (cases "bind_json (hl_decode_update H) (update_user_request_ok (hl_is_email H)) (hl_invalid H) (rq_Body rq)")
    case (Inl e)
    then show ?thesis by (simp add: r update_endpoint_def handler_Update_def handler_defs)
  next
    case (Inr req)
    obtain s' res where "usecase_Update uc (param_id ps) req (rq_Time rq) s = (s', res)" by (metis prod.exhaust)
    with Inr show ?thesis
      by (cases res) (simp_all add: r update_endpoint_def user_call_run_def handler_Update_def handler_defs)
  qed
qed

lemma effect_Delete:
  "gives rq ps s (endpoint_effect H uc (Calls (CallDelete (param_id ps))) s) (handler_Delete uc)"
proof (rule givesI, goal_cases)
  case (1 c)
  obtain s' e where "usecase_Delete uc (param_id ps) s = (s', e)" by (metis prod.exhaust)
  then show ?case
    by (cases e) (simp_all add: pendingD [OF 1] param_pending [OF 1] user_call_run_def handler_Delete_def handler_defs)
qed

lemma effect_plain:
  "gives rq ps s (endpoint_effect H uc (Answers {200}) s) handler_Logout"
  "gives rq ps s (endpoint_effect H uc (Answers {200, 503}) s) (handler_Check H' HD cache)"
  "gives rq ps s (endpoint_effect H uc (Answers {200}) s) (handler_Liveness H')"
  "gives rq ps s (endpoint_effect H uc (Answers {200, 503}) s) (handler_Readiness H' HD)"
  "gives rq ps s (endpoint_effect H uc (Answers {404}) s) not_found_handler"
  by (rule givesI, simp add: handler_Logout_def handler_Check_def handler_Liveness_def handler_Readiness_def
      not_found_handler_def handler_defs pendingD split: prod.split)+

section \<open>The middlewares and the routes\<close>

text \<open>Behind the middleware that checks the token.\<close>

lemma effect_Auth:
  assumes "\<And>cl c. valid_claims J svc rq = Some cl \<Longrightarrow> pending rq ps s c \<Longrightarrow>
      GetUserIDFromContext c = Some (cl_UserID cl) \<Longrightarrow> settled (endpoint_effect H uc (e cl) s) (h c)"
  shows "gives rq ps s
    (endpoint_effect H uc (case valid_claims J svc rq of None \<Rightarrow> Answers {401} | Some cl \<Rightarrow> e cl) s) (AuthMiddleware J svc h)"
proof (cases "valid_claims J svc rq")
  case None
  have "gives rq ps s (\<lambda>rep s'. reply_status rep = 401 \<and> reply_data_of rep = NoData \<and> s' = s) (AuthMiddleware J svc h)"
    by (rule gives_Auth_refused) (use None in \<open>auto simp: valid_claims_def split: option.splits sum.splits\<close>)
  then show ?thesis
    by (rule gives_mono) (simp add: None tells_no_user_def)
next
  case (Some cl)
  then obtain tok where t: "bearer_token rq = Some tok" "ValidateToken J svc (rq_Time rq) tok = Inr cl"
    by (auto simp: valid_claims_def split: option.splits sum.splits)
  show ?thesis
    unfolding Some option.case by (rule gives_Auth [OF t]) (rule assms [OF Some])
qed

lemmas effect_private = effect_GetProfile givesD [OF effect_Create] givesD [OF effect_GetAll]
  givesD [OF effect_GetByID] givesD [OF effect_Update] givesD [OF effect_Delete]

definition swagger_inert :: "('r, 'd, 'q, 'w, 'l) router_config \<Rightarrow> bool" where
  "swagger_inert cfg \<longleftrightarrow>
     (\<forall>rq ps s. gives rq ps s (\<lambda>rep s'. s' = s \<and> tells_no_user rep) (rcf_swagger cfg))"

lemma effect_swagger:
  "swagger_inert cfg \<Longrightarrow> gives rq ps s (endpoint_effect H uc (Answers UNIV) s) (rcf_swagger cfg)"
  unfolding swagger_inert_def by (rule gives_mono, blast) simp

text \<open>The endpoint of each route.\<close>

lemma public_route_endpoints:
  "route_endpoint cfg sd rq (''GET'', ''/swagger/*any'') ps = Answers UNIV"
  "route_endpoint cfg sd rq (''GET'', ''/health'') ps = Answers {200, 503}"
  "route_endpoint cfg sd rq (''GET'', ''/health/live'') ps = Answers {200}"
  "route_endpoint cfg sd rq (''GET'', ''/health/ready'') ps = Answers {200, 503}"
  "route_endpoint cfg sd rq (''POST'', ''/api/v1/auth/register'') ps = create_endpoint (rcf_libs cfg) sd rq"
  "route_endpoint cfg sd rq (''POST'', ''/api/v1/auth/login'') ps = login_endpoint (rcf_libs cfg) rq"
  "route_endpoint cfg sd rq (''POST'', ''/api/v1/auth/logout'') ps = Answers {200}"
  by (simp_all add: route_endpoint_def public_endpoint_def)

lemma private_route_endpoints:
  "route_endpoint cfg sd rq (''GET'', ''/api/v1/auth/me'') ps =
     with_claims cfg rq (\<lambda>cl. Calls (CallGetByID (cl_UserID cl)))"
  "route_endpoint cfg sd rq (''POST'', ''/api/v1/users'') ps = with_claims cfg rq (\<lambda>cl. create_endpoint (rcf_libs cfg) sd rq)"
  "route_endpoint cfg sd rq (''GET'', ''/api/v1/users'') ps =
     with_claims cfg rq (\<lambda>cl. Calls (CallGetAll (query_int ''page'' ''1'' rq) (query_int ''page_size'' ''10'' rq)))"
  "route_endpoint cfg sd rq (''GET'', ''/api/v1/users/:id'') ps = with_claims cfg rq (\<lambda>cl. get_endpoint (param_id ps))"
  "route_endpoint cfg sd rq (''PUT'', ''/api/v1/users/:id'') ps =
     with_claims cfg rq (\<lambda>cl. update_endpoint (rcf_libs cfg) rq (param_id ps))"
  "route_endpoint cfg sd rq (''DELETE'', ''/api/v1/users/:id'') ps =
     with_claims cfg rq (\<lambda>cl. Calls (CallDelete (param_id ps)))"
  by (simp_all add: route_endpoint_def public_endpoint_def private_endpoint_def)

definition route_effect ::
  "('r, 'd, 'q, 'w, 'l) router_config \<Rightarrow> seed \<Rightarrow> request \<Rightarrow> (string \<rightharpoonup> string) \<Rightarrow> ('r, 'd, 'q) app_state \<Rightarrow>
   ('r, 'd, 'q, 'l) world route \<Rightarrow> bool" where
  "route_effect cfg sd rq ps s r \<longleftrightarrow>
     gives rq ps s (endpoint_effect (rcf_libs cfg) (rcf_usecase cfg) (route_endpoint cfg sd rq (route_key r) ps) s)
       (chain (rt_Middlewares r) (rt_Handler r))"

lemma public_routes_effect: "swagger_inert cfg \<Longrightarrow> list_all (route_effect cfg sd rq ps s) (public_routes cfg sd)"
  by (simp add: public_routes_def get_route_def post_route_def route_effect_def route_key_def public_route_endpoints
      effect_swagger effect_plain effect_Create effect_Login)

lemma private_effect:
  assumes "\<And>cl c. pending rq ps s c \<Longrightarrow> GetUserIDFromContext c = Some (cl_UserID cl) \<Longrightarrow>
      settled (endpoint_effect (rcf_libs cfg) (rcf_usecase cfg) (e cl) s) (h c)"
  shows "gives rq ps s (endpoint_effect (rcf_libs cfg) (rcf_usecase cfg) (with_claims cfg rq e) s) (route_auth cfg h)"
  unfolding with_claims_def route_auth_def by (rule effect_Auth) (rule assms)

lemma private_routes_effect: "list_all (route_effect cfg sd rq ps s) (protected_routes cfg sd)"
  unfolding protected_routes_def get_route_def post_route_def list.pred_inject
  by (intro conjI TrueI; simp add: route_effect_def route_key_def private_route_endpoints)
    (rule private_effect, erule effect_private, assumption?)+

lemma effect_route:
  "swagger_inert cfg \<Longrightarrow> r \<in> set (routes cfg sd) \<Longrightarrow>
   gives rq ps s (endpoint_effect (rcf_libs cfg) (rcf_usecase cfg) (route_endpoint cfg sd rq (route_key r) ps) s)
     (chain (rt_Middlewares r) (rt_Handler r))"
  using public_routes_effect [of cfg sd rq ps s] private_routes_effect [of cfg sd rq ps s]
  by (auto simp: routes_def list_all_iff route_effect_def)

section \<open>Requests\<close>

text \<open>What a request may do: nothing when its client is limited, or what its endpoint says.\<close>

definition request_effect ::
  "route_match \<Rightarrow> ('r, 'd, 'q, 'w, 'l) router_config \<Rightarrow> seed \<Rightarrow> request \<Rightarrow> ('r, 'd, 'q) app_state \<Rightarrow> reply \<Rightarrow>
   ('r, 'd, 'q) app_state \<Rightarrow> bool" where
  "request_effect lookup cfg sd rq s rep s' \<longleftrightarrow>
     rep = limited_reply \<and> s' = s \<or>
     endpoint_effect (rcf_libs cfg) (rcf_usecase cfg) (request_endpoint lookup cfg sd rq) s rep s'"

lemma request_effectI:
  "(if b then endpoint_effect (rcf_libs cfg) (rcf_usecase cfg) (request_endpoint lookup cfg sd rq) s rep s'
    else rep = limited_reply \<and> s' = s) \<Longrightarrow> request_effect lookup cfg sd rq s rep s'"
  by (auto simp: request_effect_def split: if_splits)

lemma unrouted_effect:
  assumes "lookup (map route_key (routes cfg sd)) (rq_Method rq) (rq_Path rq) = Unrouted"
  shows "\<exists>c' rep. serve lookup cfg uuid sd rq w = Served c' \<and> c_Replies c' = [rep] \<and>
    request_effect lookup cfg sd rq (sw_app w) rep (sw_app (c_World c'))"
proof -
  have path: "\<not> redirected lookup cfg sd rq" "matched_route lookup cfg sd rq = None"
    using assms by (simp_all add: redirected_iff matched_route_def)
  show ?thesis
  proof (cases "rq_Method rq = ''OPTIONS''")
    case True
    have "request_endpoint lookup cfg sd rq = Answers {204}"
      unfolding request_endpoint_def assms by (simp add: True)
    with preflight_served [OF path(1) True, of uuid w] show ?thesis
      by (auto simp: request_effect_def tells_no_user_def)
  next
    case False
    have c: "pending rq Map.empty (sw_app w) (new_context rq w)" "c_World (new_context rq w) = w"
      by (simp_all add: pending_def new_context_def)
    have e: "request_endpoint lookup cfg sd rq = Answers {404}"
      unfolding request_endpoint_def assms using False by simp
    from global_handled [OF False c effect_plain(5), of cfg uuid "rcf_libs cfg" "rcf_usecase cfg", folded e]
    show ?thesis by (auto simp: serve_def path intro!: request_effectI)
  qed
qed

lemma handled_effect:
  assumes lookup: "route_lookup_ok lookup" and swagger: "swagger_inert cfg"
    and k: "lookup (map route_key (routes cfg sd)) (rq_Method rq) (rq_Path rq) = Handled k ps"
  shows "\<exists>c' rep. serve lookup cfg uuid sd rq w = Served c' \<and> c_Replies c' = [rep] \<and>
    request_effect lookup cfg sd rq (sw_app w) rep (sw_app (c_World c'))"
proof -
  obtain r where r: "find (\<lambda>r. route_key r = k) (routes cfg sd) = Some r"
    using lookup_handled [OF lookup k] by (cases "find (\<lambda>r. route_key r = k) (routes cfg sd)") (auto simp: find_None_iff)
  then have key: "route_key r = k" by (auto simp: find_Some_iff)
  have m: "matched_route lookup cfg sd rq = Some (r, ps)" by (simp add: matched_route_def k r)
  have e: "request_endpoint lookup cfg sd rq = route_endpoint cfg sd rq (route_key r) ps"
    by (simp add: request_endpoint_def k key)
  from serve_gives [OF lookup m effect_route [OF swagger matched_route_in [OF m]], where uuid = uuid, folded e]
  show ?thesis by (blast intro: request_effectI)
qed

lemma serve_effect:
  assumes "route_lookup_ok lookup" "swagger_inert cfg"
  shows "\<exists>c' rep. serve lookup cfg uuid sd rq w = Served c' \<and> c_Replies c' = [rep] \<and>
    request_effect lookup cfg sd rq (sw_app w) rep (sw_app (c_World c'))"
proof (cases "lookup (map route_key (routes cfg sd)) (rq_Method rq) (rq_Path rq)")
  case (Handled k ps)
  from handled_effect [OF assms this] show ?thesis .
next
  case TrailingSlash
  then show ?thesis
    by (simp add: serve_redirected redirected_iff new_context_def request_effect_def request_endpoint_def
        tells_no_user_def ctx_simps)
next
  case Unrouted
  show ?thesis by (rule unrouted_effect) (rule Unrouted)
qed

section \<open>Histories\<close>

text \<open>Each request comes with what the server drew for it.\<close>

inductive http_history ::
  "route_match \<Rightarrow> ('r, 'd, 'q, 'w, 'l) router_config \<Rightarrow> ('d \<Rightarrow> string \<rightharpoonup> string) \<Rightarrow>
   ('r, 'd, 'q, 'l) world \<Rightarrow> (seed \<times> request \<times> reply) list \<Rightarrow> ('r, 'd, 'q, 'l) world \<Rightarrow> bool"
  for lookup cfg strs where
  http_nil: "http_history lookup cfg strs w [] w"
| http_serve: "serve lookup cfg uuid sd rq w = Served c \<Longrightarrow> c_Replies c = [rep] \<Longrightarrow>
    http_history lookup cfg strs (c_World c) hs w' \<Longrightarrow> http_history lookup cfg strs w ((sd, rq, rep) # hs) w'"
| http_expire: "strs d' \<subseteq>\<^sub>m strs (as_cache (sw_app w)) \<Longrightarrow>
    http_history lookup cfg strs (w\<lparr>sw_app := (sw_app w)\<lparr>as_cache := d'\<rparr>\<rparr>) hs w' \<Longrightarrow>
    http_history lookup cfg strs w hs w'"

text \<open>
  The calls of a trace are, in order, those that the requests stand for, but for the requests of limited
  clients, and each reply is the one that belongs to what its call returned; a request that stands for no
  call has one of the statuses of its endpoint and tells nothing about a user.
\<close>

fun explained ::
  "route_match \<Rightarrow> ('r, 'd, 'q, 'w, 'l) router_config \<Rightarrow> (seed \<times> request \<times> reply) list \<Rightarrow>
   (user_call \<times> user_reply) list \<Rightarrow> bool" where
  "explained lookup cfg [] tr \<longleftrightarrow> tr = []"
| "explained lookup cfg ((sd, rq, rep) # hs) tr \<longleftrightarrow>
     rep = limited_reply \<and> explained lookup cfg hs tr \<or>
     (case request_endpoint lookup cfg sd rq of
        Answers N \<Rightarrow> reply_status rep \<in> N \<and> tells_no_user rep \<and> explained lookup cfg hs tr
      | Calls c \<Rightarrow>
          (case tr of
             [] \<Rightarrow> False
           | (c', a) # tr' \<Rightarrow> c' = c \<and> answer_of c a rep \<and> explained lookup cfg hs tr'))"

lemma http_history_trace:
  assumes "http_history lookup cfg strs w hs w'" "route_lookup_ok lookup" "swagger_inert cfg"
  shows "\<exists>tr. user_trace (hl_libs (rcf_libs cfg)) (rcf_usecase cfg) RequestContext strs (sw_app w) tr (sw_app w') \<and>
    explained lookup cfg hs tr"
  using assms(1)
proof induction
  case (http_nil w)
  show ?case by (intro exI [of _ "[]"]) (simp add: user_trace.trace_nil)
next
  case (http_serve uuid sd rq w c rep hs w')
  from http_serve.IH obtain tr where
    tr: "user_trace (hl_libs (rcf_libs cfg)) (rcf_usecase cfg) RequestContext strs (sw_app (c_World c)) tr (sw_app w')"
    "explained lookup cfg hs tr" by blast
  from serve_effect [OF assms(2,3), of uuid sd rq w] http_serve.hyps
  have eff: "request_effect lookup cfg sd rq (sw_app w) rep (sw_app (c_World c))" by auto
  show ?case
  proof (cases "rep = limited_reply \<and> sw_app (c_World c) = sw_app w")
    case True
    with tr show ?thesis by (intro exI [of _ tr]) simp
  next
    case False
    show ?thesis
    proof (cases "request_endpoint lookup cfg sd rq")
      case (Answers N)
      with eff False tr show ?thesis by (intro exI [of _ tr]) (auto simp: request_effect_def)
    next
      case (Calls call)
      with eff False obtain a where "user_call_run (hl_libs (rcf_libs cfg)) (rcf_usecase cfg) RequestContext call (sw_app w) =
          (sw_app (c_World c), a)" "answer_of call a rep"
        by (auto simp: request_effect_def)
      with Calls tr show ?thesis
        by (intro exI [of _ "(call, a) # tr"]) (auto intro: user_trace.trace_call)
    qed
  qed
next
  case (http_expire d' w hs w')
  then show ?case by (auto intro: user_trace.trace_expire)
qed

text \<open>
  C1. The HTTP server refines the abstract user service. Take any history of requests, one after the
  other, valid or not, on a server whose database, cache and queue are up (the database takes every row
  with a new identifier and a free address: no column limit refuses one), which starts with a cache that
  agrees with the table, for instance an empty one, and whose cache entries may expire at any time. There
  is a history of the abstract service, which is a table of users and nothing else, that explains it: it
  ends in the users that the database holds and in the welcome jobs that were queued, and its calls are,
  in the order of the requests, exactly those that the requests stand for, so that a deletion that was
  acknowledged removed its user. Which call that is, is fixed by the route, its parameters, the body and
  the token; every reply has the status and the data that belong to what its call returned. No call, no
  change and no data of a user come from a request without a valid token on a protected route (401), with
  a body that is not valid (400), without a route (404), for a preflight (204), for a path that gin
  redirects (301 or 307), for the probes, the logout and the Swagger pages, or over the limit of its
  client (429). The Swagger handler is taken to change nothing and to know nothing of users.
\<close>

theorem http_server_refines_service:
  assumes svc: "user_service repo users listed R strs lsts (hl_libs (rcf_libs cfg)) (rcf_usecase cfg) RequestContext sent V"
    and lookup: "route_lookup_ok lookup" and swagger: "swagger_inert cfg"
    and coh: "cache_coherent (lib_dec (hl_libs (rcf_libs cfg))) (users (as_repo (sw_app w))) (strs (as_cache (sw_app w)))"
    and run: "http_history lookup cfg strs w hs w'"
  shows "\<exists>tr. service_trace (hl_libs (rcf_libs cfg)) (uu_jwt (rcf_usecase cfg))
      \<lparr>sv_users = users (as_repo (sw_app w)), sv_welcomed = sent (as_queue (sw_app w))\<rparr> tr
      \<lparr>sv_users = users (as_repo (sw_app w')), sv_welcomed = sent (as_queue (sw_app w'))\<rparr> \<and>
    explained lookup cfg hs tr"
proof -
  obtain tr where tr: "user_trace (hl_libs (rcf_libs cfg)) (rcf_usecase cfg) RequestContext strs (sw_app w) tr (sw_app w')"
    "explained lookup cfg hs tr"
    using http_history_trace [OF run lookup swagger] by blast
  with user_service.sim_trace [OF svc tr(1)] coh show ?thesis
    by (auto simp: user_service.coherent_def [OF svc] user_service.abs_service_def [OF svc])
qed

section \<open>A concrete history\<close>

definition keeping_router :: "(user list, mem_server, welcome_email_payload list, unit, int) router_config" where
  "keeping_router =
     \<lparr>rcf_AppEnv = ''production'', rcf_libs = sample_http, rcf_usecase = keeping_usecase,
      rcf_health = \<lparr>ho_DB = (\<lambda>r. None), ho_Ping = (\<lambda>r. None)\<rparr>, rcf_cache = sample_client,
      rcf_JWTService = NewJWTService ''secret'' 24, rcf_CORS = load_cors no_settings,
      rcf_RateLimit = load_rate_limit no_settings, rcf_limiter = sample_limiter,
      rcf_swagger = not_found_handler\<rparr>"

fun http_run ::
  "route_match \<Rightarrow> ('r, 'd, 'q, 'w, 'l) router_config \<Rightarrow> (string \<times> seed \<times> request) list \<Rightarrow>
   ('r, 'd, 'q, 'l) world \<Rightarrow> (seed \<times> request \<times> reply) list \<times> ('r, 'd, 'q, 'l) world" where
  "http_run lookup cfg [] w = ([], w)"
| "http_run lookup cfg ((uuid, sd, rq) # xs) w =
     (case served_context (serve lookup cfg uuid sd rq w) of c \<Rightarrow>
       let (hs, w') = http_run lookup cfg xs (c_World c) in ((sd, rq, hd (c_Replies c)) # hs, w'))"

definition sample_visits :: "(string \<times> seed \<times> request) list" where
  "sample_visits =
     [(''u-1'', sample_seed, sample_rq ''POST'' ''/api/v1/auth/register''),
      (''u-2'', sample_seed, sample_rq ''GET'' ''/api/v1/users''),
      (''u-3'', sample_seed, sample_rq ''POST'' ''/api/v1/auth/register''),
      (''u-4'', sample_seed, sample_rq ''GET'' ''/health/live'')]"

definition keeping_world :: "(user list, mem_server, welcome_email_payload list, int) world" where
  "keeping_world = \<lparr>sw_app = keeping_start, sw_clients = Map.empty\<rparr>"

lemma sample_visits_status:
  "map (reply_status \<circ> snd \<circ> snd) (fst (http_run exact_match keeping_router sample_visits keeping_world)) = [201, 401, 409, 200]"
  by code_simp

lemma sample_visits_welcomed:
  "map wep_Email (as_queue (sw_app (snd (http_run exact_match keeping_router sample_visits keeping_world)))) =
     [''ada@x.org'']"
  by code_simp

lemma http_run_history:
  assumes "route_lookup_ok lookup" "swagger_inert cfg"
  shows "http_history lookup cfg strs w (fst (http_run lookup cfg xs w)) (snd (http_run lookup cfg xs w))"
proof (induction xs arbitrary: w)
  case (Cons x xs)
  obtain uuid sd rq where x: "x = (uuid, sd, rq)" by (metis prod.exhaust)
  obtain c rep where c: "serve lookup cfg uuid sd rq w = Served c" "c_Replies c = [rep]"
    using serve_effect [OF assms] by blast
  from http_history.http_serve [OF c Cons.IH] show ?case
    by (cases "http_run lookup cfg xs (c_World c)") (simp add: x c)
qed (simp add: http_history.http_nil)

lemma keeping_swagger: "swagger_inert keeping_router"
  unfolding swagger_inert_def
  by (intro allI, rule givesI)
    (auto simp: keeping_router_def not_found_handler_def handler_defs pendingD)

theorem http_server_refines_service_witness:
  "\<exists>tr v. service_trace sample_libs (uu_jwt keeping_usecase) \<lparr>sv_users = Map.empty, sv_welcomed = []\<rparr> tr v \<and>
     explained exact_match keeping_router
       (fst (http_run exact_match keeping_router sample_visits keeping_world)) tr \<and>
     map (reply_status \<circ> snd \<circ> snd) (fst (http_run exact_match keeping_router sample_visits keeping_world)) = [201, 401, 409, 200] \<and>
     map wep_Email (sv_welcomed v) = [''ada@x.org'']"
proof -
  let ?r = "http_run exact_match keeping_router sample_visits keeping_world"
  have cfg: "hl_libs (rcf_libs keeping_router) = sample_libs" "rcf_usecase keeping_router = keeping_usecase"
    "rcf_JWTService keeping_router = NewJWTService ''secret'' 24" "lib_jwt sample_libs = mem_jwt"
    by (simp_all add: keeping_router_def sample_http_def sample_libs_def)
  have start: "mem_user_rows (as_repo (sw_app keeping_world)) = Map.empty" "as_queue (sw_app keeping_world) = []"
    "mrs_strs (as_cache (sw_app keeping_world)) = Map.empty"
    by (simp_all add: keeping_world_def keeping_start_def mem_user_rows_def mem_listing_def mem_server_empty_def)
  have coh: "cache_coherent (lib_dec (hl_libs (rcf_libs keeping_router)))
      (mem_user_rows (as_repo (sw_app keeping_world))) (mrs_strs (as_cache (sw_app keeping_world)))"
    unfolding start(3) by (rule coherent_empty)
  obtain tr where "service_trace sample_libs (uu_jwt keeping_usecase) \<lparr>sv_users = Map.empty, sv_welcomed = []\<rparr> tr
      \<lparr>sv_users = mem_user_rows (as_repo (sw_app (snd ?r))), sv_welcomed = as_queue (sw_app (snd ?r))\<rparr>"
    "explained exact_match keeping_router (fst ?r) tr"
    using http_server_refines_service [OF keeping.user_service_axioms [of RequestContext, folded cfg(1,2)] exact_match_ok
        keeping_swagger coh http_run_history [OF exact_match_ok keeping_swagger], of sample_visits]
    unfolding cfg start by blast
  then show ?thesis using sample_visits_status sample_visits_welcomed by fastforce
qed

end
