(* ===== verification/Dispatched_Job.thy ===== *)
theory Dispatched_Job
  imports Database_Properties
begin

text \<open>
  What a worker of the database driver does with a job that was dispatched to a table with nothing
  else due: it executes that job, and settles its row by the outcome. The properties of delivery
  and of the agreement between drivers rest on these lemmas.
\<close>

section \<open>A job dispatched to an idle table\<close>

definition idle :: "(nat \<rightharpoonup> job_record) \<Rightarrow> string \<Rightarrow> instant \<Rightarrow> bool" where
  "idle t q now \<longleftrightarrow> (\<forall>i k. t i = Some k \<longrightarrow> \<not> eligible q now k)"

definition settled_row :: "'w database_driver \<Rightarrow> instant \<Rightarrow> job_record \<Rightarrow> err option \<Rightarrow> job_record option" where
  "settled_row drv now j res =
     (case res of
        None \<Rightarrow> None
      | Some e \<Rightarrow>
          Some (if 1 < dd_maxAttempts drv then retry_fields (now + 4 * second) e now j
                else failed_fields e now j))"

lemma new_job_simps [simp]:
  "job_Queue (new_job_record drv name raw delay now) = dd_queueName drv"
  "job_Name (new_job_record drv name raw delay now) = name"
  "job_Payload (new_job_record drv name raw delay now) = raw"
  "job_Status (new_job_record drv name raw delay now) = ''pending''"
  "job_Attempts (new_job_record drv name raw delay now) = 0"
  "job_MaxAttempts (new_job_record drv name raw delay now) = dd_maxAttempts drv"
  by (simp_all add: new_job_record_def)

lemma wrap64_one [simp]: "wrap64 1 = 1"
  by (rule wrap64_id) simp_all

lemma retry_delay_one: "retry_delay 1 = Some (4 * second)"
  using retry_delay_exact [of 1] by simp

context reliable_job_store
begin

lemma dispatch_up:
  assumes "MarshalPayload marshal p = Inr raw"
  obtains d' i where "database_Dispatch D marshal drv ctx name p now d = (d', None)" "table d i = None"
    "table d' = (table d)(i \<mapsto> (new_job_record drv name raw 0 now)\<lparr>job_ID := i\<rparr>)"
proof -
  obtain d' i where c: "jdb_Create D ctx d (new_job_record drv name raw 0 now) = (d', Inr i)"
    using create_up by blast
  show ?thesis
    by (rule that [of d' i]) (use create_ok [OF c] c assms in
      \<open>simp_all add: database_Dispatch_def database_DispatchDelayed_def\<close>)
qed

lemma claimed_turn:
  assumes cl: "claim D (dd_queueName drv) now1 d = (d1, Inr (reserve now1 j))" and a: "0 \<le> wrap64 (job_Attempts j + 1)"
    and ex: "ExecuteJob job_context (dd_registry drv) (job_Name j) (job_Payload j) w = (w', Ret res)"
  obtains d' where "settle D now2 d1 (reserve now1 j) res = Ret d'"
    "processNextJob D drv now1 now2 (d, w) = ((d', w'), Ret (True, None))"
proof -
  obtain d' where d': "settle D now2 d1 (reserve now1 j) res = Ret d'"
    using settle_returns [of "reserve now1 j" D now2 d1 res] a by auto
  then have "processNextJob D drv now1 now2 (d, w) = ((d', w'), Ret (True, None))"
    using cl ex by (simp add: processNextJob_def)
  with d' show thesis by (rule that)
qed

lemma process_dispatched:
  assumes m: "MarshalPayload marshal p = Inr raw"
    and idle: "idle (table d) (dd_queueName drv) now1" and now: "now \<le> now1"
  obtains d' i where "database_Dispatch D marshal drv ctx name p now d = (d', None)" "table d i = None"
    "\<And>w w' res. ExecuteJob job_context (dd_registry drv) name raw w = (w', Ret res) \<Longrightarrow>
      \<exists>d''. processNextJob D drv now1 now2 (d', w) = ((d'', w'), Ret (True, None)) \<and>
        table d'' = (table d)(i := settled_row drv now2
          (reserve now1 ((new_job_record drv name raw 0 now)\<lparr>job_ID := i\<rparr>)) res)"
proof -
  obtain d' i where d': "database_Dispatch D marshal drv ctx name p now d = (d', None)" "table d i = None"
    "table d' = (table d)(i \<mapsto> (new_job_record drv name raw 0 now)\<lparr>job_ID := i\<rparr>)"
    by (rule dispatch_up [OF m])
  let ?j = "(new_job_record drv name raw 0 now)\<lparr>job_ID := i\<rparr>"
  have j: "table d' i = Some ?j" "eligible (dd_queueName drv) now1 ?j"
    using d'(3) now by (simp_all add: new_job_record_def)
  have only: "only_due (table d') (dd_queueName drv) [now1] i"
    using idle d'(3) by (auto simp: idle_def only_due_def split: if_splits)
  have "\<exists>d''. processNextJob D drv now1 now2 (d', w) = ((d'', w'), Ret (True, None)) \<and>
      table d'' = (table d)(i := settled_row drv now2 (reserve now1 ?j) res)"
    if "ExecuteJob job_context (dd_registry drv) name raw w = (w', Ret res)" for w w' res
  proof -
    have ex: "ExecuteJob job_context (dd_registry drv) (job_Name ?j) (job_Payload ?j) w = (w', Ret res)"
      using that by simp
    have pos: "0 \<le> wrap64 (job_Attempts ?j + 1)" by simp
    obtain d1 d'' where d1: "table d1 = (table d')(i \<mapsto> reserve now1 ?j)" and
      st: "settle D now2 d1 (reserve now1 ?j) res = Ret d''" and
      run: "processNextJob D drv now1 now2 (d', w) = ((d'', w'), Ret (True, None))"
      by (rule process_only [OF j only pos ex])
    have "table d'' = (table d)(i := settled_row drv now2 (reserve now1 ?j) res)"
      using settle_table [OF st] d'(2) by (auto simp: d1 d'(3) settled_row_def retry_delay_one split: option.split)
    with run show ?thesis by blast
  qed
  with d' show ?thesis using that by blast
qed

end

end
