(* ===== verification/Welcome_Delivery.thy ===== *)
theory Welcome_Delivery
  imports Route_Effects Application_Properties Queue_Properties Mail_Properties Dispatched_Job
begin

text \<open>
  From \<open>POST /auth/register\<close> to the SMTP server: the API as \<open>cmd/api\<close> wires it, with the database
  queue, the handler of \<open>RegisterUserQueueHandlers\<close> and the mailer of its settings, and one turn of a
  worker afterwards.

  Lemmas: the queue of an API that came up; what the handler of the welcome mail sends.
\<close>

section \<open>The parts of an API that came up\<close>

lemma map_sum_Inr:
  "map_sum f g x = Inr y \<longleftrightarrow> (\<exists>z. x = Inr z \<and> g z = y)"
  "Inr y = map_sum f g x \<longleftrightarrow> (\<exists>z. x = Inr z \<and> g z = y)"
  by (cases x, auto)+

lemma leaf_database_registry:
  "leaf_build b cfg r db client = Ret (Inr (DatabaseQueue d)) \<Longrightarrow> dd_registry d = r"
  by (auto simp: leaf_build_def database_builder_def NewDatabaseDriver_def map_sum_Inr
      split: option.splits builder.splits sum.splits)

lemma build_database_registry:
  "build m b cfg r db client = Ret (Inr (DatabaseQueue d)) \<Longrightarrow> dd_registry d = r"
  by (auto simp: build_def split: option.splits builder.splits if_splits dest: leaf_database_registry)

lemma init_database_registry:
  assumes "InitQueue m cfg reg db client = Ret (Inr (DatabaseQueue d))"
  shows "dd_registry d = registry_or_new reg"
proof -
  obtain b x where "build m b cfg (registry_or_new reg) db client = Ret x"
    "(case x of Inl e \<Rightarrow> build m (m ''memory'') cfg (registry_or_new reg) db client | Inr q \<Rightarrow> Ret (Inr q)) =
      Ret (Inr (DatabaseQueue d))"
    using assms by (auto simp: InitQueue_def Let_def)
  then show ?thesis by (cases x) (auto dest: build_database_registry)
qed

lemma queue_Start_database:
  "queue_Start X q = (DatabaseQueue d, e) \<Longrightarrow>
   \<exists>d0. q = DatabaseQueue d0 \<and> dd_registry d = dd_registry d0"
  by (cases q) (auto simp: database_Start_def map_prod_def split: if_splits prod.splits)

lemma api_database_parts:
  assumes ok: "builders_ok (se_queue_drivers E)" "se_queue_drivers E ''memory'' = Some MemoryBuilder"
    and up: "api_start E = Ret (Running a)" "ap_queue a = DatabaseQueue drv"
  shows "Get (dd_registry drv) JobWelcomeEmail =
      Some (welcome_handler (se_unmarshal E) (se_year E) (Some (ap_mailer a)))"
    "ap_mailer a = NewMailer (se_smtp E) (se_header_order E) (se_templates E)
      (Some (mail_settings_config (cfg_Mail (ap_config a))))"
proof -
  obtain cfg db client b where b: "start_queue E cfg db client = Ret (Inr b)"
    "a = b\<lparr>ap_queue := fst (queue_Start (se_custom E) (ap_queue b))\<rparr>"
    using up(1) by (auto simp: api_start_def outcome_map_Ret running_iff split: sum.split_asm if_splits)
  with up(2) have "fst (queue_Start (se_custom E) (ap_queue b)) = DatabaseQueue drv" by simp
  then obtain d0 where d0: "ap_queue b = DatabaseQueue d0" "dd_registry drv = dd_registry d0"
    using queue_Start_database by (metis prod.collapse)
  from api_start_returns [OF ok, of cfg db client] b(1) d0(1)
  have "InitQueue (se_queue_drivers E) (cfg_Queue cfg) (Some (ap_registry b)) (Some (se_jobs E (fst db))) (Some client) =
      Ret (Inr (DatabaseQueue d0))"
    and h: "Get (ap_registry b) JobWelcomeEmail =
      Some (welcome_handler (se_unmarshal E) (se_year E) (Some (ap_mailer b)))"
    by auto
  from init_database_registry [OF this(1)] d0(2) h b(2)
  show "Get (dd_registry drv) JobWelcomeEmail =
      Some (welcome_handler (se_unmarshal E) (se_year E) (Some (ap_mailer a)))"
    by simp
  show "ap_mailer a = NewMailer (se_smtp E) (se_header_order E) (se_templates E)
      (Some (mail_settings_config (cfg_Mail (ap_config a))))"
    using b by (auto simp: start_queue_def Let_def outcome_map_Ret map_sum_Inr)
qed

section \<open>The mail\<close>

definition welcome_data :: "int \<Rightarrow> string \<Rightarrow> string \<Rightarrow> template_data" where
  "welcome_data year name email =
     [(''AppName'', TmplStr ''Gin Starter Pack''), (''UserName'', TmplStr name), (''Email'', TmplStr email),
      (''ActionURL'', TmplStr ''http://localhost:8080''), (''Year'', TmplInt year)]"

definition welcome_message :: "string \<Rightarrow> string \<Rightarrow> string \<Rightarrow> message" where
  "welcome_message name email html =
     \<lparr>msg_To = [email], msg_Subject = ''Welcome to Gin Starter Pack, '' @ name @ ''!'', msg_Body = html,
      msg_IsHTML = True\<rparr>"

definition smtp_configured :: "mail_config \<Rightarrow> bool" where
  "smtp_configured c \<longleftrightarrow> to_lower (mc_Driver c) \<noteq> ''log'' \<and> mc_Host c \<noteq> []"

definition plain_smtp :: "mail_config \<Rightarrow> bool" where
  "plain_smtp c \<longleftrightarrow> mc_Encryption c \<noteq> ''ssl'' \<and> mc_Port c \<noteq> 465"

lemma welcome_handler_sends:
  assumes "smtp_configured c" "unmarshal raw = Inr p"
    and "RenderTemplate T ''welcome.html'' (welcome_data year (wep_UserName p) (wep_Email p)) = Inr html"
  shows "welcome_handler unmarshal year (Some (NewMailer S order T (Some c))) ctx raw w =
    apsnd Ret (smtp_Send S order c ctx (welcome_message (wep_UserName p) (wep_Email p) html) w)"
  using assms
  by (simp add: welcome_handler_def NewMailer_def NewSMTPMailer_def smtp_SendTemplate_def
      smtp_configured_def welcome_data_def welcome_message_def)

lemma smtp_Send_plain:
  "plain_smtp c \<Longrightarrow> smtp_Send S order c ctx (welcome_message name email html) w =
    sm_SendMail S (mc_Host c @ '':'' @ itoa (mc_Port c)) (smtp_auth c) (mc_FromAddress c) [email]
      (raw_message order c (welcome_message name email html)) w"
  by (simp add: smtp_Send_def plain_smtp_def welcome_message_def Let_def)

section \<open>From the request to the mail\<close>

definition api_dispatch ::
  "'j job_db \<Rightarrow> (welcome_email_payload \<Rightarrow> err + string) \<Rightarrow> instant \<Rightarrow> ('w database_driver \<times> 'j) dispatcher" where
  "api_dispatch D marshal now ctx name p q = database_queue_dispatch D marshal now q ctx name p"

lemma api_router_simps:
  "rcf_libs (api_router a repo ds H HD M sw) = H"
  "rcf_RateLimit (api_router a repo ds H HD M sw) = cfg_RateLimit (ap_config a)"
  "uu_userRepo (rcf_usecase (api_router a repo ds H HD M sw)) = repo"
  "uu_queue (rcf_usecase (api_router a repo ds H HD M sw)) = Some ds"
  by (simp_all add: api_router_def NewUserUsecase_def)

lemma dispatch_welcome_database:
  assumes "uu_queue uc = Some (api_dispatch D marshal now)"
    and "database_Dispatch D marshal drv ctx JobWelcomeEmail
      (Val \<lparr>wep_UserID = user_ID u, wep_Email = user_Email u, wep_UserName = user_Name u\<rparr>) now d = (d', e)"
  shows "dispatch_welcome uc ctx u (drv, d) = Ret (drv, d')"
  using assms by (simp add: dispatch_welcome_def api_dispatch_def database_queue_dispatch_def)

text \<open>A registration of a free address is answered with 201, whatever the queue that takes the mail.\<close>

lemma registration_served:
  assumes repo: "reliable_user_repository (uu_userRepo (rcf_usecase cfg)) users listed"
    and hash: "HashPassword (lib_bcrypt (hl_libs (rcf_libs cfg))) (sd_salt sd) (cur_Password req) = Inr h"
    and fresh: "users (as_repo (sw_app w)) (sd_uuid sd) = None"
    and free: "\<forall>i v. users (as_repo (sw_app w)) i = Some v \<longrightarrow> user_Email v \<noteq> cur_Email req"
    and lookup: "route_lookup_ok lookup"
    and route: "lookup (map route_key (routes cfg sd)) (rq_Method rq) (rq_Path rq) =
      Handled (''POST'', ''/api/v1/auth/register'') ps"
    and body: "bind_json (hl_decode_create (rcf_libs cfg)) (create_user_request_ok (hl_is_email (rcf_libs cfg)))
      (hl_invalid (rcf_libs cfg)) (rq_Body rq) = Inr req"
    and limiter: "admitted cfg rq (sw_clients w)"
    and q: "dispatch_welcome (rcf_usecase cfg) RequestContext
      (new_user req (sd_uuid sd) h (sd_created sd) (sd_updated sd)) (as_queue (sw_app w)) = Ret q'"
  obtains c' rep where "serve lookup cfg uuid sd rq w = Served c'" "c_Replies c' = [rep]" "reply_status rep = 201"
    "users (as_repo (sw_app (c_World c'))) =
      (users (as_repo (sw_app w)))(sd_uuid sd \<mapsto> new_user req (sd_uuid sd) h (sd_created sd) (sd_updated sd))"
    "as_queue (sw_app (c_World c')) = q'"
proof -
  let ?s = "sw_app w" and ?u = "new_user req (sd_uuid sd) h (sd_created sd) (sd_updated sd)"
  obtain r' where r': "users r' = (users (as_repo ?s))(sd_uuid sd \<mapsto> ?u)"
    and reg: "usecase_Register (hl_libs (rcf_libs cfg)) (rcf_usecase cfg) RequestContext req (sd_salt sd) (sd_uuid sd)
      (sd_created sd) (sd_updated sd) ?s = (?s\<lparr>as_repo := r', as_queue := q'\<rparr>, Ret (Inr (ToResponse ?u)))"
    by (rule register_inserts [OF repo refl hash fresh free [rule_format], where ctx = RequestContext and
          ?t1.0 = "sd_created sd" and ?t2.0 = "sd_updated sd"]) (auto simp: q)
  have "gives rq ps ?s (\<lambda>rep t. reply_status rep = 201 \<and> t = ?s\<lparr>as_repo := r', as_queue := q'\<rparr>)
      (handler_Create (rcf_libs cfg) (rcf_usecase cfg) sd)"
    by (intro givesI settled_mono [OF handler_Create_settled(3) [OF _ body reg]]) auto
  from serve_gives [OF lookup matched_routes(2) [where lookup = lookup, OF route], of w _ uuid] this limiter
  obtain c' rep where c': "serve lookup cfg uuid sd rq w = Served c'" "c_Replies c' = [rep]" "reply_status rep = 201"
    "sw_app (c_World c') = ?s\<lparr>as_repo := r', as_queue := q'\<rparr>"
    by (fastforce simp: post_route_def)
  show thesis by (rule that [OF c'(1-3)]) (simp_all add: c'(4) r')
qed

text \<open>
  C3. A registration over HTTP leads to the welcome mail. The API came up with the database queue and
  an SMTP server; a valid registration of a free address arrives and the rate limiter, when it is on,
  lets it through; neither database fails, the password can be hashed, the template renders, and nothing
  else is due in the \<open>jobs\<close> table. Then the reply is 201, the user is in the table, and the next turn of a
  worker sends one message with the mailer, to exactly the registered address, with the headers and the
  rendered template for that user: over SSL from the first byte or, when that is not configured and the
  port is not 465, with one call of \<open>smtp.SendMail\<close>. If the mailer reports success the job is gone; if it
  reports an error, the job is pending again in four seconds with that error (or failed, with one attempt
  allowed).
\<close>

theorem registered_user_gets_welcome_mail:
  fixes E :: "('j, 'd, 'w, 'x, 'y, 'z, 'g, 't) start_env" and a :: "('d, 'w, 'x, 'y, 'g) app"
    and cfg :: "('r, 'd, 'w database_driver \<times> 'j, 'w, 'l) router_config"
  assumes up: "se_queue_drivers E = queue_init_drivers" "api_start E = Ret (Running a)" "ap_queue a = DatabaseQueue drv"
    and store: "D = se_jobs E (fst (ap_db a))" "reliable_job_store D table"
    and cfg: "cfg = api_router a repo (api_dispatch D marshal now) H HD M swagger"
    and repo: "reliable_user_repository repo users listed"
    and hash: "HashPassword (lib_bcrypt (hl_libs H)) (sd_salt sd) (cur_Password req) = Inr h"
    and fresh: "users (as_repo (sw_app w)) (sd_uuid sd) = None"
    and free: "\<forall>i v. users (as_repo (sw_app w)) i = Some v \<longrightarrow> user_Email v \<noteq> cur_Email req"
    and lookup: "route_lookup_ok lookup"
    and route: "lookup (map route_key (routes cfg sd)) (rq_Method rq) (rq_Path rq) =
      Handled (''POST'', ''/api/v1/auth/register'') ps"
    and body: "bind_json (hl_decode_create H) (create_user_request_ok (hl_is_email H)) (hl_invalid H) (rq_Body rq) = Inr req"
    and limiter: "admitted cfg rq (sw_clients w)"
    and queue: "as_queue (sw_app w) = (drv, d)" "idle (table d) (dd_queueName drv) now1" "now \<le> now1"
    and json: "p = \<lparr>wep_UserID = sd_uuid sd, wep_Email = cur_Email req, wep_UserName = cur_Name req\<rparr>"
      "marshal p = Inr raw" "se_unmarshal E raw = Inr p"
    and mail: "c = mail_settings_config (cfg_Mail (ap_config a))" "smtp_configured c"
      "RenderTemplate (se_templates E) ''welcome.html'' (welcome_data (se_year E) (cur_Name req) (cur_Email req)) = Inr html"
  shows "\<exists>c' rep i d'. serve lookup cfg uuid sd rq w = Served c' \<and> c_Replies c' = [rep] \<and> reply_status rep = 201 \<and>
    users (as_repo (sw_app (c_World c'))) =
      (users (as_repo (sw_app w)))(sd_uuid sd \<mapsto> new_user req (sd_uuid sd) h (sd_created sd) (sd_updated sd)) \<and>
    as_queue (sw_app (c_World c')) = (drv, d') \<and> table d i = None \<and>
    (\<forall>m m' res. smtp_Send (se_smtp E) (se_header_order E) c job_context
        (welcome_message (cur_Name req) (cur_Email req) html) m = (m', res) \<longrightarrow>
      (\<exists>d'' j. processNextJob D drv now1 now2 (d', m) = ((d'', m'), Ret (True, None)) \<and>
        job_Name j = JobWelcomeEmail \<and> job_Payload j = raw \<and>
        table d'' = (table d)(i := settled_row drv now2 j res))) \<and>
    (plain_smtp c \<longrightarrow> (\<forall>m. smtp_Send (se_smtp E) (se_header_order E) c job_context
        (welcome_message (cur_Name req) (cur_Email req) html) m =
      sm_SendMail (se_smtp E) (mc_Host c @ '':'' @ itoa (mc_Port c)) (smtp_auth c) (mc_FromAddress c) [cur_Email req]
        (raw_message (se_header_order E) c (welcome_message (cur_Name req) (cur_Email req) html)) m))"
proof -
  let ?s = "sw_app w" and ?u = "new_user req (sd_uuid sd) h (sd_created sd) (sd_updated sd)"
  note r = api_router_simps [of a repo "api_dispatch D marshal now" H HD M swagger, folded cfg]
  have ok: "builders_ok (se_queue_drivers E)" "se_queue_drivers E ''memory'' = Some MemoryBuilder"
    by (simp_all add: up(1) builders_ok_init init_drivers_simps)
  note parts = api_database_parts [OF ok up(2,3)]
  have m: "MarshalPayload marshal (Val p) = Inr raw" by (simp add: MarshalPayload_def json(2))
  obtain d' i where d': "database_Dispatch D marshal drv RequestContext JobWelcomeEmail (Val p) now d = (d', None)"
    and i: "table d i = None"
    and run: "\<And>m m' res. ExecuteJob job_context (dd_registry drv) JobWelcomeEmail raw m = (m', Ret res) \<Longrightarrow>
      \<exists>d''. processNextJob D drv now1 now2 (d', m) = ((d'', m'), Ret (True, None)) \<and>
        table d'' = (table d)(i := settled_row drv now2
          (reserve now1 ((new_job_record drv JobWelcomeEmail raw 0 now)\<lparr>job_ID := i\<rparr>)) res)"
    by (rule reliable_job_store.process_dispatched [OF store(2) m queue(2,3)]) blast
  have q: "dispatch_welcome (rcf_usecase cfg) RequestContext ?u (as_queue ?s) = Ret (drv, d')"
    unfolding queue(1) by (rule dispatch_welcome_database [OF r(4)]) (use d' json(1) in \<open>simp add: new_user_def\<close>)
  obtain c' rep where c': "serve lookup cfg uuid sd rq w = Served c'" "c_Replies c' = [rep]" "reply_status rep = 201"
    "users (as_repo (sw_app (c_World c'))) = (users (as_repo ?s))(sd_uuid sd \<mapsto> ?u)"
    "as_queue (sw_app (c_World c')) = (drv, d')"
    by (rule registration_served [where cfg = cfg and users = users and listed = listed and lookup = lookup and
          rq = rq and w = w and uuid = uuid and sd = sd and req = req and h = h and ps = ps and q' = "(drv, d')",
          unfolded r, OF repo hash fresh free lookup route body limiter q]) blast
  have exec: "ExecuteJob job_context (dd_registry drv) JobWelcomeEmail raw m =
      apsnd Ret (smtp_Send (se_smtp E) (se_header_order E) c job_context
        (welcome_message (cur_Name req) (cur_Email req) html) m)" for m
    using mail(3) welcome_handler_sends [where unmarshal = "se_unmarshal E" and raw = raw and p = p and
        T = "se_templates E" and year = "se_year E" and html = html, OF mail(2) json(3)]
    by (simp add: ExecuteJob_registered [OF parts(1)] parts(2) mail(1) json(1))
  have sent: "\<exists>d'' j. processNextJob D drv now1 now2 (d', m) = ((d'', m'), Ret (True, None)) \<and>
      job_Name j = JobWelcomeEmail \<and> job_Payload j = raw \<and> table d'' = (table d)(i := settled_row drv now2 j res)"
    if m: "smtp_Send (se_smtp E) (se_header_order E) c job_context
        (welcome_message (cur_Name req) (cur_Email req) html) m = (m', res)" for m m' res
  proof -
    let ?j = "reserve now1 ((new_job_record drv JobWelcomeEmail raw 0 now)\<lparr>job_ID := i\<rparr>)"
    have "ExecuteJob job_context (dd_registry drv) JobWelcomeEmail raw m = (m', Ret res)" unfolding exec m by simp
    from run [OF this] obtain d'' where
      "processNextJob D drv now1 now2 (d', m) = ((d'', m'), Ret (True, None))"
      "table d'' = (table d)(i := settled_row drv now2 ?j res)" by blast
    then show ?thesis by (intro exI [of _ d''] exI [of _ ?j]) simp
  qed
  show ?thesis
    by (intro exI [of _ c'] exI [of _ rep] exI [of _ i] exI [of _ d'] conjI allI impI c' i sent) (simp_all add: smtp_Send_plain)
qed

section \<open>A concrete delivery\<close>

definition recording_smtp :: "string list list smtp_ops" where
  "recording_smtp =
     \<lparr>sm_DialTLS = (\<lambda>a h w. (w, None)), sm_NewClient = (\<lambda>h w. (w, None)), sm_Auth = (\<lambda>a w. (w, None)),
      sm_Mail = (\<lambda>f w. (w, None)), sm_Rcpt = (\<lambda>r w. (w, None)), sm_Data = (\<lambda>w. (w, None)),
      sm_Write = (\<lambda>m w. (w, None)), sm_CloseData = (\<lambda>w. (w, None)), sm_Quit = (\<lambda>w. (w, None)),
      sm_CloseClient = id, sm_CloseConn = id, sm_SendMail = (\<lambda>a au f to m w. (w @ [to], None)), sm_Log = (\<lambda>r w. w)\<rparr>"

definition mail_viper :: viper where
  "mail_viper = no_settings
     \<lparr>vp_String := (\<lambda>k. if k = ''MAIL_DRIVER'' then Some ''smtp''
                      else if k = ''MAIL_HOST'' then Some ''mail.x.org'' else None)\<rparr>"

definition mail_env ::
  "(mem_table, mem_server, string list list, unit, unit, unit, unit, unit) start_env" where
  "mail_env =
     \<lparr>se_viper = mail_viper, se_log_drivers = logger_init_drivers, se_db_drivers = database_init_drivers,
      se_db_names = [''postgres'', ''mysql'', ''sqlite''],
      se_gorm = \<lparr>go_Open = (\<lambda>d l. Inr ()), go_DB = (\<lambda>g. None)\<rparr>,
      se_AutoMigrate = (\<lambda>g es. None), se_CloseDB = (\<lambda>g. None), se_jobs = (\<lambda>g. mem_job_db),
      se_connect = (\<lambda>a p n. mem_redis), se_cache = mem_server_empty,
      se_smtp = recording_smtp, se_header_order = header_keys,
      se_templates = \<lparr>tm_Parse = (\<lambda>p. Inr ()), tm_Execute = (\<lambda>t d. Inr ''hello'')\<rparr>,
      se_unmarshal = dec_welcome, se_year = 2026, se_queue_drivers = queue_init_drivers,
      se_custom = \<lparr>cq_Start = (\<lambda>x. (x, None)), cq_Stop = (\<lambda>b x. Ret (x, None)), cq_Close = (\<lambda>b x. Ret (x, None))\<rparr>\<rparr>"

lemma mail_env_simps:
  "se_viper mail_env = mail_viper" "se_db_drivers mail_env = database_init_drivers"
  "se_AutoMigrate mail_env = (\<lambda>g es. None)" "go_Open (se_gorm mail_env) d l = Inr ()"
  "go_DB (se_gorm mail_env) g = None" "se_queue_drivers mail_env = queue_init_drivers"
  "se_jobs mail_env g = mem_job_db" "se_smtp mail_env = recording_smtp" "se_unmarshal mail_env = dec_welcome"
  "se_templates mail_env = \<lparr>tm_Parse = (\<lambda>p. Inr ()), tm_Execute = (\<lambda>t d. Inr ''hello'')\<rparr>"
  by (simp_all add: mail_env_def)

lemma mail_config_loaded:
  "\<exists>cfg. LoadConfig mail_viper = Inr cfg \<and> db_Driver (cfg_Database cfg) = ''sqlite'' \<and>
     \<not> redis_Enabled (cfg_Redis cfg) \<and> queue_Driver (cfg_Queue cfg) = ''database'' \<and>
     0 < rl_Burst (cfg_RateLimit cfg) \<and> smtp_configured (mail_settings_config (cfg_Mail cfg)) \<and>
     plain_smtp (mail_settings_config (cfg_Mail cfg))"
proof -
  have "to_lower ''smtp'' = ''smtp''" by code_simp
  then show ?thesis
    by (simp add: LoadConfig_def load_app_def load_database_def load_redis_def load_queue_def load_rate_limit_def
        load_mail_def setting_def no_settings_def mail_viper_def plain_smtp_def smtp_configured_def mail_settings_config_def)
qed

lemma mail_env_up:
  obtains a drv where "api_start mail_env = Ret (Running a)" "ap_queue a = DatabaseQueue drv"
    "0 < rl_Burst (cfg_RateLimit (ap_config a))" "smtp_configured (mail_settings_config (cfg_Mail (ap_config a)))"
    "plain_smtp (mail_settings_config (cfg_Mail (ap_config a)))"
proof -
  have ok: "builders_ok (se_queue_drivers mail_env)" "se_queue_drivers mail_env ''memory'' = Some MemoryBuilder"
    by (simp_all add: mail_env_simps builders_ok_init init_drivers_simps)
  obtain cfg where cfg: "LoadConfig mail_viper = Inr cfg" "db_Driver (cfg_Database cfg) = ''sqlite''"
    "\<not> redis_Enabled (cfg_Redis cfg)" "queue_Driver (cfg_Queue cfg) = ''database''"
    "0 < rl_Burst (cfg_RateLimit cfg)" "smtp_configured (mail_settings_config (cfg_Mail cfg))"
    "plain_smtp (mail_settings_config (cfg_Mail cfg))"
    using mail_config_loaded by blast
  obtain db where db: "InitDB database_init_drivers (se_gorm mail_env) (se_db_names mail_env) (cfg_Database cfg)
      (app_Env (cfg_App cfg)) = Inr db"
    by (simp add: InitDB_def cfg(2) database_init_simps mail_env_simps)
  from api_start_returns [OF ok, of cfg db "\<lparr>rc_rdb = None, rc_enabled = False\<rparr>"]
  obtain a where a: "start_queue mail_env cfg db \<lparr>rc_rdb = None, rc_enabled = False\<rparr> = Ret (Inr a)"
    "ap_config a = cfg" and q: "InitQueue queue_init_drivers (cfg_Queue cfg) (Some (ap_registry a)) (Some mem_job_db)
      (Some \<lparr>rc_rdb = None :: mem_server redis_ops option, rc_enabled = False\<rparr>) = Ret (Inr (ap_queue a))"
    by (auto simp: mail_env_simps)
  from q have "\<exists>drv. DatabaseQueue drv = ap_queue a"
    by (simp add: InitQueue_def queue_driver_name_def cfg(4) init_drivers_simps build_init database_builder_def) blast
  then obtain drv where "ap_queue a = DatabaseQueue drv" by metis
  moreover from this obtain drv' where "fst (queue_Start (se_custom mail_env) (ap_queue a)) = DatabaseQueue drv'"
    by (cases "database_Start drv") simp
  moreover have "api_start mail_env =
      Ret (Running (a\<lparr>ap_queue := fst (queue_Start (se_custom mail_env) (ap_queue a))\<rparr>))"
    using a(1) cfg db by (simp add: api_start_def InitRedis_def mail_env_simps)
  ultimately show ?thesis
    using that [of "a\<lparr>ap_queue := fst (queue_Start (se_custom mail_env) (ap_queue a))\<rparr>" drv'] a(2) cfg(5-7) by simp
qed

definition mail_world :: "'q \<Rightarrow> (user list, mem_server, 'q, int) world" where
  "mail_world q = \<lparr>sw_app = \<lparr>as_repo = [], as_cache = mem_server_empty, as_queue = q\<rparr>, sw_clients = Map.empty\<rparr>"

lemma empty_idle: "idle (mem_rows mem_empty) q now"
  by (simp add: idle_def)

lemma sample_seed_hash:
  "HashPassword (lib_bcrypt (hl_libs sample_http)) (sd_salt sample_seed) (cur_Password sample_request) = Inr sample_hash"
  using sample_hashed by (simp add: sample_http_def sample_seed_def)

lemma sample_route:
  "exact_match (map route_key (routes cfg sample_seed)) (rq_Method (sample_rq ''POST'' ''/api/v1/auth/register''))
    (rq_Path (sample_rq ''POST'' ''/api/v1/auth/register'')) = Handled (''POST'', ''/api/v1/auth/register'') Map.empty"
  by (simp add: exact_match_def sample_rq_def route_list_defs route_key_def)

lemma sample_body:
  "bind_json (hl_decode_create sample_http) (create_user_request_ok (hl_is_email sample_http))
    (hl_invalid sample_http) (rq_Body (sample_rq ''POST'' ''/api/v1/auth/register'')) = Inr sample_request"
  by code_simp

lemma mail_template: "RenderTemplate (se_templates mail_env) ''welcome.html'' dt = Inr ''hello''"
  by (simp add: RenderTemplate_def mail_env_simps)

theorem registered_user_gets_welcome_mail_witness:
  "\<exists>a drv. api_start mail_env = Ret (Running a) \<and> ap_queue a = DatabaseQueue drv \<and>
    (\<exists>c' d' d''. serve exact_match (api_router a (NewUserRepository mem_user_db)
        (api_dispatch mem_job_db enc_welcome 100) sample_http \<lparr>ho_DB = (\<lambda>r. None), ho_Ping = (\<lambda>r. None)\<rparr>
        sample_limiter not_found_handler) ''u-1'' sample_seed (sample_rq ''POST'' ''/api/v1/auth/register'')
        (mail_world (drv, mem_empty)) = Served c' \<and>
      as_queue (sw_app (c_World c')) = (drv, d') \<and>
      processNextJob mem_job_db drv 120 121 (d', []) = ((d'', [[''ada@x.org'']]), Ret (True, None)) \<and>
      mem_rows d'' = Map.empty)"
proof (rule mail_env_up)
  fix a :: "(mem_server, string list list, unit, unit, unit) app" and drv
  assume a: "api_start mail_env = Ret (Running a)" "ap_queue a = DatabaseQueue drv"
    and cfg: "0 < rl_Burst (cfg_RateLimit (ap_config a))" "smtp_configured (mail_settings_config (cfg_Mail (ap_config a)))"
      "plain_smtp (mail_settings_config (cfg_Mail (ap_config a)))"
  let ?cfg = "api_router a (NewUserRepository mem_user_db) (api_dispatch mem_job_db enc_welcome 100) sample_http
      \<lparr>ho_DB = (\<lambda>r. None), ho_Ping = (\<lambda>r. None)\<rparr> sample_limiter not_found_handler"
  let ?w = "mail_world (drv, mem_empty)" and ?rq = "sample_rq ''POST'' ''/api/v1/auth/register''"
  let ?p = "\<lparr>wep_UserID = ''id1'', wep_Email = cur_Email sample_request, wep_UserName = cur_Name sample_request\<rparr>"
  have w: "as_repo (sw_app ?w) = []" "as_queue (sw_app ?w) = (drv, mem_empty)" by (simp_all add: mail_world_def)
  have rows: "mem_user_rows [] = Map.empty" by (simp add: mem_user_rows_def mem_listing_def)
  obtain raw where raw: "enc_welcome ?p = Inr raw" by (simp add: enc_welcome_def)
  have dec: "se_unmarshal mail_env raw = Inr ?p" using welcome_codec [OF raw] by (simp add: mail_env_simps)
  have fresh: "mem_user_rows (as_repo (sw_app ?w)) (sd_uuid sample_seed) = None" by (simp add: w rows)
  have free: "\<forall>i v. mem_user_rows (as_repo (sw_app ?w)) i = Some v \<longrightarrow> user_Email v \<noteq> cur_Email sample_request"
    by (simp add: w rows)
  have q: "se_queue_drivers mail_env = queue_init_drivers" by (simp add: mail_env_simps)
  have id: "sd_uuid sample_seed = ''id1''" by (simp add: sample_seed_def)
  have D2: "mem_job_db = se_jobs mail_env (fst (ap_db a))" by (simp add: mail_env_simps)
  have p: "?p = \<lparr>wep_UserID = sd_uuid sample_seed, wep_Email = cur_Email sample_request,
      wep_UserName = cur_Name sample_request\<rparr>" by (simp add: id)
  have now: "(100 :: int) \<le> 120" by simp
  have admit: "admitted ?cfg ?rq (sw_clients ?w)"
    using cfg(1) by (simp add: admitted_def api_router_def getLimiter_def NewIPRateLimiter_def sample_limiter_def
        mail_world_def Let_def)
  from registered_user_gets_welcome_mail [where now = 100 and ?now1.0 = 120 and ?now2.0 = 121 and uuid = "''u-1''" and
      p = ?p, OF q a D2 mem.reliable_job_store_axioms refl mem_repository sample_seed_hash fresh free exact_match_ok sample_route [of ?cfg] sample_body admit
      w(2) empty_idle now p raw dec refl cfg(2) mail_template]
  obtain c' i d' where c': "serve exact_match ?cfg ''u-1'' sample_seed ?rq ?w = Served c'"
    "as_queue (sw_app (c_World c')) = (drv, d')"
    and sent: "\<forall>m m' res. smtp_Send recording_smtp (se_header_order mail_env)
        (mail_settings_config (cfg_Mail (ap_config a))) job_context
        (welcome_message (cur_Name sample_request) (cur_Email sample_request) ''hello'') m = (m', res) \<longrightarrow>
      (\<exists>d'' j. processNextJob mem_job_db drv 120 121 (d', m) = ((d'', m'), Ret (True, None)) \<and>
        job_Name j = JobWelcomeEmail \<and> job_Payload j = raw \<and>
        mem_rows d'' = Map.empty(i := settled_row drv 121 j res))"
    unfolding mail_env_simps mem_rows_empty by blast
  have "cur_Email sample_request = ''ada@x.org''" by (simp add: sample_request_def)
  with sent [THEN spec, of "[]", THEN spec, of "[[''ada@x.org'']]", THEN spec, of None] obtain d'' where "processNextJob mem_job_db drv 120 121 (d', []) = ((d'', [[''ada@x.org'']]), Ret (True, None))"
    "mem_rows d'' = Map.empty" by (auto simp: settled_row_def smtp_Send_plain [OF cfg(3)] recording_smtp_def)
  with a c' show ?thesis by blast
qed

end
