(* ===== verification/Driver_Agreement.thy ===== *)
theory Driver_Agreement
  imports Dispatched_Job Memory_Driver Queue_Properties
begin

text \<open>
  One program, four queues: a sequence of jobs gives the same world whichever driver
  \<open>pkg/queue\<close> was configured with. The reference is \<open>run_jobs\<close>, the handlers called one after
  the other. For each driver there is a lemma: dispatching the jobs and letting one worker take as many
  turns computes the reference, and leaves the queue as it was.
\<close>

section \<open>The reference\<close>

record 'v job_call =
  jc_name :: string
  jc_payload :: "'v payload"
  jc_uuid :: string
  jc_at :: instant

text \<open>The handlers get the context \<open>ctx\<close>. \<open>None\<close> when a payload does not marshal, or a handler fails or panics.\<close>

fun run_jobs ::
  "('v \<Rightarrow> err + string) \<Rightarrow> 'w registry \<Rightarrow> go_context \<Rightarrow> 'v job_call list \<Rightarrow> 'w \<Rightarrow> 'w option" where
  "run_jobs marshal reg ctx [] w = Some w"
| "run_jobs marshal reg ctx (c # cs) w =
     (case MarshalPayload marshal (jc_payload c) of
        Inl e \<Rightarrow> None
      | Inr raw \<Rightarrow>
          (case ExecuteJob ctx reg (jc_name c) raw w of
             (w', Ret None) \<Rightarrow> run_jobs marshal reg ctx cs w'
           | (w', r) \<Rightarrow> None))"

lemma run_jobs_ConsE:
  assumes "run_jobs marshal reg ctx (c # cs) w = Some w'"
  obtains raw w1 where "MarshalPayload marshal (jc_payload c) = Inr raw"
    "ExecuteJob ctx reg (jc_name c) raw w = (w1, Ret None)" "run_jobs marshal reg ctx cs w1 = Some w'"
  using assms by (auto split: sum.splits prod.splits option.splits outcome.splits)

lemma run_jobs_marshal:
  "run_jobs marshal reg ctx cs w = Some w' \<Longrightarrow> c \<in> set cs \<Longrightarrow> \<exists>raw. MarshalPayload marshal (jc_payload c) = Inr raw"
proof (induction cs arbitrary: w)
  case (Cons x xs)
  from Cons.prems(1) show ?case
    by (rule run_jobs_ConsE) (use Cons in auto)
qed simp

text \<open>Dispatching one job after the other: the state and the errors.\<close>

fun dispatch_all :: "('s \<Rightarrow> 'v job_call \<Rightarrow> 's \<times> err option) \<Rightarrow> 'v job_call list \<Rightarrow> 's \<Rightarrow> 's \<times> err option list" where
  "dispatch_all f [] s = (s, [])"
| "dispatch_all f (c # cs) s =
     (let (s1, e) = f s c; (s2, es) = dispatch_all f cs s1 in (s2, e # es))"

definition no_errors :: "'a list \<Rightarrow> err option list" where
  "no_errors cs = replicate (length cs) None"

lemma no_errors_simps [simp]: "no_errors [] = []" "no_errors (c # cs) = None # no_errors cs"
  by (simp_all add: no_errors_def)

section \<open>The synchronous driver\<close>

definition sync_call ::
  "('v \<Rightarrow> err + string) \<Rightarrow> 'w sync_driver \<Rightarrow> go_context \<Rightarrow> 'w \<Rightarrow> 'v job_call \<Rightarrow> 'w \<times> err option" where
  "sync_call marshal S ctx w c =
     (case sync_Dispatch marshal S ctx (jc_name c) (jc_payload c) w of
        (w', Ret r) \<Rightarrow> (w', r)
      | (w', Panic msg) \<Rightarrow> (w', Some (ErrNew msg)))"

lemma sync_runs_jobs:
  assumes "run_jobs marshal (sync_registry S) ctx cs w = Some w'"
  shows "dispatch_all (sync_call marshal S ctx) cs w = (w', no_errors cs)"
  using assms
proof (induction cs arbitrary: w)
  case (Cons c cs)
  from Cons.prems show ?case
  proof (rule run_jobs_ConsE)
    fix raw w1
    assume m: "MarshalPayload marshal (jc_payload c) = Inr raw"
      and x: "ExecuteJob ctx (sync_registry S) (jc_name c) raw w = (w1, Ret None)"
      and rest: "run_jobs marshal (sync_registry S) ctx cs w1 = Some w'"
    from m x have "sync_call marshal S ctx w c = (w1, None)" by (simp add: sync_call_def sync_Dispatch_def)
    with Cons.IH [OF rest] show ?thesis by simp
  qed
qed simp

section \<open>The memory driver\<close>

definition memory_call ::
  "('v \<Rightarrow> err + string) \<Rightarrow> go_context \<Rightarrow> 'w memory_system \<Rightarrow> 'v job_call \<Rightarrow> 'w memory_system" where
  "memory_call marshal ctx s c = memory_sys_dispatch marshal ctx (jc_name c) (jc_payload c) s"

text \<open>Turns of the first worker: it receives a job, and its handler returns.\<close>

fun memory_turns :: "nat \<Rightarrow> 'w memory_system \<Rightarrow> 'w memory_system option" where
  "memory_turns 0 s = Some s"
| "memory_turns (Suc n) s =
     (case memory_worker_select RecvCase 0 s of
        None \<Rightarrow> None
      | Some s1 \<Rightarrow>
          (case memory_worker_finish 0 s1 of None \<Rightarrow> None | Some s2 \<Rightarrow> memory_turns n s2))"

definition call_raw :: "('v \<Rightarrow> err + string) \<Rightarrow> 'v job_call \<Rightarrow> memory_job \<Rightarrow> bool" where
  "call_raw marshal c j \<longleftrightarrow> mj_name j = jc_name c \<and> MarshalPayload marshal (jc_payload c) = Inr (mj_payload j)"

lemma memory_calls:
  assumes "\<And>c. c \<in> set cs \<Longrightarrow> \<exists>raw. MarshalPayload marshal (jc_payload c) = Inr raw"
    and "\<not> md_chan_closed (ms_driver s)"
    and "length (md_jobChan (ms_driver s)) + length cs \<le> md_cap (ms_driver s)"
  shows "\<exists>js acc. foldl (memory_call marshal ctx) s cs =
      s\<lparr>ms_driver := (ms_driver s)\<lparr>md_jobChan := md_jobChan (ms_driver s) @ js\<rparr>, ms_accepted := acc\<rparr> \<and>
    list_all2 (call_raw marshal) cs js"
  using assms
proof (induction cs arbitrary: s)
  case (Cons c cs)
  obtain raw where raw: "MarshalPayload marshal (jc_payload c) = Inr raw" using Cons.prems(1) by auto
  let ?j = "\<lparr>mj_name = jc_name c, mj_payload = raw\<rparr>"
  let ?s = "s\<lparr>ms_driver := (ms_driver s)\<lparr>md_jobChan := md_jobChan (ms_driver s) @ [?j]\<rparr>,
      ms_accepted := ms_accepted s @ [?j]\<rparr>"
  have step: "memory_call marshal ctx s c = ?s"
    using raw Cons.prems(2,3) by (simp add: memory_call_def memory_sys_dispatch_def memory_Dispatch_def)
  obtain js acc where "foldl (memory_call marshal ctx) ?s cs =
      ?s\<lparr>ms_driver := (ms_driver ?s)\<lparr>md_jobChan := md_jobChan (ms_driver ?s) @ js\<rparr>, ms_accepted := acc\<rparr>"
    "list_all2 (call_raw marshal) cs js"
    using Cons.IH [of ?s] Cons.prems by auto
  moreover have "call_raw marshal c ?j" using raw by (simp add: call_raw_def)
  ultimately show ?case using step
    by - (rule exI [of _ "?j # js"], rule exI [of _ acc], simp)
next
  case Nil
  show ?case by (rule exI [of _ "[]"], rule exI [of _ "ms_accepted s"]) simp
qed

lemma memory_turns_run:
  assumes "list_all2 (call_raw marshal) cs (md_jobChan (ms_driver s))"
    and "ms_workers s = Idle # ws"
    and "run_jobs marshal (md_registry (ms_driver s)) job_context cs (ms_world s) = Some w'"
  shows "\<exists>s'. memory_turns (length cs) s = Some s' \<and> ms_world s' = w' \<and> md_jobChan (ms_driver s') = [] \<and>
    ms_crashed s' = ms_crashed s \<and> ms_workers s' = ms_workers s"
  using assms
proof (induction cs arbitrary: s)
  case (Cons c cs)
  from Cons.prems(1) obtain j js where js: "md_jobChan (ms_driver s) = j # js" "call_raw marshal c j"
    "list_all2 (call_raw marshal) cs js" by (auto simp: list_all2_Cons1)
  from Cons.prems(3) show ?case
  proof (rule run_jobs_ConsE)
    fix raw w1
    assume "MarshalPayload marshal (jc_payload c) = Inr raw"
      and x: "ExecuteJob job_context (md_registry (ms_driver s)) (jc_name c) raw (ms_world s) = (w1, Ret None)"
      and rest: "run_jobs marshal (md_registry (ms_driver s)) job_context cs w1 = Some w'"
    with js(2) have j: "mj_name j = jc_name c" "mj_payload j = raw" by (simp_all add: call_raw_def)
    let ?s1 = "s\<lparr>ms_driver := (ms_driver s)\<lparr>md_jobChan := js\<rparr>, ms_workers := Running j # ws,
        ms_taken := ms_taken s @ [j]\<rparr>"
    let ?s2 = "?s1\<lparr>ms_workers := Idle # ws, ms_finished := ms_finished s @ [j], ms_world := w1\<rparr>"
    have "memory_worker_select RecvCase 0 s = Some ?s1"
      using Cons.prems(2) js(1) by (simp add: memory_worker_select_def Let_def)
    moreover have "memory_worker_finish 0 ?s1 = Some ?s2"
      using x j by (simp add: memory_worker_finish_def)
    moreover have "\<exists>s'. memory_turns (length cs) ?s2 = Some s' \<and> ms_world s' = w' \<and>
        md_jobChan (ms_driver s') = [] \<and> ms_crashed s' = ms_crashed ?s2 \<and> ms_workers s' = ms_workers ?s2"
      by (rule Cons.IH) (use js(3) rest in simp_all)
    ultimately show ?thesis using Cons.prems(2) by simp
  qed
qed simp

section \<open>The database driver\<close>

definition database_call ::
  "'d job_db \<Rightarrow> ('v \<Rightarrow> err + string) \<Rightarrow> 'w database_driver \<Rightarrow> go_context \<Rightarrow> 'd \<Rightarrow> 'v job_call \<Rightarrow>
   'd \<times> err option" where
  "database_call D marshal drv ctx d c = database_Dispatch D marshal drv ctx (jc_name c) (jc_payload c) (jc_at c) d"

text \<open>The table \<open>t\<close> is \<open>base\<close> with the rows queued on it; \<open>call_row\<close> is the row of a call.\<close>

definition queued_on :: "(nat \<rightharpoonup> job_record) \<Rightarrow> job_record list \<Rightarrow> (nat \<rightharpoonup> job_record) \<Rightarrow> bool" where
  "queued_on base rows t \<longleftrightarrow>
     distinct (map job_ID rows) \<and> (\<forall>r \<in> set rows. base (job_ID r) = None) \<and>
     t = base ++ map_of (map (\<lambda>r. (job_ID r, r)) rows)"

definition call_row :: "('v \<Rightarrow> err + string) \<Rightarrow> 'w database_driver \<Rightarrow> 'v job_call \<Rightarrow> job_record \<Rightarrow> bool" where
  "call_row marshal drv c r \<longleftrightarrow>
     (\<exists>raw i. MarshalPayload marshal (jc_payload c) = Inr raw \<and>
        r = (new_job_record drv (jc_name c) raw 0 (jc_at c))\<lparr>job_ID := i\<rparr>)"

lemma call_row_simps:
  assumes "call_row marshal drv c r"
  shows "job_Queue r = dd_queueName drv" "job_Name r = jc_name c" "job_Status r = ''pending''"
    "job_Attempts r = 0" "job_AvailableAt r = jc_at c"
    "MarshalPayload marshal (jc_payload c) = Inr (job_Payload r)"
  using assms by (auto simp: call_row_def new_job_record_def)

lemma queued_map_of:
  "distinct (map job_ID rows) \<Longrightarrow>
   map_of (map (\<lambda>r. (job_ID r, r)) rows) i = Some r \<longleftrightarrow> r \<in> set rows \<and> job_ID r = i"
  by (subst map_of_eq_Some_iff) (auto simp: comp_def)

lemma queued_lookup:
  assumes "queued_on base rows t"
  shows "t i = Some r \<longleftrightarrow> r \<in> set rows \<and> job_ID r = i \<or> base i = Some r"
  using assms queued_map_of [of rows]
  by (auto simp: queued_on_def map_add_Some_iff)

lemma queued_snoc:
  assumes q: "queued_on base rows t" and i: "t (job_ID r) = None"
  shows "queued_on base (rows @ [r]) (t(job_ID r \<mapsto> r))"
proof -
  from q i have none: "base (job_ID r) = None" "map_of (map (\<lambda>r. (job_ID r, r)) rows) (job_ID r) = None"
    by (auto simp: queued_on_def map_add_None)
  then have "job_ID r \<notin> job_ID ` set rows" by (auto simp: map_of_eq_None_iff image_image)
  moreover have "map_of (map (\<lambda>r. (job_ID r, r)) (rows @ [r])) =
      (map_of (map (\<lambda>r. (job_ID r, r)) rows))(job_ID r \<mapsto> r)"
    using none(2) by (auto simp: map_of_append map_add_def fun_eq_iff split: option.splits)
  ultimately show ?thesis using q none(1) by (simp add: queued_on_def)
qed

lemma queued_tl:
  assumes q: "queued_on base (r # rows) t"
  shows "queued_on base rows (t(job_ID r := None))"
proof -
  have "map_of (map (\<lambda>r. (job_ID r, r)) rows) (job_ID r) = None"
    using q by (auto simp: queued_on_def map_of_eq_None_iff image_image)
  then have "(base ++ (map_of (map (\<lambda>r. (job_ID r, r)) rows))(job_ID r \<mapsto> r))(job_ID r := None) =
      base ++ map_of (map (\<lambda>r. (job_ID r, r)) rows)"
    using q by (auto simp: queued_on_def map_add_def fun_eq_iff split: option.split)
  with q show ?thesis by (simp add: queued_on_def)
qed

lemma queued_nil [simp]: "queued_on base [] t \<longleftrightarrow> t = base"
  by (simp add: queued_on_def)

context reliable_job_store
begin

lemma database_calls:
  assumes "\<And>c. c \<in> set cs \<Longrightarrow> \<exists>raw. MarshalPayload marshal (jc_payload c) = Inr raw"
    and "queued_on base rows (table d)"
  shows "\<exists>d' rows'. dispatch_all (database_call D marshal drv ctx) cs d = (d', no_errors cs) \<and>
    queued_on base (rows @ rows') (table d') \<and> list_all2 (call_row marshal drv) cs rows'"
  using assms
proof (induction cs arbitrary: d rows)
  case (Cons c cs)
  obtain raw where raw: "MarshalPayload marshal (jc_payload c) = Inr raw" using Cons.prems(1) by auto
  obtain d1 i where d1: "database_Dispatch D marshal drv ctx (jc_name c) (jc_payload c) (jc_at c) d = (d1, None)"
    "table d i = None" "table d1 = (table d)(i \<mapsto> (new_job_record drv (jc_name c) raw 0 (jc_at c))\<lparr>job_ID := i\<rparr>)"
    by (rule dispatch_up [OF raw])
  let ?r = "(new_job_record drv (jc_name c) raw 0 (jc_at c))\<lparr>job_ID := i\<rparr>"
  have row: "call_row marshal drv c ?r" using raw by (auto simp: call_row_def)
  have "queued_on base (rows @ [?r]) (table d1)"
    using queued_snoc [OF Cons.prems(2), of ?r] d1 by simp
  from Cons.IH [OF _ this] Cons.prems(1) obtain d' rows' where
    "dispatch_all (database_call D marshal drv ctx) cs d1 = (d', no_errors cs)"
    "queued_on base ((rows @ [?r]) @ rows') (table d')" "list_all2 (call_row marshal drv) cs rows'"
    by auto
  moreover have "database_call D marshal drv ctx d c = (d1, None)" by (simp add: database_call_def d1(1))
  ultimately show ?case using row
    by (intro exI [of _ d'] exI [of _ "?r # rows'"]) simp
qed auto

lemma process_head:
  assumes q: "queued_on base (r # rows) (table d)" and base: "idle base (dd_queueName drv) now1"
    and el: "eligible (dd_queueName drv) now1 r" and a: "job_Attempts r = 0"
    and least: "\<And>k. k \<in> set rows \<Longrightarrow> claim_key r < claim_key k"
    and ex: "ExecuteJob job_context (dd_registry drv) (job_Name r) (job_Payload r) w = (w', Ret None)"
  shows "\<exists>d'. processNextJob D drv now1 now2 (d, w) = ((d', w'), Ret (True, None)) \<and> queued_on base rows (table d')"
proof -
  have r: "table d (job_ID r) = Some r" using queued_lookup [OF q] by auto
  obtain d1 j where cl: "claim D (dd_queueName drv) now1 d = (d1, Inr j)"
    by (rule claim_due [OF r el])
  then obtain j0 where j0: "j = reserve now1 j0" "table d (job_ID j0) = Some j0" "eligible (dd_queueName drv) now1 j0"
    "claim_key j0 \<le> claim_key r" "table d1 = (table d)(job_ID j0 \<mapsto> reserve now1 j0)"
    by (rule claim_okE) (use r el in blast)
  have "j0 = r"
  proof (rule ccontr)
    assume "j0 \<noteq> r"
    with j0(2,3) queued_lookup [OF q] base have "j0 \<in> set rows" by (auto simp: idle_def)
    with least j0(4) show False by force
  qed
  note j0 = j0 [unfolded this]
  obtain d' where st: "settle D now2 d1 (reserve now1 r) None = Ret d'"
    using settle_returns [of "reserve now1 r" D now2 d1 None] a by auto
  from settle_table [OF st] have "table d' = (table d)(job_ID r := None)" by (simp add: j0(5))
  with queued_tl [OF q] have "queued_on base rows (table d')" by simp
  moreover have "processNextJob D drv now1 now2 (d, w) = ((d', w'), Ret (True, None))"
    using cl ex st by (simp add: processNextJob_def j0(1))
  ultimately show ?thesis by blast
qed

lemma database_loop_runs:
  assumes "queued_on base rows (table d)" "list_all2 (call_row marshal drv) cs rows"
    and "sorted_wrt (<) (map jc_at cs)"
    and "length ps = length cs"
    and "\<And>p. p \<in> set ps \<Longrightarrow> \<not> poll_quit p \<and> idle base (dd_queueName drv) (poll_now1 p) \<and>
      (\<forall>c \<in> set cs. jc_at c \<le> poll_now1 p)"
    and "run_jobs marshal (dd_registry drv) job_context cs w = Some w'"
  shows "\<exists>d'. database_workerLoop D drv ps (d, w) = ((d', w'), length cs, Ret False) \<and> table d' = base"
  using assms
proof (induction cs arbitrary: rows d w ps)
  case (Cons c cs)
  from Cons.prems(2) obtain r rs where rows: "rows = r # rs" and row: "call_row marshal drv c r"
    and rest: "list_all2 (call_row marshal drv) cs rs" by (auto simp: list_all2_Cons1)
  from Cons.prems(4) obtain p ps' where ps: "ps = p # ps'" "length ps' = length cs" by (cases ps) auto
  note s = call_row_simps [OF row]
  have p: "\<not> poll_quit p" "idle base (dd_queueName drv) (poll_now1 p)" "jc_at c \<le> poll_now1 p"
    using Cons.prems(5) [of p] ps by auto
  have el: "eligible (dd_queueName drv) (poll_now1 p) r" using p(3) by (simp add: s)
  have least: "claim_key r < claim_key k" if "k \<in> set rs" for k
  proof -
    from that rest obtain c' where "c' \<in> set cs" "call_row marshal drv c' k"
      by (metis in_set_conv_nth list_all2_conv_all_nth)
    with call_row_simps [OF this(2)] s Cons.prems(3) show ?thesis by (auto simp: claim_key_def less_prod_def)
  qed
  from Cons.prems(6) obtain w1 where x: "ExecuteJob job_context (dd_registry drv) (job_Name r) (job_Payload r) w = (w1, Ret None)"
    and run: "run_jobs marshal (dd_registry drv) job_context cs w1 = Some w'"
    by (rule run_jobs_ConsE) (use s in auto)
  obtain d1 where d1: "processNextJob D drv (poll_now1 p) (poll_now2 p) (d, w) = ((d1, w1), Ret (True, None))"
    "queued_on base rs (table d1)"
    using process_head [OF Cons.prems(1) [unfolded rows] p(2) el s(4) least x] by blast
  obtain d' where "database_workerLoop D drv ps' (d1, w1) = ((d', w'), length cs, Ret False)" "table d' = base"
    using Cons.IH [OF d1(2) rest _ ps(2) _ run] Cons.prems(3,5) ps(1) by auto
  with d1(1) p(1) show ?case by (simp add: ps(1))
qed auto

end

section \<open>The Redis driver\<close>

definition redis_call ::
  "('v \<Rightarrow> err + string) \<Rightarrow> (redis_job_message \<Rightarrow> err + string) \<Rightarrow> ('d, 'w) redis_driver \<Rightarrow> go_context \<Rightarrow>
   ('d, 'w) redis_state \<Rightarrow> 'v job_call \<Rightarrow> ('d, 'w) redis_state \<times> err option" where
  "redis_call marshal enc drv ctx s c =
     redis_Dispatch marshal enc drv ctx (jc_name c) (jc_payload c) (jc_uuid c) (jc_at c) s"

definition call_message ::
  "('v \<Rightarrow> err + string) \<Rightarrow> (string \<Rightarrow> err + redis_job_message) \<Rightarrow> ('d, 'w) redis_driver \<Rightarrow> 'v job_call \<Rightarrow>
   string \<Rightarrow> bool" where
  "call_message marshal dec drv c b \<longleftrightarrow>
     (\<exists>raw. MarshalPayload marshal (jc_payload c) = Inr raw \<and>
        dec b = Inr (new_message drv (jc_name c) raw (jc_uuid c) (jc_at c)))"

context reliable_redis_server
begin

lemma redis_calls:
  assumes R: "Underlying (rd_client drv) = Some R" and en: "IsEnabled (rd_client drv)"
    and "\<And>c. c \<in> set cs \<Longrightarrow> \<exists>raw b. MarshalPayload marshal (jc_payload c) = Inr raw \<and>
      enc (new_message drv (jc_name c) raw (jc_uuid c) (jc_at c)) = Inr b \<and>
      dec b = Inr (new_message drv (jc_name c) raw (jc_uuid c) (jc_at c))"
  shows "\<exists>d' bs. dispatch_all (redis_call marshal enc drv ctx) cs s = (s\<lparr>rs_server := d'\<rparr>, no_errors cs) \<and>
    lists d' (rd_queueKey drv) = rev bs @ lists (rs_server s) (rd_queueKey drv) \<and>
    list_all2 (call_message marshal dec drv) cs bs"
  using assms(3)
proof (induction cs arbitrary: s)
  case (Cons c cs)
  have r: "rdb (rd_client drv) = R" using R by (simp add: rdb_def)
  obtain raw b where raw: "MarshalPayload marshal (jc_payload c) = Inr raw"
    and b: "enc (new_message drv (jc_name c) raw (jc_uuid c) (jc_at c)) = Inr b"
      "dec b = Inr (new_message drv (jc_name c) raw (jc_uuid c) (jc_at c))"
    using Cons.prems by (meson list.set_intros(1))
  obtain d1 where d1: "ro_LPush R (rs_server s) (rd_queueKey drv) b = (d1, None)" using lpush_up by blast
  have l1: "lists d1 (rd_queueKey drv) = b # lists (rs_server s) (rd_queueKey drv)"
    using lpush_ok [OF d1] by simp
  have step: "redis_call marshal enc drv ctx s c = (s\<lparr>rs_server := d1\<rparr>, None)"
    by (simp add: redis_call_def redis_Dispatch_def redis_DispatchDelayed_def en raw b(1) r d1)
  have msg: "call_message marshal dec drv c b" using raw b(2) by (simp add: call_message_def)
  obtain d' bs where "dispatch_all (redis_call marshal enc drv ctx) cs (s\<lparr>rs_server := d1\<rparr>) =
      (s\<lparr>rs_server := d1\<rparr>\<lparr>rs_server := d'\<rparr>, no_errors cs)"
    "lists d' (rd_queueKey drv) = rev bs @ b # lists (rs_server s) (rd_queueKey drv)"
    "list_all2 (call_message marshal dec drv) cs bs"
    using Cons.IH [of "s\<lparr>rs_server := d1\<rparr>"] Cons.prems l1 by auto
  with step msg show ?case by (intro exI [of _ d'] exI [of _ "b # bs"]) simp
next
  case Nil
  show ?case by (rule exI [of _ "rs_server s"], rule exI [of _ "[]"]) simp
qed

lemma redis_poll_last:
  assumes R: "Underlying (rd_client drv) = Some R" and en: "IsEnabled (rd_client drv)"
    and l: "lists (rs_server s) (rd_queueKey drv) = bs @ [b]"
    and b: "dec b = Inr (new_message drv name raw u t)"
    and ex: "ExecuteJob job_context (rd_registry drv) name raw (rs_world s) = (w', Ret None)"
  shows "\<exists>d'. redis_poll enc dec drv uuid now s = (s\<lparr>rs_server := d', rs_world := w'\<rparr>, Ret ()) \<and>
    lists d' (rd_queueKey drv) = bs"
proof -
  have r: "rdb (rd_client drv) = R" using R by (simp add: rdb_def)
  obtain d' res where pop: "ro_BRPop R (rs_server s) (rd_queueKey drv) = (d', Inr res)"
    using brpop_up [of "rs_server s" "rd_queueKey drv"] l by auto
  from brpop_ok [OF pop] l have "res = [rd_queueKey drv, b]" "lists d' (rd_queueKey drv) = bs" by simp_all
  with pop r en b ex show ?thesis
    by (intro exI [of _ d']) (simp add: redis_turn_defs redis_process_def Let_def)
qed

lemma redis_loop_runs:
  assumes R: "Underlying (rd_client drv) = Some R" and en: "IsEnabled (rd_client drv)"
    and "lists (rs_server s) (rd_queueKey drv) = rev bs" "list_all2 (call_message marshal dec drv) cs bs"
    and "length turns = length cs" "\<forall>turn \<in> set turns. \<not> fst turn"
    and "run_jobs marshal (rd_registry drv) job_context cs (rs_world s) = Some w'"
  shows "\<exists>d'. redis_workerLoop enc dec drv turns s = (s\<lparr>rs_server := d', rs_world := w'\<rparr>, Ret False) \<and>
    lists d' (rd_queueKey drv) = []"
  using assms(3-)
proof (induction cs arbitrary: s bs turns)
  case (Cons c cs)
  from Cons.prems(2) obtain b bs' where bs: "bs = b # bs'" and msg: "call_message marshal dec drv c b"
    and rest: "list_all2 (call_message marshal dec drv) cs bs'" by (auto simp: list_all2_Cons1)
  from Cons.prems(3,4) obtain u t ts where ts: "turns = (False, u, t) # ts" "length ts = length cs"
    by (cases turns) auto
  from Cons.prems(5) show ?case
  proof (rule run_jobs_ConsE)
    fix raw w1
    assume m: "MarshalPayload marshal (jc_payload c) = Inr raw"
      and x: "ExecuteJob job_context (rd_registry drv) (jc_name c) raw (rs_world s) = (w1, Ret None)"
      and run: "run_jobs marshal (rd_registry drv) job_context cs w1 = Some w'"
    from m msg have b: "dec b = Inr (new_message drv (jc_name c) raw (jc_uuid c) (jc_at c))"
      by (simp add: call_message_def)
    have "lists (rs_server s) (rd_queueKey drv) = rev bs' @ [b]" using Cons.prems(1) bs by simp
    from redis_poll_last [where dec = dec and enc = enc and uuid = u and now = t, OF R en this b x] obtain d1 where
      d1: "redis_poll enc dec drv u t s = (s\<lparr>rs_server := d1, rs_world := w1\<rparr>, Ret ())"
      "lists d1 (rd_queueKey drv) = rev bs'" by blast
    from Cons.IH [of "s\<lparr>rs_server := d1, rs_world := w1\<rparr>" bs' ts] d1(2) rest ts Cons.prems(4) run
    obtain d' where "redis_workerLoop enc dec drv ts (s\<lparr>rs_server := d1, rs_world := w1\<rparr>) =
        (s\<lparr>rs_server := d1, rs_world := w1\<rparr>\<lparr>rs_server := d', rs_world := w'\<rparr>, Ret False)"
      "lists d' (rd_queueKey drv) = []" by auto
    with d1(1) ts(1) show ?thesis by auto
  qed
next
  case Nil
  then show ?case by (intro exI [of _ "rs_server s"]) simp
qed

end

section \<open>Agreement\<close>

text \<open>
  C5. The drivers agree. Take a sequence of jobs whose payloads marshal and whose handlers succeed when
  they are called one after the other. The context is where the drivers differ: the synchronous driver
  hands the handlers that of the caller of \<open>Dispatch\<close>, the workers of the other three hand them one that
  ends after 60 seconds. \<open>v\<close> is the world that the calls give with the caller's context, \<open>w'\<close> the world
  that they give with the workers'. Dispatched on the synchronous driver the jobs run at once and give \<open>v\<close>.
  On the database driver, with a database that does not fail and nothing else due, with dispatch times
  that increase, and polls after the last of them, a worker takes exactly one turn per job, gives \<open>w'\<close>,
  and leaves the table as it was before the dispatches. On the memory driver, with room in the channel,
  and on the Redis driver, with an empty list, no failing command, and messages of these jobs that survive
  their encoding, one worker does the same with as many turns. So each job runs exactly once, in the
  order of dispatch, and to handlers that do not look at their context the four drivers are the same.
\<close>

theorem drivers_run_the_same_jobs:
  fixes S :: "'w sync_driver" and drv :: "'w database_driver" and s :: "'w memory_system"
    and rdrv :: "('e, 'w) redis_driver"
  assumes jobs: "run_jobs marshal reg ctx cs w = Some v" "run_jobs marshal reg job_context cs w = Some w'"
    and reg: "sync_registry S = reg" "dd_registry drv = reg" "md_registry (ms_driver s) = reg" "rd_registry rdrv = reg"
    and db: "reliable_job_store D table" "sorted_wrt (<) (map jc_at cs)" "length ps = length cs"
      "\<forall>p \<in> set ps. \<not> poll_quit p \<and> idle (table d) (dd_queueName drv) (poll_now1 p) \<and>
        (\<forall>c \<in> set cs. jc_at c \<le> poll_now1 p)"
    and mem: "\<not> md_chan_closed (ms_driver s)" "md_jobChan (ms_driver s) = []" "length cs \<le> md_cap (ms_driver s)"
      "ms_workers s = Idle # ws" "ms_world s = w"
    and red: "reliable_redis_server R strs lsts" "Underlying (rd_client rdrv) = Some R" "IsEnabled (rd_client rdrv)"
      "\<forall>c \<in> set cs. \<forall>raw. MarshalPayload marshal (jc_payload c) = Inr raw \<longrightarrow>
        (\<exists>b. enc (new_message rdrv (jc_name c) raw (jc_uuid c) (jc_at c)) = Inr b \<and>
           dec b = Inr (new_message rdrv (jc_name c) raw (jc_uuid c) (jc_at c)))"
      "lsts (rs_server r) (rd_queueKey rdrv) = []" "rs_world r = w"
      "length turns = length cs" "\<forall>turn \<in> set turns. \<not> fst turn"
  shows "dispatch_all (sync_call marshal S ctx) cs w = (v, no_errors cs) \<and>
    (\<exists>d1 d2. dispatch_all (database_call D marshal drv ctx) cs d = (d1, no_errors cs) \<and>
       database_workerLoop D drv ps (d1, w) = ((d2, w'), length cs, Ret False) \<and> table d2 = table d) \<and>
    (\<exists>s'. memory_turns (length cs) (foldl (memory_call marshal ctx) s cs) = Some s' \<and> ms_world s' = w' \<and>
       md_jobChan (ms_driver s') = [] \<and> ms_crashed s' = ms_crashed s) \<and>
    (\<exists>r1 r2. dispatch_all (redis_call marshal enc rdrv ctx) cs r = (r1, no_errors cs) \<and>
       redis_workerLoop enc dec rdrv turns r1 = (r2, Ret False) \<and> rs_world r2 = w' \<and>
       lsts (rs_server r2) (rd_queueKey rdrv) = [])"
proof (intro conjI)
  have m: "\<exists>raw. MarshalPayload marshal (jc_payload c) = Inr raw" if "c \<in> set cs" for c
    using run_jobs_marshal [OF jobs(2) that] .
  show "dispatch_all (sync_call marshal S ctx) cs w = (v, no_errors cs)"
    by (rule sync_runs_jobs) (simp add: reg jobs(1))
  obtain d1 rows where d1: "dispatch_all (database_call D marshal drv ctx) cs d = (d1, no_errors cs)"
    "queued_on (table d) rows (table d1)" "list_all2 (call_row marshal drv) cs rows"
    using reliable_job_store.database_calls [OF db(1) m, of cs "table d" "[]" d drv ctx] by auto
  obtain d2 where "database_workerLoop D drv ps (d1, w) = ((d2, w'), length cs, Ret False)" "table d2 = table d"
    using reliable_job_store.database_loop_runs [OF db(1) d1(2,3) db(2,3), of w w'] db(4) jobs(2)
    by (auto simp: reg)
  with d1(1) show "\<exists>d1 d2. dispatch_all (database_call D marshal drv ctx) cs d = (d1, no_errors cs) \<and>
       database_workerLoop D drv ps (d1, w) = ((d2, w'), length cs, Ret False) \<and> table d2 = table d" by blast
  obtain js acc where js: "foldl (memory_call marshal ctx) s cs =
      s\<lparr>ms_driver := (ms_driver s)\<lparr>md_jobChan := js\<rparr>, ms_accepted := acc\<rparr>" "list_all2 (call_raw marshal) cs js"
    using memory_calls [OF m mem(1), of cs ctx] mem(2,3) by auto
  show "\<exists>s'. memory_turns (length cs) (foldl (memory_call marshal ctx) s cs) = Some s' \<and> ms_world s' = w' \<and>
       md_jobChan (ms_driver s') = [] \<and> ms_crashed s' = ms_crashed s"
    using memory_turns_run [of marshal cs "foldl (memory_call marshal ctx) s cs" ws w'] js mem jobs(2)
    by (auto simp: reg)
  have codec: "\<exists>raw b. MarshalPayload marshal (jc_payload c) = Inr raw \<and>
      enc (new_message rdrv (jc_name c) raw (jc_uuid c) (jc_at c)) = Inr b \<and>
      dec b = Inr (new_message rdrv (jc_name c) raw (jc_uuid c) (jc_at c))" if "c \<in> set cs" for c
    using m [OF that] red(4) that by blast
  obtain d' bs where r1: "dispatch_all (redis_call marshal enc rdrv ctx) cs r = (r\<lparr>rs_server := d'\<rparr>, no_errors cs)"
    "lsts d' (rd_queueKey rdrv) = rev bs" "list_all2 (call_message marshal dec rdrv) cs bs"
    using reliable_redis_server.redis_calls [OF red(1,2,3) codec, where cs = cs and s = r and ctx = ctx]
      red(5) by auto
  with reliable_redis_server.redis_loop_runs [OF red(1,2,3), of "r\<lparr>rs_server := d'\<rparr>" bs marshal dec cs turns w' enc]
    red(6,7,8) jobs(2)
  show "\<exists>r1 r2. dispatch_all (redis_call marshal enc rdrv ctx) cs r = (r1, no_errors cs) \<and>
       redis_workerLoop enc dec rdrv turns r1 = (r2, Ret False) \<and> rs_world r2 = w' \<and>
       lsts (rs_server r2) (rd_queueKey rdrv) = []"
    by (auto simp: reg)
qed

section \<open>Two jobs on four queues\<close>

definition noting_registry :: "string list registry" where
  "noting_registry = Register NewRegistry ''note'' (\<lambda>ctx raw w. (w @ [raw], Ret None))"

definition two_calls :: "string job_call list" where
  "two_calls =
     [\<lparr>jc_name = ''note'', jc_payload = Str ''a'', jc_uuid = ''u1'', jc_at = 50\<rparr>,
      \<lparr>jc_name = ''note'', jc_payload = Val ''b'', jc_uuid = ''u2'', jc_at = 60\<rparr>]"

definition noting_database :: "string list database_driver" where
  "noting_database = NewDatabaseDriver
     \<lparr>dc_QueueName = [], dc_Concurrency = 1, dc_MaxAttempts = 3, dc_PollInterval = 0\<rparr> (Some noting_registry)"

definition noting_memory :: "string list memory_system" where
  "noting_memory = memory_sys_start (memory_boot (NewMemoryDriver 1 10 (Some noting_registry)) 0 [])"

definition noting_redis :: "(mem_server, string list) redis_driver" where
  "noting_redis = NewRedisDriver (Some \<lparr>rc_rdb = Some mem_redis, rc_enabled = True\<rparr>)
     \<lparr>rdc_QueueName = [], rdc_Concurrency = 1, rdc_MaxAttempts = 3\<rparr> (Some noting_registry)"

lemma noting_run: "run_jobs Inr noting_registry ctx two_calls [] = Some [''a'', ''b'']"
  by (simp add: two_calls_def noting_registry_def ExecuteJob_def MarshalPayload_def)

theorem drivers_run_the_same_jobs_witness:
  "dispatch_all (sync_call Inr (NewSyncDriver (Some noting_registry)) Background) two_calls [] =
     ([''a'', ''b''], [None, None]) \<and>
   (\<exists>d1 d2. dispatch_all (database_call mem_job_db Inr noting_database Background) two_calls mem_empty = (d1, [None, None]) \<and>
      database_workerLoop mem_job_db noting_database [sample_poll 70, sample_poll 80] (d1, []) =
        ((d2, [''a'', ''b'']), 2, Ret False)) \<and>
   (\<exists>s'. memory_turns 2 (foldl (memory_call Inr Background) noting_memory two_calls) = Some s' \<and>
      ms_world s' = [''a'', ''b'']) \<and>
   (\<exists>r1 r2. dispatch_all (redis_call Inr enc_redis_message noting_redis Background) two_calls
        \<lparr>rs_server = mem_server_empty, rs_delayed = [], rs_world = []\<rparr> = (r1, [None, None]) \<and>
      redis_workerLoop enc_redis_message dec_redis_message noting_redis [(False, ''v1'', 70), (False, ''v2'', 80)] r1 =
        (r2, Ret False) \<and> rs_world r2 = [''a'', ''b''])"
proof -
  let ?r = "\<lparr>rs_server = mem_server_empty, rs_delayed = [], rs_world = []\<rparr> :: (mem_server, string list) redis_state"
  have reg: "sync_registry (NewSyncDriver (Some noting_registry)) = noting_registry"
    "dd_registry noting_database = noting_registry" "md_registry (ms_driver noting_memory) = noting_registry"
    "rd_registry noting_redis = noting_registry"
    by (simp_all add: NewSyncDriver_def noting_database_def NewDatabaseDriver_def noting_memory_def memory_sys_start_def
        memory_boot_def memory_Start_def NewMemoryDriver_def noting_redis_def NewRedisDriver_def)
  have db: "sorted_wrt (<) (map jc_at two_calls)" "length [sample_poll 70, sample_poll 80] = length two_calls"
    "\<forall>p \<in> set [sample_poll 70, sample_poll 80]. \<not> poll_quit p \<and>
      idle (mem_rows mem_empty) (dd_queueName noting_database) (poll_now1 p) \<and> (\<forall>c \<in> set two_calls. jc_at c \<le> poll_now1 p)"
    by (simp_all add: two_calls_def sample_poll_def idle_def)
  have mem: "\<not> md_chan_closed (ms_driver noting_memory)" "md_jobChan (ms_driver noting_memory) = []"
    "length two_calls \<le> md_cap (ms_driver noting_memory)" "ms_workers noting_memory = Idle # []"
    "ms_world noting_memory = []"
    by (simp_all add: noting_memory_def memory_sys_start_def memory_boot_def memory_Start_def NewMemoryDriver_def
        two_calls_def)
  have red: "Underlying (rd_client noting_redis) = Some mem_redis" "IsEnabled (rd_client noting_redis)"
    "\<forall>c \<in> set two_calls. \<forall>raw. MarshalPayload Inr (jc_payload c) = Inr raw \<longrightarrow>
      (\<exists>b. enc_redis_message (new_message noting_redis (jc_name c) raw (jc_uuid c) (jc_at c)) = Inr b \<and>
         dec_redis_message b = Inr (new_message noting_redis (jc_name c) raw (jc_uuid c) (jc_at c)))"
    "mrs_lists (rs_server ?r) (rd_queueKey noting_redis) = []" "rs_world ?r = []"
    "length [(False, ''v1'', 70 :: int), (False, ''v2'', 80)] = length two_calls"
    "\<forall>turn \<in> set [(False, ''v1'', 70 :: int), (False, ''v2'', 80)]. \<not> fst turn"
    using redis_message_codec
    by (simp_all add: noting_redis_def NewRedisDriver_def Underlying_def IsEnabled_def mem_server_empty_def two_calls_def)
  have two: "length two_calls = 2" "no_errors two_calls = [None, None]"
    by (simp_all add: two_calls_def no_errors_def numeral_eq_Suc)
  from drivers_run_the_same_jobs [where ctx = Background, OF noting_run noting_run reg mem.reliable_job_store_axioms
      db mem mem_redis.reliable_redis_server_axioms red]
  show ?thesis unfolding two by blast
qed

end
