(* ===== verification/Redis_Workers.thy ===== *)
theory Redis_Workers
  imports Queue_Properties "HOL-Library.Sublist"
begin

text \<open>
  The Redis driver at work: the steps of its workers, of the goroutines that sleep before a retry, of
  \<open>Dispatch\<close>, \<open>Start\<close> and \<open>Stop\<close>, and of other processes on the same server, interleaved. A worker is at
  the \<open>select\<close> of its loop, at \<open>BRPop\<close>, busy with the text it popped, or has left the loop. A panic of a
  handler ends the process.

  Four fields only observe: the texts that reached the list of the queue, those that left it, those a worker
  was handed, and those a worker is done with. \<open>redis_inv\<close> relates them; every step keeps it.
\<close>

section \<open>The machine\<close>

datatype redis_worker = AtSelect | AtPop | HasMessage string | LoopLeft

record ('d, 'w) redis_system =
  rw_driver :: "('d, 'w) redis_driver"
  rw_state :: "('d, 'w) redis_state"
  rw_workers :: "redis_worker list"
  rw_now :: instant
  rw_crashed :: bool
  rw_arrived :: "string list"
  rw_gone :: "string list"
  rw_taken :: "string list"
  rw_settled :: "string list"

definition redis_boot ::
  "('d, 'w) redis_driver \<Rightarrow> instant \<Rightarrow> ('d, 'w) redis_state \<Rightarrow> ('d, 'w) redis_system" where
  "redis_boot drv now st =
     \<lparr>rw_driver = drv, rw_state = st, rw_workers = [], rw_now = now, rw_crashed = False,
      rw_arrived = [], rw_gone = [], rw_taken = [], rw_settled = []\<rparr>"

text \<open>The new state of the server and the sleepers, with what came to and went from the list.\<close>

definition redis_commit ::
  "('d \<Rightarrow> string \<Rightarrow> string list) \<Rightarrow> ('d, 'w) redis_state \<Rightarrow> ('d, 'w) redis_system \<Rightarrow> ('d, 'w) redis_system" where
  "redis_commit lsts st s =
     (let old = lsts (rs_server (rw_state s)) (rd_queueKey (rw_driver s));
          new = lsts (rs_server st) (rd_queueKey (rw_driver s))
      in s\<lparr>rw_state := st, rw_arrived := rw_arrived s @ rev (take (length new - length old) new),
           rw_gone := rw_gone s @ drop (length new) old\<rparr>)"

definition redis_sys_start :: "('d, 'w) redis_system \<Rightarrow> ('d, 'w) redis_system" where
  "redis_sys_start s =
     (let spawned = (if rd_running (rw_driver s) then 0 else nat (rd_concurrency (rw_driver s))) in
      s\<lparr>rw_driver := fst (redis_Start (rw_driver s)),
        rw_workers := rw_workers s @ replicate spawned AtSelect\<rparr>)"

definition redis_sys_stop :: "('d, 'w) redis_system \<Rightarrow> ('d, 'w) redis_system" where
  "redis_sys_stop s =
     (case redis_Stop False (rw_driver s) of
        Panic msg \<Rightarrow> s\<lparr>rw_crashed := True\<rparr>
      | Ret (drv, e) \<Rightarrow> s\<lparr>rw_driver := drv\<rparr>)"

text \<open>The three steps of worker \<open>w\<close> in \<open>workerLoop\<close>: its \<open>select\<close>, its pop, the rest of its turn.\<close>

definition redis_worker_select :: "nat \<Rightarrow> ('d, 'w) redis_system \<Rightarrow> ('d, 'w) redis_system option" where
  "redis_worker_select w s =
     (if w < length (rw_workers s) \<and> rw_workers s ! w = AtSelect then
        (if rd_quit (rw_driver s) then
           Some (s\<lparr>rw_driver := (rw_driver s)\<lparr>rd_wg := rd_wg (rw_driver s) - 1\<rparr>,
                   rw_workers := (rw_workers s)[w := LoopLeft]\<rparr>)
         else if \<not> IsEnabled (rd_client (rw_driver s)) then Some s
         else Some (s\<lparr>rw_workers := (rw_workers s)[w := AtPop]\<rparr>))
      else None)"

definition redis_worker_pop ::
  "('d \<Rightarrow> string \<Rightarrow> string list) \<Rightarrow> nat \<Rightarrow> ('d, 'w) redis_system \<Rightarrow> ('d, 'w) redis_system option" where
  "redis_worker_pop lsts w s =
     (if w < length (rw_workers s) \<and> rw_workers s ! w = AtPop then
        (case redis_pop (rw_driver s) (rs_server (rw_state s)) of
           (d', None) \<Rightarrow>
             Some (redis_commit lsts ((rw_state s)\<lparr>rs_server := d'\<rparr>)
               (s\<lparr>rw_workers := (rw_workers s)[w := AtSelect]\<rparr>))
         | (d', Some rawJSON) \<Rightarrow>
             Some (redis_commit lsts ((rw_state s)\<lparr>rs_server := d'\<rparr>)
               (s\<lparr>rw_workers := (rw_workers s)[w := HasMessage rawJSON],
                  rw_taken := rw_taken s @ [rawJSON]\<rparr>)))
      else None)"

definition redis_worker_finish ::
  "(redis_job_message \<Rightarrow> err + string) \<Rightarrow> (string \<Rightarrow> err + redis_job_message) \<Rightarrow>
   ('d \<Rightarrow> string \<Rightarrow> string list) \<Rightarrow> string \<Rightarrow> nat \<Rightarrow> ('d, 'w) redis_system \<Rightarrow>
   ('d, 'w) redis_system option" where
  "redis_worker_finish enc dec lsts uuid w s =
     (if w < length (rw_workers s) then
        (case rw_workers s ! w of
           HasMessage rawJSON \<Rightarrow>
             (case redis_handle enc dec (rw_driver s) uuid (rw_now s) rawJSON (rw_state s) of
                (st, Panic msg) \<Rightarrow> Some ((redis_commit lsts st s)\<lparr>rw_crashed := True\<rparr>)
              | (st, Ret u) \<Rightarrow>
                  Some (redis_commit lsts st (s\<lparr>rw_workers := (rw_workers s)[w := AtSelect],
                    rw_settled := rw_settled s @ [rawJSON]\<rparr>)))
         | _ \<Rightarrow> None)
      else None)"

text \<open>
  \<open>push\<close> and \<open>other\<close> are the other processes on the server: one that dispatches to the same queue, and
  one that leaves its list alone (the cache, or another queue).
\<close>

inductive redis_step ::
  "'d redis_ops \<Rightarrow> ('d \<Rightarrow> string \<Rightarrow> string list) \<Rightarrow> ('v \<Rightarrow> err + string) \<Rightarrow>
   (redis_job_message \<Rightarrow> err + string) \<Rightarrow> (string \<Rightarrow> err + redis_job_message) \<Rightarrow>
   ('d, 'w) redis_system \<Rightarrow> ('d, 'w) redis_system \<Rightarrow> bool"
  for R lsts marshal enc dec where
  dispatch: "\<not> rw_crashed s \<Longrightarrow>
    redis_DispatchDelayed marshal enc (rw_driver s) ctx name p delay uuid (rw_now s) (rw_state s) = (st, e) \<Longrightarrow>
    redis_step R lsts marshal enc dec s (redis_commit lsts st s)"
| timer_fire: "\<not> rw_crashed s \<Longrightarrow> redis_timer_fire (rw_driver s) i (rw_now s) (rw_state s) = Some st \<Longrightarrow>
    redis_step R lsts marshal enc dec s (redis_commit lsts st s)"
| timer_quit: "\<not> rw_crashed s \<Longrightarrow> redis_timer_quit (rw_driver s) i (rw_state s) = Some st \<Longrightarrow>
    redis_step R lsts marshal enc dec s (redis_commit lsts st s)"
| register: "\<not> rw_crashed s \<Longrightarrow>
    redis_step R lsts marshal enc dec s (s\<lparr>rw_driver := redis_RegisterHandler (rw_driver s) name h\<rparr>)"
| start: "\<not> rw_crashed s \<Longrightarrow> redis_step R lsts marshal enc dec s (redis_sys_start s)"
| stop: "\<not> rw_crashed s \<Longrightarrow> redis_step R lsts marshal enc dec s (redis_sys_stop s)"
| worker_select: "\<not> rw_crashed s \<Longrightarrow> redis_worker_select w s = Some t \<Longrightarrow>
    redis_step R lsts marshal enc dec s t"
| worker_pop: "\<not> rw_crashed s \<Longrightarrow> redis_worker_pop lsts w s = Some t \<Longrightarrow>
    redis_step R lsts marshal enc dec s t"
| worker_finish: "\<not> rw_crashed s \<Longrightarrow> redis_worker_finish enc dec lsts uuid w s = Some t \<Longrightarrow>
    redis_step R lsts marshal enc dec s t"
| push: "ro_LPush R (rs_server (rw_state s)) (rd_queueKey (rw_driver s)) msg = (d', e) \<Longrightarrow>
    redis_step R lsts marshal enc dec s (redis_commit lsts ((rw_state s)\<lparr>rs_server := d'\<rparr>) s)"
| other: "lsts d' (rd_queueKey (rw_driver s)) = lsts (rs_server (rw_state s)) (rd_queueKey (rw_driver s)) \<Longrightarrow>
    redis_step R lsts marshal enc dec s (redis_commit lsts ((rw_state s)\<lparr>rs_server := d'\<rparr>) s)"
| tick: "0 \<le> dt \<Longrightarrow> redis_step R lsts marshal enc dec s (s\<lparr>rw_now := rw_now s + dt\<rparr>)"

inductive redis_reach ::
  "'d redis_ops \<Rightarrow> ('d \<Rightarrow> string \<Rightarrow> string list) \<Rightarrow> ('v \<Rightarrow> err + string) \<Rightarrow>
   (redis_job_message \<Rightarrow> err + string) \<Rightarrow> (string \<Rightarrow> err + redis_job_message) \<Rightarrow>
   ('d, 'w) redis_system \<Rightarrow> ('d, 'w) redis_system \<Rightarrow> bool"
  for R lsts marshal enc dec s0 where
  redis_init: "redis_reach R lsts marshal enc dec s0 s0"
| redis_next: "redis_reach R lsts marshal enc dec s0 s \<Longrightarrow> redis_step R lsts marshal enc dec s t \<Longrightarrow>
    redis_reach R lsts marshal enc dec s0 t"

section \<open>The invariant\<close>

text \<open>The messages in the hands of workers.\<close>

definition redis_held :: "redis_worker list \<Rightarrow> string multiset" where
  "redis_held ws = mset (concat (map (\<lambda>w. case w of HasMessage t \<Rightarrow> [t] | _ \<Rightarrow> []) ws))"

definition queue_list :: "('d \<Rightarrow> string \<Rightarrow> string list) \<Rightarrow> ('d, 'w) redis_system \<Rightarrow> string list" where
  "queue_list lsts s = lsts (rs_server (rw_state s)) (rd_queueKey (rw_driver s))"

definition redis_inv :: "('d \<Rightarrow> string \<Rightarrow> string list) \<Rightarrow> ('d, 'w) redis_system \<Rightarrow> bool" where
  "redis_inv lsts s \<longleftrightarrow>
     rw_arrived s = rw_gone s @ rev (queue_list lsts s) \<and> subseq (rw_taken s) (rw_gone s) \<and>
     mset (rw_taken s) = mset (rw_settled s) + redis_held (rw_workers s)"

lemma redis_boot_simps [simp]:
  "rw_driver (redis_boot drv now st) = drv" "rw_state (redis_boot drv now st) = st"
  "rw_workers (redis_boot drv now st) = []" "rw_arrived (redis_boot drv now st) = []"
  "rw_gone (redis_boot drv now st) = []" "rw_taken (redis_boot drv now st) = []"
  "rw_settled (redis_boot drv now st) = []"
  by (simp_all add: redis_boot_def)

lemma redis_commit_simps [simp]:
  "rw_driver (redis_commit lsts st s) = rw_driver s" "rw_state (redis_commit lsts st s) = st"
  "rw_workers (redis_commit lsts st s) = rw_workers s" "rw_taken (redis_commit lsts st s) = rw_taken s"
  "rw_settled (redis_commit lsts st s) = rw_settled s" "rw_crashed (redis_commit lsts st s) = rw_crashed s"
  by (simp_all add: redis_commit_def Let_def)

lemma redis_held_append [simp]: "redis_held (xs @ ys) = redis_held xs + redis_held ys"
  by (simp add: redis_held_def)

lemma redis_held_idle [simp]: "redis_held [] = {#}" "redis_held (replicate n AtSelect) = {#}"
  by (simp_all add: redis_held_def concat_replicate_trivial)

lemma redis_held_upd:
  "w < length ws \<Longrightarrow> redis_held ws = redis_held [ws ! w] + redis_held (remove_at w ws)"
  "w < length ws \<Longrightarrow> redis_held (ws[w := v]) = redis_held [v] + redis_held (remove_at w ws)"
  by (subst id_take_nth_drop [of w ws]; simp add: redis_held_def remove_at_def upd_conv_take_nth_drop)+

text \<open>A text came to the head of the list, or nothing changed.\<close>

definition list_pushed :: "string list \<Rightarrow> string list \<Rightarrow> bool" where
  "list_pushed old new \<longleftrightarrow> new = old \<or> (\<exists>t. new = t # old)"

lemma list_pushed_simps [simp]: "list_pushed xs xs" "list_pushed xs (t # xs)"
  by (simp_all add: list_pushed_def)

lemma commit_pushed:
  assumes "list_pushed (queue_list lsts s) (lsts (rs_server st) (rd_queueKey (rw_driver s)))"
  shows "rw_gone (redis_commit lsts st s) = rw_gone s"
    and "rw_arrived s = rw_gone s @ rev (queue_list lsts s) \<Longrightarrow>
      rw_arrived (redis_commit lsts st s) = rw_gone s @ rev (queue_list lsts (redis_commit lsts st s))"
  using assms by (auto simp: redis_commit_def queue_list_def list_pushed_def Let_def)

lemma redis_inv_pushed:
  assumes "redis_inv lsts s" "list_pushed (queue_list lsts s) (lsts (rs_server st) (rd_queueKey (rw_driver s)))"
  shows "redis_inv lsts (redis_commit lsts st s)"
  using assms commit_pushed [OF assms(2)] by (simp add: redis_inv_def)

lemma commit_popped:
  assumes "lsts (rs_server st) (rd_queueKey (rw_driver s)) = butlast (queue_list lsts s)"
  shows "rw_gone (redis_commit lsts st s) = rw_gone s @ (if queue_list lsts s = [] then [] else [last (queue_list lsts s)])"
    and "rw_arrived s = rw_gone s @ rev (queue_list lsts s) \<Longrightarrow>
      rw_arrived (redis_commit lsts st s) =
        rw_gone (redis_commit lsts st s) @ rev (queue_list lsts (redis_commit lsts st s))"
  using assms
  by (cases "queue_list lsts s" rule: rev_cases; simp add: redis_commit_def queue_list_def Let_def)+

section \<open>Every step keeps the invariant\<close>

text \<open>The identity of the queue: the client and the name of the list.\<close>

definition same_queue :: "('d, 'w) redis_driver \<Rightarrow> ('d, 'w) redis_driver \<Rightarrow> bool" where
  "same_queue drv drv' \<longleftrightarrow> rd_client drv' = rd_client drv \<and> rd_queueKey drv' = rd_queueKey drv"

lemma same_queue_simps [simp]:
  "same_queue drv drv" "same_queue drv (redis_RegisterHandler drv name h)"
  "same_queue drv (fst (redis_Start drv))" "same_queue drv (drv\<lparr>rd_wg := n\<rparr>)"
  "redis_Stop b drv = Ret (drv', e) \<Longrightarrow> same_queue drv drv'"
  by (auto simp: same_queue_def redis_RegisterHandler_def redis_Start_def redis_Stop_def Let_def
      split: if_splits)

lemma same_queue_trans: "same_queue a b \<Longrightarrow> same_queue b c \<Longrightarrow> same_queue a c"
  by (simp add: same_queue_def)

lemma redis_inv_frame:
  assumes "redis_inv lsts s" "same_queue (rw_driver s) drv" "redis_held ws = redis_held (rw_workers s)"
  shows "redis_inv lsts (s\<lparr>rw_driver := drv, rw_workers := ws\<rparr>)"
  using assms by (simp add: redis_inv_def queue_list_def same_queue_def)

lemma redis_inv_crash: "redis_inv lsts s \<Longrightarrow> redis_inv lsts (s\<lparr>rw_crashed := c\<rparr>)"
  by (simp add: redis_inv_def queue_list_def)

lemma redis_inv_start: "redis_inv lsts s \<Longrightarrow> redis_inv lsts (redis_sys_start s)"
  unfolding redis_sys_start_def Let_def by (rule redis_inv_frame) simp_all

lemma redis_inv_stop:
  assumes "redis_inv lsts s"
  shows "redis_inv lsts (redis_sys_stop s)"
  using assms redis_inv_frame [OF assms, where ws = "rw_workers s"]
  by (auto simp: redis_sys_stop_def redis_inv_crash split: outcome.split)

lemma redis_inv_select:
  assumes "redis_inv lsts s" "redis_worker_select w s = Some t"
  shows "redis_inv lsts t"
proof -
  have at: "w < length (rw_workers s)" "rw_workers s ! w = AtSelect"
    using assms(2) by (auto simp: redis_worker_select_def split: if_splits)
  have "redis_held ((rw_workers s)[w := v]) = redis_held (rw_workers s)" if "redis_held [v] = {#}" for v
    using that at by (simp add: redis_held_upd [OF at(1)] redis_held_def [of "[AtSelect]"])
  note held = this [of LoopLeft] this [of AtPop]
  note frame = redis_inv_frame [OF assms(1) same_queue_simps(4) held(1)]
    redis_inv_frame [OF assms(1) same_queue_simps(1) held(2)]
  show ?thesis
    using assms frame at by (auto simp: redis_worker_select_def redis_held_def split: if_splits)
qed

context redis_server
begin

lemma lpush_pushed: "ro_LPush R d k t = (d', e) \<Longrightarrow> list_pushed (lists d k) (lists d' k)"
  using lpush_ok [of d k t d'] lpush_err [of d k t d'] by (cases e) auto

lemma dispatch_pushed:
  assumes "Underlying (rd_client drv) = Some R"
    and "redis_DispatchDelayed marshal enc drv ctx name p delay uuid now s = (s', e)"
  shows "list_pushed (lists (rs_server s) (rd_queueKey drv)) (lists (rs_server s') (rd_queueKey drv))"
proof -
  have "rs_server s' = rs_server s \<or>
      (\<exists>t r. ro_LPush R (rs_server s) (rd_queueKey drv) t = (rs_server s', r))"
    using assms
    by (auto simp: redis_DispatchDelayed_def rdb_def split: if_split_asm sum.split_asm prod.split_asm option.split_asm)
  then show ?thesis using lpush_pushed by auto
qed

lemma timer_pushed:
  assumes "Underlying (rd_client drv) = Some R" "redis_timer_fire drv i now s = Some s'"
  shows "list_pushed (lists (rs_server s) (rd_queueKey drv)) (lists (rs_server s') (rd_queueKey drv))"
  using assms lpush_pushed [OF prod.collapse [symmetric]]
  by (auto simp: redis_timer_fire_def rdb_def split: if_splits)

lemma handle_pushed:
  assumes "Underlying (rd_client drv) = Some R" "redis_handle enc dec drv uuid now t s = (s', x)"
  shows "list_pushed (lists (rs_server s) (rd_queueKey drv)) (lists (rs_server s') (rd_queueKey drv))"
proof -
  have "rs_server s' = rs_server s \<or> (\<exists>name p delay s1.
      rs_server s1 = rs_server s \<and>
      s' = fst (redis_DispatchDelayed (\<lambda>_::unit. Inr []) enc drv Background name p delay uuid now s1))"
    using assms(2)
    by (auto simp: redis_handle_def redis_process_def Let_def
        split: sum.split_asm prod.split_asm outcome.split_asm option.split_asm if_split_asm)
       (metis redis_state.select_convs(1) redis_state.surjective redis_state.update_convs(3))+
  then show ?thesis
    using dispatch_pushed [OF assms(1) prod.collapse [symmetric]] by (metis list_pushed_simps(1))
qed

text \<open>What a pop hands over was the last of the list; without an answer it may still be gone.\<close>

lemma pop_some:
  assumes "Underlying (rd_client drv) = Some R" "redis_pop drv d = (d', Some t)"
  shows "lists d (rd_queueKey drv) \<noteq> [] \<and> t = last (lists d (rd_queueKey drv)) \<and>
    lists d' (rd_queueKey drv) = butlast (lists d (rd_queueKey drv))"
  using assms brpop_ok [of d "rd_queueKey drv" d']
  by (auto simp: redis_pop_def rdb_def split: prod.splits sum.splits if_splits)

lemma pop_none:
  assumes "Underlying (rd_client drv) = Some R" "redis_pop drv d = (d', None)"
  shows "lists d' (rd_queueKey drv) = lists d (rd_queueKey drv) \<or>
    lists d' (rd_queueKey drv) = butlast (lists d (rd_queueKey drv))"
  using assms brpop_ok [of d "rd_queueKey drv" d'] brpop_err [of d "rd_queueKey drv" d']
  by (auto simp: redis_pop_def rdb_def split: prod.splits sum.splits if_splits)

lemma redis_inv_popped:
  assumes inv: "redis_inv lists s" and R: "Underlying (rd_client (rw_driver s)) = Some R"
    and pop: "redis_worker_pop lists w s = Some t"
  shows "redis_inv lists t"
proof -
  let ?d = "rs_server (rw_state s)" and ?k = "rd_queueKey (rw_driver s)" and ?ws = "rw_workers s"
  have at: "w < length ?ws" "?ws ! w = AtPop" using pop by (auto simp: redis_worker_pop_def split: if_splits)
  have idle: "redis_held [AtPop] = {#}" "redis_held [AtSelect] = {#}" "redis_held [HasMessage x] = {#x#}" for x
    by (simp_all add: redis_held_def)
  obtain d' r where dr: "redis_pop (rw_driver s) ?d = (d', r)" by (cases "redis_pop (rw_driver s) ?d")
  show ?thesis
  proof (cases r)
    case None
    let ?s = "s\<lparr>rw_workers := ?ws[w := AtSelect]\<rparr>" and ?st = "(rw_state s)\<lparr>rs_server := d'\<rparr>"
    have t: "t = redis_commit lists ?st ?s" using pop at dr None by (simp add: redis_worker_pop_def)
    have held: "redis_inv lists ?s"
      using redis_inv_frame [OF inv same_queue_simps(1), of "?ws[w := AtSelect]"] redis_held_upd [OF at(1)] idle at(2)
      by simp
    from pop_none [OF R dr [unfolded None]] show ?thesis
    proof
      assume "lists d' ?k = lists ?d ?k"
      then show ?thesis unfolding t by (intro redis_inv_pushed [OF held]) (simp add: queue_list_def)
    next
      assume "lists d' ?k = butlast (lists ?d ?k)"
      then have "lists (rs_server ?st) (rd_queueKey (rw_driver ?s)) = butlast (queue_list lists ?s)"
        by (simp add: queue_list_def)
      from commit_popped [of lists, OF this] held show ?thesis
        unfolding t redis_inv_def by (simp add: list_emb_prefix)
    qed
  next
    case (Some x)
    let ?s = "s\<lparr>rw_workers := ?ws[w := HasMessage x], rw_taken := rw_taken s @ [x]\<rparr>"
      and ?st = "(rw_state s)\<lparr>rs_server := d'\<rparr>"
    have t: "t = redis_commit lists ?st ?s" using pop at dr Some by (simp add: redis_worker_pop_def)
    from pop_some [OF R dr [unfolded Some]]
    have l: "queue_list lists ?s \<noteq> []" "x = last (queue_list lists ?s)"
      "lists (rs_server ?st) (rd_queueKey (rw_driver ?s)) = butlast (queue_list lists ?s)"
      by (simp_all add: queue_list_def)
    have "rw_arrived ?s = rw_gone ?s @ rev (queue_list lists ?s)" using inv by (simp add: redis_inv_def queue_list_def)
    with commit_popped [of lists, OF l(3)] l(1,2) inv show ?thesis
      unfolding t redis_inv_def by (simp add: redis_held_upd [OF at(1)] at(2) idle)
  qed
qed

lemma redis_inv_finish:
  assumes inv: "redis_inv lists s" and R: "Underlying (rd_client (rw_driver s)) = Some R"
    and fin: "redis_worker_finish enc dec lists uuid w s = Some t"
  shows "redis_inv lists t"
proof -
  let ?ws = "rw_workers s"
  obtain x where at: "w < length ?ws" "?ws ! w = HasMessage x"
    using fin by (auto simp: redis_worker_finish_def split: if_splits redis_worker.splits)
  show ?thesis
  proof (cases "redis_handle enc dec (rw_driver s) uuid (rw_now s) x (rw_state s)")
    case (Pair st x')
    note pushed = handle_pushed [OF R Pair]
    show ?thesis
    proof (cases x')
      case (Panic m)
      have "t = (redis_commit lists st s)\<lparr>rw_crashed := True\<rparr>"
        using fin at Pair Panic by (simp add: redis_worker_finish_def)
      then show ?thesis
        using redis_inv_pushed [OF inv, of st] pushed by (simp add: redis_inv_crash queue_list_def)
    next
      case (Ret u)
      let ?s = "s\<lparr>rw_workers := ?ws[w := AtSelect], rw_settled := rw_settled s @ [x]\<rparr>"
      have t: "t = redis_commit lists st ?s" using fin at Pair Ret by (simp add: redis_worker_finish_def)
      have "redis_inv lists ?s"
        using inv redis_held_upd [OF at(1)] by (simp add: redis_inv_def queue_list_def at(2) redis_held_def)
      then show ?thesis
        unfolding t using pushed by (intro redis_inv_pushed) (simp_all add: queue_list_def)
    qed
  qed
qed

lemma redis_step_inv:
  assumes "redis_step R lists marshal enc dec s t" "redis_inv lists s" "Underlying (rd_client (rw_driver s)) = Some R"
  shows "redis_inv lists t \<and> same_queue (rw_driver s) (rw_driver t)"
  using assms
proof (cases rule: redis_step.cases)
  case (dispatch ctx name p delay uuid st e)
  then show ?thesis using dispatch_pushed [OF assms(3) dispatch(3)] assms(2)
    by (auto intro!: redis_inv_pushed simp: queue_list_def)
next
  case (timer_fire i st)
  then show ?thesis using timer_pushed [OF assms(3) timer_fire(3)] assms(2)
    by (auto intro!: redis_inv_pushed simp: queue_list_def)
next
  case (timer_quit i st)
  then show ?thesis using assms(2)
    by (auto intro!: redis_inv_pushed simp: queue_list_def redis_timer_quit_def split: if_splits)
next
  case (register name h)
  then show ?thesis using redis_inv_frame [OF assms(2) same_queue_simps(2) refl] by simp
next
  case start
  then show ?thesis using redis_inv_start [OF assms(2)] by (simp add: redis_sys_start_def Let_def)
next
  case stop
  then show ?thesis using redis_inv_stop [OF assms(2)]
    by (auto simp: redis_sys_stop_def split: outcome.splits)
next
  case (worker_select w)
  then show ?thesis using redis_inv_select [OF assms(2)]
    by (auto simp: redis_worker_select_def split: if_splits)
next
  case (worker_pop w)
  then show ?thesis using redis_inv_popped [OF assms(2,3)]
    by (auto simp: redis_worker_pop_def split: if_splits prod.splits option.splits)
next
  case (worker_finish uuid w)
  then show ?thesis using redis_inv_finish [OF assms(2,3)]
    by (auto simp: redis_worker_finish_def split: if_splits redis_worker.splits prod.splits outcome.splits)
next
  case (push msg d' e)
  then show ?thesis using lpush_pushed [OF push(2)] assms(2)
    by (auto intro!: redis_inv_pushed simp: queue_list_def)
next
  case (other d')
  then show ?thesis using assms(2) by (auto intro!: redis_inv_pushed simp: queue_list_def)
next
  case (tick dt)
  then show ?thesis using assms(2) by (simp add: redis_inv_def queue_list_def)
qed

lemma redis_reach_inv:
  assumes "redis_reach R lists marshal enc dec s0 s" "redis_inv lists s0" "Underlying (rd_client (rw_driver s0)) = Some R"
  shows "redis_inv lists s \<and> same_queue (rw_driver s0) (rw_driver s)"
  using assms(1)
proof (induction rule: redis_reach.induct)
  case (redis_next s t)
  then have "Underlying (rd_client (rw_driver s)) = Some R" using assms(3) by (simp add: same_queue_def)
  from redis_step_inv [OF redis_next.hyps(2) redis_next.IH [THEN conjunct1] this] redis_next.IH
  show ?case using same_queue_trans by blast
qed (use assms in simp)

end

text \<open>On a server whose commands succeed a text that leaves the list is handed to a worker.\<close>


context reliable_redis_server
begin

lemma pop_none_empty:
  assumes "Underlying (rd_client drv) = Some R" "redis_pop drv d = (d', None)"
  shows "lists d (rd_queueKey drv) = []"
proof (rule ccontr)
  assume "lists d (rd_queueKey drv) \<noteq> []"
  then obtain d1 res where "ro_BRPop R d (rd_queueKey drv) = (d1, Inr res)" using brpop_up by blast
  with brpop_ok [OF this] assms show False by (auto simp: redis_pop_def rdb_def)
qed

lemma redis_pop_taken:
  assumes R: "Underlying (rd_client (rw_driver s)) = Some R" and eq: "rw_taken s = rw_gone s"
    and pop: "redis_worker_pop lists w s = Some t"
  shows "rw_taken t = rw_gone t"
proof -
  obtain d' r where dr: "redis_pop (rw_driver s) (rs_server (rw_state s)) = (d', r)"
    by (cases "redis_pop (rw_driver s) (rs_server (rw_state s))")
  show ?thesis
  proof (cases r)
    case None
    with pop_none_empty [OF R dr [unfolded None]] pop dr eq show ?thesis
      by (auto simp: redis_worker_pop_def redis_commit_def Let_def split: if_splits)
  next
    case (Some x)
    let ?s = "s\<lparr>rw_workers := (rw_workers s)[w := HasMessage x], rw_taken := rw_taken s @ [x]\<rparr>"
    from pop dr Some have t: "t = redis_commit lists ((rw_state s)\<lparr>rs_server := d'\<rparr>) ?s"
      by (auto simp: redis_worker_pop_def split: if_splits)
    note p = pop_some [OF R dr [unfolded Some]]
    then have "lists d' (rd_queueKey (rw_driver ?s)) = butlast (queue_list lists ?s)" by (simp add: queue_list_def)
    from commit_popped(1) [of lists "(rw_state s)\<lparr>rs_server := d'\<rparr>", simplified, OF this] p eq show ?thesis
      unfolding t by (simp add: queue_list_def)
  qed
qed

lemma redis_step_taken:
  assumes "redis_step R lists marshal enc dec s t" "rw_taken s = rw_gone s" "Underlying (rd_client (rw_driver s)) = Some R"
  shows "rw_taken t = rw_gone t"
  using assms
proof (cases rule: redis_step.cases)
  case (dispatch ctx name p delay uuid st e)
  then show ?thesis using dispatch_pushed [OF assms(3) dispatch(3)] assms(2)
    by (simp add: commit_pushed(1) queue_list_def)
next
  case (timer_fire i st)
  then show ?thesis using timer_pushed [OF assms(3) timer_fire(3)] assms(2)
    by (simp add: commit_pushed(1) queue_list_def)
next
  case (timer_quit i st)
  then show ?thesis using assms(2)
    by (auto simp: redis_commit_def Let_def redis_timer_quit_def split: if_splits)
next
  case stop
  then show ?thesis using assms(2) by (auto simp: redis_sys_stop_def split: outcome.splits)
next
  case (worker_select w)
  then show ?thesis using assms(2) by (auto simp: redis_worker_select_def split: if_splits)
next
  case (worker_pop w)
  then show ?thesis using redis_pop_taken [OF assms(3,2)] by blast
next
  case (worker_finish uuid w)
  then show ?thesis using assms(2) handle_pushed [OF assms(3)]
    by (auto simp: redis_worker_finish_def commit_pushed(1) queue_list_def
        split: if_splits redis_worker.splits prod.splits outcome.splits)
next
  case (push msg d' e)
  then show ?thesis using lpush_pushed [OF push(2)] assms(2) by (simp add: commit_pushed(1) queue_list_def)
qed (simp_all add: redis_sys_start_def redis_commit_def Let_def)

lemma redis_reach_taken:
  assumes "redis_reach R lists marshal enc dec s0 s" "redis_inv lists s0" "rw_taken s0 = rw_gone s0"
    and "Underlying (rd_client (rw_driver s0)) = Some R"
  shows "rw_taken s = rw_gone s"
  using assms(1)
proof (induction rule: redis_reach.induct)
  case (redis_next s t)
  have "Underlying (rd_client (rw_driver s)) = Some R"
    using redis_reach_inv [OF redis_next.hyps(1) assms(2,4)] assms(4) by (simp add: same_queue_def)
  from redis_step_taken [OF redis_next.hyps(2) redis_next.IH this] show ?case .
qed (use assms in simp)

end

section \<open>The queue is first in, first out, and hands out each message once\<close>

text \<open>
  C20. The Redis queue under every interleaving of dispatchers, retries that come due, other processes
  that push to the same list, workers, \<open>Start\<close> and \<open>Stop\<close>, on a server where a command that fails may
  have been carried out or not. The texts in the list are those that arrived and have not left, in the
  order they arrived. What workers are handed is, in this order and no text twice, among what left. Each
  handed text is settled or in the hands of one worker, so a panic of a handler, which ends the process, loses
  just those. Where the commands succeed, all that leaves the list is handed to a worker.
\<close>

theorem redis_workers_take_in_order:
  assumes server: "redis_server R strs lsts" and client: "Underlying (rd_client drv) = Some R"
    and empty: "lsts (rs_server st) (rd_queueKey drv) = []"
    and reach: "redis_reach R lsts marshal enc dec (redis_boot drv now st) s"
  shows "rw_arrived s = rw_gone s @ rev (lsts (rs_server (rw_state s)) (rd_queueKey drv)) \<and>
    subseq (rw_taken s) (rw_gone s) \<and>
    mset (rw_taken s) = mset (rw_settled s) + redis_held (rw_workers s) \<and>
    (reliable_redis_server R strs lsts \<longrightarrow> rw_taken s = rw_gone s)"
proof -
  let ?s0 = "redis_boot drv now st"
  have start: "redis_inv lsts ?s0" "Underlying (rd_client (rw_driver ?s0)) = Some R"
    using empty client by (simp_all add: redis_inv_def queue_list_def)
  have "rw_taken s = rw_gone s" if "reliable_redis_server R strs lsts"
    using reliable_redis_server.redis_reach_taken [OF that reach start(1) _ start(2)] by simp
  with redis_server.redis_reach_inv [OF server reach start] show ?thesis
    by (simp add: redis_inv_def queue_list_def same_queue_def)
qed

text \<open>Two messages, pushed by another process; the second worker takes the first of them.\<close>

definition two_workers :: "(mem_server, nat) redis_driver" where
  "two_workers = NewRedisDriver (Some \<lparr>rc_rdb = Some mem_redis, rc_enabled = True\<rparr>)
     \<lparr>rdc_QueueName = [], rdc_Concurrency = 2, rdc_MaxAttempts = 3\<rparr> (Some counting_registry)"

lemma mem_lpush: "ro_LPush mem_redis d k v = (d\<lparr>mrs_lists := (mrs_lists d)(k := v # mrs_lists d k)\<rparr>, None)"
  by (simp add: mem_redis_def)

lemma mem_brpop:
  "ro_BRPop mem_redis d k =
    (if mrs_lists d k = [] then (d, Inl RedisNil)
     else (d\<lparr>mrs_lists := (mrs_lists d)(k := butlast (mrs_lists d k))\<rparr>, Inr [k, last (mrs_lists d k)]))"
  by (simp add: mem_redis_def)

definition two_started :: "(mem_server, nat) redis_driver" where
  "two_started = fst (redis_Start two_workers)"

text \<open>A state of this system: the list, the workers, and what was observed.\<close>

definition two_system ::
  "string list \<Rightarrow> redis_worker list \<Rightarrow> string list \<Rightarrow> string list \<Rightarrow> (mem_server, nat) redis_system" where
  "two_system q ws arrived taken =
     \<lparr>rw_driver = two_started,
      rw_state = \<lparr>rs_server = \<lparr>mrs_strs = Map.empty, mrs_lists = (\<lambda>_. [])(''queue:default'' := q)\<rparr>,
                  rs_delayed = [], rs_world = 0\<rparr>,
      rw_workers = ws, rw_now = 0, rw_crashed = False, rw_arrived = arrived, rw_gone = taken, rw_taken = taken,
      rw_settled = []\<rparr>"

abbreviation two_step :: "(mem_server, nat) redis_system \<Rightarrow> (mem_server, nat) redis_system \<Rightarrow> bool" where
  "two_step \<equiv> redis_step mem_redis mrs_lists (\<lambda>_ :: unit. Inr []) enc_redis_message dec_redis_message"

abbreviation two_boot :: "(mem_server, nat) redis_system" where
  "two_boot \<equiv> redis_boot two_workers 0 \<lparr>rs_server = mem_server_empty, rs_delayed = [], rs_world = 0\<rparr>"

lemma two_simps:
  "rd_client two_workers = Some \<lparr>rc_rdb = Some mem_redis, rc_enabled = True\<rparr>" "rd_concurrency two_workers = 2"
  "\<not> rd_running two_workers" "rd_queueKey two_workers = ''queue:default''"
  "rd_client two_started = Some \<lparr>rc_rdb = Some mem_redis, rc_enabled = True\<rparr>" "\<not> rd_quit two_started"
  "rd_queueKey two_started = ''queue:default''"
  by (simp_all add: two_workers_def two_started_def redis_Start_def NewRedisDriver_def)

lemma two_start: "two_step two_boot (two_system [] [AtSelect, AtSelect] [] [])"
proof -
  have "redis_sys_start two_boot = two_system [] [AtSelect, AtSelect] [] []"
    by (simp add: redis_sys_start_def redis_boot_def two_system_def two_started_def two_simps numeral_2_eq_2
        mem_server_empty_def fun_eq_iff)
  then show ?thesis
    using redis_step.start [of two_boot mem_redis mrs_lists] by (simp add: redis_boot_def)
qed

lemma two_push: "two_step (two_system q ws arrived taken) (two_system (v # q) ws (arrived @ [v]) taken)"
proof -
  let ?s = "two_system q ws arrived taken"
  let ?d = "fst (ro_LPush mem_redis (rs_server (rw_state ?s)) ''queue:default'' v)"
  have "two_step ?s (redis_commit mrs_lists ((rw_state ?s)\<lparr>rs_server := ?d\<rparr>) ?s)"
    by (rule redis_step.push [where msg = v]) (simp add: two_system_def two_simps prod_eq_iff)
  then show ?thesis by (simp add: two_system_def two_simps redis_commit_def mem_lpush Let_def)
qed

lemma two_select:
  "w < length ws \<Longrightarrow> ws ! w = AtSelect \<Longrightarrow>
   two_step (two_system q ws arrived taken) (two_system q (ws[w := AtPop]) arrived taken)"
  by (intro redis_step.worker_select [where w = w])
    (simp_all add: two_system_def two_simps redis_worker_select_def IsEnabled_def)

lemma two_pop:
  "w < length ws \<Longrightarrow> ws ! w = AtPop \<Longrightarrow> q \<noteq> [] \<Longrightarrow>
   two_step (two_system q ws arrived taken)
     (two_system (butlast q) (ws[w := HasMessage (last q)]) arrived (taken @ [last q]))"
  by (intro redis_step.worker_pop [where w = w], simp add: two_system_def)
    (cases q rule: rev_cases; simp add: two_system_def two_simps redis_worker_pop_def redis_pop_def rdb_def
      Underlying_def mem_brpop redis_commit_def Let_def)

theorem redis_workers_take_in_order_witness:
  "\<exists>s. redis_reach mem_redis mrs_lists (\<lambda>_ :: unit. Inr []) enc_redis_message dec_redis_message two_boot s \<and>
    rw_workers s = [HasMessage ''b'', HasMessage ''a''] \<and> rw_taken s = [''a'', ''b''] \<and> rw_taken s = rw_gone s \<and>
    mset (rw_taken s) = mset (rw_settled s) + redis_held (rw_workers s)"
proof -
  let ?s = "two_system [] [HasMessage ''b'', HasMessage ''a''] [''a'', ''b''] [''a'', ''b'']"
  note next_step = redis_reach.redis_next [where R = mem_redis and lsts = mrs_lists]
  note r = next_step [OF redis_reach.redis_init two_start]
  note r = next_step [OF next_step [OF r two_push [where v = "''a''"]] two_push [where v = "''b''"]]
  note r = next_step [OF next_step [OF r two_select [where w = 0]] two_select [where w = 1], simplified]
  note r = next_step [OF next_step [OF r two_pop [where w = 1]] two_pop [where w = 0], simplified]
  have client: "Underlying (rd_client two_workers) = Some mem_redis" by (simp add: two_simps Underlying_def)
  have empty: "mrs_lists (rs_server \<lparr>rs_server = mem_server_empty, rs_delayed = [], rs_world = 0 :: nat\<rparr>)
      (rd_queueKey two_workers) = []" by (simp add: mem_server_empty_def)
  note all = redis_workers_take_in_order [OF mem_redis.redis_server_axioms client empty r]
  have "rw_taken ?s = rw_gone ?s" "mset (rw_taken ?s) = mset (rw_settled ?s) + redis_held (rw_workers ?s)"
    using all mem_redis.reliable_redis_server_axioms by blast+
  then show ?thesis using r by (intro exI [of _ ?s]) (simp add: two_system_def)
qed

end
