(* ===== verification/Job_Life.thy ===== *)
theory Job_Life
  imports Database_Workers
begin

text \<open>
  The life of a row of \<open>jobs\<close> under all workers and clients of \<open>pkg/queue/driver_database.go\<close>, as an
  abstract state machine of one row, \<open>row_step\<close>: it is queued, claimed, claimed again when its
  worker died, and then removed, queued again or given up. Every step of the machine of
  \<open>Database_Workers\<close> is, for every row, a step of this machine or none.

  Lemmas: the simulation; what never changes during the life of a row.
\<close>

section \<open>The abstract row\<close>

definition same_job :: "job_record \<Rightarrow> job_record \<Rightarrow> bool" where
  "same_job r r' \<longleftrightarrow>
     job_ID r' = job_ID r \<and> job_Queue r' = job_Queue r \<and> job_Name r' = job_Name r \<and>
     job_Payload r' = job_Payload r \<and> job_MaxAttempts r' = job_MaxAttempts r \<and>
     job_CreatedAt r' = job_CreatedAt r"

inductive row_step :: "job_record option \<Rightarrow> job_record option \<Rightarrow> bool" where
  row_queued: "job_Status r = ''pending'' \<Longrightarrow> job_Attempts r = 0 \<Longrightarrow> job_ReservedAt r = None \<Longrightarrow>
    row_step None (Some r)"
| row_claimed: "job_Status r = ''pending'' \<Longrightarrow> same_job r r' \<Longrightarrow> job_Status r' = ''processing'' \<Longrightarrow>
    job_Attempts r' = wrap64 (job_Attempts r + 1) \<Longrightarrow> job_ReservedAt r' = Some t \<Longrightarrow> job_AvailableAt r \<le> t \<Longrightarrow>
    row_step (Some r) (Some r')"
| row_reclaimed: "job_Status r = ''processing'' \<Longrightarrow> same_job r r' \<Longrightarrow> job_Status r' = ''processing'' \<Longrightarrow>
    job_Attempts r' = wrap64 (job_Attempts r + 1) \<Longrightarrow> job_ReservedAt r = Some t \<Longrightarrow>
    job_ReservedAt r' = Some t' \<Longrightarrow> t + 10 * minute < t' \<Longrightarrow> row_step (Some r) (Some r')"
| row_completed: "job_Status r = ''processing'' \<Longrightarrow> row_step (Some r) None"
| row_retried: "job_Status r = ''processing'' \<Longrightarrow> same_job r r' \<Longrightarrow> job_Attempts r < job_MaxAttempts r \<Longrightarrow>
    job_Status r' = ''pending'' \<Longrightarrow> job_Attempts r' = job_Attempts r \<Longrightarrow> job_ReservedAt r' = None \<Longrightarrow>
    row_step (Some r) (Some r')"
| row_given_up: "job_Status r = ''processing'' \<Longrightarrow> same_job r r' \<Longrightarrow> job_MaxAttempts r \<le> job_Attempts r \<Longrightarrow>
    job_Status r' = ''failed'' \<Longrightarrow> job_Attempts r' = job_Attempts r \<Longrightarrow> row_step (Some r) (Some r')"

inductive_cases row_step_SomeE: "row_step (Some r) x"

lemma failed_row_stays: "row_step (Some r) x \<Longrightarrow> job_Status r \<noteq> ''failed''"
  by (auto elim: row_step_SomeE)

lemma failed_row_forever:
  assumes "row_step\<^sup>*\<^sup>* x y" "x = Some r" "job_Status r = ''failed''"
  shows "y = Some r"
  using assms by (induction rule: rtranclp_induct) (auto dest: failed_row_stays)

lemma reserve_step:
  assumes "eligible q now r"
  shows "row_step (Some r) (Some (reserve now r))"
proof -
  have same: "same_job r (reserve now r)" by (simp add: same_job_def reserve_def)
  show ?thesis
    using assms unfolding eligible_def
    by (auto split: option.splits
        intro: row_claimed [OF _ same] row_reclaimed [OF _ same])
qed

section \<open>The simulation\<close>

context job_store
begin

lemma claim_row_steps:
  assumes "claim D q now d = (d', Inr job)"
  shows "table d' i = table d i \<or> row_step (table d i) (table d' i)"
  using assms by (rule claim_okE) (auto intro: reserve_step)

lemma dispatch_row_steps:
  assumes "database_DispatchDelayed D marshal drv ctx name p delay now d = (d', r)"
  shows "table d' i = table d i \<or> row_step (table d i) (table d' i)"
  using dispatch_table [OF assms]
proof (elim disjE exE conjE)
  fix raw k
  let ?r = "(new_job_record drv name raw delay now)\<lparr>job_ID := k\<rparr>"
  assume "table d k = None" "table d' = (table d)(k \<mapsto> ?r)"
  moreover have "row_step None (Some ?r)" by (rule row_queued) (simp_all add: new_job_record_def)
  ultimately show ?thesis by simp
qed simp

lemma settle_row_steps:
  assumes st: "settle D now d job execErr = Ret d'"
    and held: "table d (job_ID job) = Some job" "job_Status job = ''processing''"
  shows "table d' i = table d i \<or> row_step (table d i) (table d' i)"
  using settle_cases [OF st]
proof (elim disjE exE conjE)
  assume "table d' = (table d)(job_ID job := None)"
  with held row_completed [of job] show ?thesis by simp
next
  fix e delay
  let ?r = "retry_fields (now + delay) e now job"
  assume "job_Attempts job < job_MaxAttempts job"
  moreover have "same_job job ?r" by (simp add: same_job_def retry_fields_def)
  ultimately have "row_step (Some job) (Some ?r)" using held(2) by (intro row_retried) simp_all
  moreover assume "table d' = (table d)(job_ID job := map_option (retry_fields (now + delay) e now) (table d (job_ID job)))"
  ultimately show ?thesis by (simp add: held(1))
next
  fix e
  let ?r = "failed_fields e now job"
  assume "\<not> job_Attempts job < job_MaxAttempts job"
  moreover have "same_job job ?r" by (simp add: same_job_def failed_fields_def)
  ultimately have "row_step (Some job) (Some ?r)" using held(2) by (intro row_given_up) simp_all
  moreover assume "table d' = (table d)(job_ID job := map_option (failed_fields e now) (table d (job_ID job)))"
  ultimately show ?thesis by (simp add: held(1))
qed simp

lemma cluster_step_rows:
  assumes step: "cluster_step D marshal drv limit s t" and inv: "cluster_inv table limit s"
  shows "table (cl_store t) i = table (cl_store s) i \<or> row_step (table (cl_store s) i) (table (cl_store t) i)"
  using step
proof cases
  case (claim w d' job)
  with claim_row_steps show ?thesis by simp
next
  case (settle w job execErr d')
  from cluster_inv_holds [OF inv settle(2)]
  have "table (cl_store s) (job_ID job) = Some job" "job_Status job = ''processing''"
    by (simp_all add: holds_row_def)
  with settle_row_steps [OF settle(3)] settle(1) show ?thesis by simp
next
  case (dispatch ctx name p delay d' r)
  with dispatch_row_steps show ?thesis by simp
qed simp_all

lemma cluster_reach_rows:
  assumes "cluster_reach D marshal drv limit s0 s" "cluster_inv table limit s0" "0 \<le> limit" "limit \<le> 10 * minute"
  shows "row_step\<^sup>*\<^sup>* (table (cl_store s0) i) (table (cl_store s) i)"
  using assms(1)
proof induction
  case (step s t)
  from cluster_step_rows [OF step(2) cluster_reach_inv [OF step(1) assms(2-4)], of i] step.IH
  show ?case by (auto intro: rtranclp.rtrancl_into_rtrancl)
qed simp

end

section \<open>The life of a row\<close>

text \<open>
  C4. The table of jobs refines the abstract row. Whatever the workers and clients do, in whatever
  order, with claims that are serialised, handlers that end within ten minutes, workers that crash
  at any point and writes that fail: every row goes through the steps of \<open>row_step\<close> only. So a
  row is queued pending and untried; it is claimed when it is due; it is claimed again only
  more than ten minutes after its reservation; only a row being processed is removed, queued again
  (with attempts left) or given up (with none left); its payload and limit never change while it exists;
  and a row that was given up stays exactly as it is.
\<close>

theorem rows_follow_life_cycle:
  assumes store: "job_store D table" and limit: "0 \<le> limit" "limit \<le> 10 * minute"
    and reach: "cluster_reach D marshal drv limit (cluster_init now d) s"
  shows "row_step\<^sup>*\<^sup>* (table d i) (table (cl_store s) i) \<and>
    (\<forall>t. cluster_step D marshal drv limit s t \<longrightarrow>
       table (cl_store t) i = table (cl_store s) i \<or> row_step (table (cl_store s) i) (table (cl_store t) i)) \<and>
    (\<forall>r. table d i = Some r \<and> job_Status r = ''failed'' \<longrightarrow> table (cl_store s) i = Some r)"
proof -
  note inv = cluster_inv_init [of table limit now d]
  have steps: "row_step\<^sup>*\<^sup>* (table d i) (table (cl_store s) i)"
    using job_store.cluster_reach_rows [OF store reach inv limit] by (simp add: cluster_init_def)
  moreover have "table (cl_store t) i = table (cl_store s) i \<or>
      row_step (table (cl_store s) i) (table (cl_store t) i)" if "cluster_step D marshal drv limit s t" for t
    by (rule job_store.cluster_step_rows [OF store that job_store.cluster_reach_inv [OF store reach inv limit]])
  ultimately show ?thesis using failed_row_forever [OF steps] by blast
qed

theorem rows_follow_life_cycle_witness:
  "\<exists>s. cluster_reach mem_job_db sample_marshal sample_driver minute (cluster_init 120 bad_store) s \<and>
     mem_rows bad_store 1 \<noteq> mem_rows (cl_store s) 1 \<and>
     row_step\<^sup>*\<^sup>* (mem_rows bad_store 1) (mem_rows (cl_store s) 1)"
proof -
  let ?j = "reserve 120 ((sample_job ''bad'' 100)\<lparr>job_ID := 1\<rparr>)"
  obtain d' where c: "claim mem_job_db (dd_queueName sample_driver) 120 bad_store = (d', Inr ?j)"
    "mem_rows d' = [1 \<mapsto> ?j]" using claim_bad_store by blast
  let ?start = "cluster_init 120 bad_store"
  let ?new = "?start\<lparr>cl_store := d', cl_busy := (cl_busy ?start)(0 \<mapsto> ?j)\<rparr>"
  have "cluster_step mem_job_db sample_marshal sample_driver minute ?start ?new"
    by (rule cluster_step.claim) (simp_all add: cluster_init_def c)
  note reach = cluster_reach.step [OF cluster_reach.init this]
  have lim: "0 \<le> minute" "minute \<le> 10 * minute" by (simp_all add: minute_def second_def)
  have "job_Status (the (mem_rows bad_store 1)) \<noteq> job_Status (the (mem_rows d' 1))"
    by (simp add: bad_store_rows c)
  then have "mem_rows bad_store 1 \<noteq> mem_rows (cl_store ?new) 1" by auto
  with reach rows_follow_life_cycle [OF mem.job_store_axioms lim reach, of 1] show ?thesis by blast
qed

end
