(* ===== verification/Job_Progress.thy ===== *)
theory Job_Progress
  imports Dispatched_Job
begin

text \<open>
  No job starves in the database queue: a worker that keeps polling comes to every due row. Each turn
  takes a row with an earlier key, and that row does not come back before the due one: it is
  removed, given up, or put off by a positive retry delay.
\<close>

section \<open>The rows ahead of a job\<close>

definition ahead :: "(nat \<rightharpoonup> job_record) \<Rightarrow> job_record \<Rightarrow> nat set" where
  "ahead t j = {i. \<exists>k. t i = Some k \<and> job_Status k \<noteq> ''failed'' \<and> claim_key k < claim_key j}"

text \<open>The table invariant, with limits of at most 33 attempts: there every retry delay is exact and positive.\<close>

definition delays_positive :: "int \<Rightarrow> (nat \<rightharpoonup> job_record) \<Rightarrow> bool" where
  "delays_positive n t \<longleftrightarrow> job_table_ok n t \<and> (\<forall>i k. t i = Some k \<longrightarrow> job_MaxAttempts k \<le> 33)"

lemma ahead_finite: "finite (dom t) \<Longrightarrow> finite (ahead t j)"
  by (rule finite_subset [of _ "dom t"]) (auto simp: ahead_def)

lemma retry_delay_positive:
  assumes "1 \<le> a" "a \<le> 32"
  shows "0 < the (retry_delay a)"
  using retry_delay_exact [OF assms] by (simp add: second_def)

context reliable_job_store
begin

text \<open>
  A claimed row, settled, is no longer ahead of a row that was due at the claim, and its limit is kept.
\<close>

lemma settled_behind:
  assumes st: "settle D now2 d1 (reserve now1 j0) res = Ret d'"
    and d1: "table d1 = (table d)(job_ID j0 \<mapsto> reserve now1 j0)" "table d (job_ID j0) = Some j0"
    and a: "0 \<le> job_Attempts j0" "wrap64 (job_Attempts j0 + 1) = job_Attempts j0 + 1"
    and max: "\<forall>i k. table d i = Some k \<longrightarrow> job_MaxAttempts k \<le> 33"
    and due: "job_AvailableAt j \<le> now1" "now1 \<le> now2"
  shows "job_ID j0 \<notin> ahead (table d') j" "k \<noteq> job_ID j0 \<Longrightarrow> table d' k = table d k"
    "\<forall>i k. table d' i = Some k \<longrightarrow> job_MaxAttempts k \<le> 33"
proof -
  have m0: "job_MaxAttempts j0 \<le> 33" using max d1(2) by blast
  show "job_ID j0 \<notin> ahead (table d') j"
    using settle_table [OF st] retry_delay_positive [of "job_Attempts j0 + 1"] a m0 due
    by (auto simp: ahead_def d1 claim_key_def less_prod_def split: option.splits if_splits)
  show "table d' k = table d k" if "k \<noteq> job_ID j0"
    using settle_table [OF st] that by (auto simp: d1 split: option.splits if_splits)
  show "\<forall>i k. table d' i = Some k \<longrightarrow> job_MaxAttempts k \<le> 33"
    using settle_table [OF st] m0 max by (auto simp: d1 split: option.splits if_splits)
qed

text \<open>One turn with the row \<open>j\<close> due: it claims \<open>j\<close>, or the rows ahead of \<open>j\<close> become fewer.\<close>

lemma turn_progress:
  assumes j: "table d i = Some j" and el: "eligible (dd_queueName drv) now1 j" and av: "job_AvailableAt j \<le> now1"
    and times: "now1 \<le> now2" and ok: "delays_positive n (table d)" and n: "n < max_int64"
    and calm: "no_panics (dd_registry drv)"
  shows "(\<exists>d1. claim D (dd_queueName drv) now1 d = (d1, Inr (reserve now1 j))) \<or>
    (\<exists>d' w' e. processNextJob D drv now1 now2 (d, w) = ((d', w'), Ret (True, e)) \<and> table d' i = Some j \<and>
       delays_positive (n + 1) (table d') \<and> ahead (table d') j \<subset> ahead (table d) j)"
proof -
  obtain d1 k where c: "claim D (dd_queueName drv) now1 d = (d1, Inr k)" by (rule claim_due [OF j el])
  then obtain j0 where cl: "claim D (dd_queueName drv) now1 d = (d1, Inr (reserve now1 j0))"
    "table d (job_ID j0) = Some j0" "eligible (dd_queueName drv) now1 j0" "claim_key j0 \<le> claim_key j"
    "table d1 = (table d)(job_ID j0 \<mapsto> reserve now1 j0)"
    by (rule claim_okE) (use that c j el in blast)
  show ?thesis
  proof (cases "j0 = j")
    case True
    with cl(1) show ?thesis by blast
  next
    case False
    have other: "job_ID j0 \<noteq> i" using cl(2) j False by auto
    then have less: "claim_key j0 < claim_key j"
      using cl(4) table_key [OF j] by (auto simp: claim_key_def less_prod_def)
    have max: "\<forall>i k. table d i = Some k \<longrightarrow> job_MaxAttempts k \<le> 33" using ok by (simp add: delays_positive_def)
    have a: "0 \<le> job_Attempts j0" "job_Attempts j0 \<le> n"
      using ok cl(2) by (auto simp: delays_positive_def job_table_ok_def job_ok_def)
    then have wr: "wrap64 (job_Attempts j0 + 1) = job_Attempts j0 + 1"
      using n by (intro wrap64_id) (auto simp: max_int64_def)
    obtain w' res where "ExecuteJob job_context (dd_registry drv) (job_Name j0) (job_Payload j0) w = (w', Ret res)"
      using no_panicsD [OF calm] by blast
    with a wr obtain d' where st: "settle D now2 d1 (reserve now1 j0) res = Ret d'"
      and run: "processNextJob D drv now1 now2 (d, w) = ((d', w'), Ret (True, None))"
      by (elim claimed_turn [OF cl(1), rotated]) simp_all
    note behind = settled_behind [where j = j, OF st cl(5,2) a(1) wr max av times]
    have kept: "delays_positive (n + 1) (table d')"
      using process_table_ok [OF run _ n] ok behind(3) by (simp add: delays_positive_def)
    have "job_ID j0 \<in> ahead (table d) j" using cl(2,3) less eligible_statusD by (auto simp: ahead_def)
    moreover have "ahead (table d') j \<subseteq> ahead (table d) j"
      using behind(1,2) by (auto simp: ahead_def) metis
    ultimately have "ahead (table d') j \<subset> ahead (table d) j" using behind(1) by blast
    with run behind(2) [of i] other j kept show ?thesis by metis
  qed
qed

text \<open>The turn that claims the job executes it.\<close>

lemma claiming_turn:
  assumes j: "table d i = Some j" and ok: "delays_positive n (table d)" and n: "n < max_int64"
    and calm: "no_panics (dd_registry drv)"
    and cl: "claim D (dd_queueName drv) now1 d = (d1, Inr (reserve now1 j))"
  obtains d' w' res where "processNextJob D drv now1 now2 (d, w) = ((d', w'), Ret (True, None))"
    "ExecuteJob job_context (dd_registry drv) (job_Name j) (job_Payload j) w = (w', Ret res)"
proof -
  have a: "0 \<le> job_Attempts j" "job_Attempts j \<le> n"
    using ok j by (auto simp: delays_positive_def job_table_ok_def job_ok_def)
  then have wr: "0 \<le> wrap64 (job_Attempts j + 1)"
    using n by (subst wrap64_id) (auto simp: max_int64_def)
  obtain w' res where ex: "ExecuteJob job_context (dd_registry drv) (job_Name j) (job_Payload j) w = (w', Ret res)"
    using no_panicsD [OF calm] by blast
  obtain d' where "processNextJob D drv now1 now2 (d, w) = ((d', w'), Ret (True, None))"
    by (rule claimed_turn [OF cl wr ex])
  then show ?thesis using ex by (rule that)
qed

text \<open>As many turns as there are rows ahead of the job, and one more, are enough.\<close>

lemma job_reached:
  assumes "table d i = Some j"
    and "delays_positive n (table d)" "n + int (length ps) \<le> max_int64"
    and "\<forall>p \<in> set ps. \<not> poll_quit p \<and> eligible (dd_queueName drv) (poll_now1 p) j \<and>
      job_AvailableAt j \<le> poll_now1 p \<and> poll_now1 p \<le> poll_now2 p"
    and "card (ahead (table d) j) < length ps" and "no_panics (dd_registry drv)"
  shows "\<exists>ps1 p ps2 d1 w1 d2 w2 res. ps = ps1 @ p # ps2 \<and> length ps1 \<le> card (ahead (table d) j) \<and>
    database_workerLoop D drv ps1 (d, w) = ((d1, w1), length ps1, Ret False) \<and> table d1 i = Some j \<and>
    snd (claim D (dd_queueName drv) (poll_now1 p) d1) = Inr (reserve (poll_now1 p) j) \<and>
    processNextJob D drv (poll_now1 p) (poll_now2 p) (d1, w1) = ((d2, w2), Ret (True, None)) \<and>
    ExecuteJob job_context (dd_registry drv) (job_Name j) (job_Payload j) w1 = (w2, Ret res)"
  using assms
proof (induction ps arbitrary: d w n)
  case (Cons p ps)
  have p: "\<not> poll_quit p" "eligible (dd_queueName drv) (poll_now1 p) j" "job_AvailableAt j \<le> poll_now1 p"
    "poll_now1 p \<le> poll_now2 p" "n < max_int64"
    using Cons.prems(3,4) by auto
  from turn_progress [OF Cons.prems(1) p(2,3,4) Cons.prems(2) p(5) Cons.prems(6), of w] show ?case
  proof (elim disjE exE conjE)
    fix dc assume cl: "claim D (dd_queueName drv) (poll_now1 p) d = (dc, Inr (reserve (poll_now1 p) j))"
    obtain d2 w2 res where "processNextJob D drv (poll_now1 p) (poll_now2 p) (d, w) = ((d2, w2), Ret (True, None))"
      "ExecuteJob job_context (dd_registry drv) (job_Name j) (job_Payload j) w = (w2, Ret res)"
      by (rule claiming_turn [OF Cons.prems(1,2) p(5) Cons.prems(6) cl])
    with Cons.prems(1) cl show ?thesis
      by (intro exI [of _ "[]"] exI [of _ p] exI [of _ ps] exI [of _ d] exI [of _ w]
        exI [of _ d2] exI [of _ w2] exI [of _ res]) simp
  next
    fix d' w' e
    assume turn: "processNextJob D drv (poll_now1 p) (poll_now2 p) (d, w) = ((d', w'), Ret (True, e))"
      and d': "table d' i = Some j" "delays_positive (n + 1) (table d')" "ahead (table d') j \<subset> ahead (table d) j"
    have fewer: "card (ahead (table d') j) < card (ahead (table d) j)"
      by (rule psubset_card_mono [OF ahead_finite [OF table_finite] d'(3)])
    have "n + 1 + int (length ps) \<le> max_int64" "card (ahead (table d') j) < length ps"
      using Cons.prems(3,5) fewer by simp_all
    from Cons.IH [OF d'(1,2) this(1) _ this(2) Cons.prems(6), of w'] Cons.prems(4)
    obtain ps1 q ps2 d1 w1 d2 w2 res where rest: "ps = ps1 @ q # ps2" "length ps1 \<le> card (ahead (table d') j)"
      "database_workerLoop D drv ps1 (d', w') = ((d1, w1), length ps1, Ret False)" "table d1 i = Some j"
      "snd (claim D (dd_queueName drv) (poll_now1 q) d1) = Inr (reserve (poll_now1 q) j)"
      "processNextJob D drv (poll_now1 q) (poll_now2 q) (d1, w1) = ((d2, w2), Ret (True, None))"
      "ExecuteJob job_context (dd_registry drv) (job_Name j) (job_Payload j) w1 = (w2, Ret res)"
      by auto
    have "database_workerLoop D drv (p # ps1) (d, w) = ((d1, w1), length (p # ps1), Ret False)"
      using p(1) turn rest(3) by simp
    with rest fewer show ?thesis
      by (intro exI [of _ "p # ps1"] exI [of _ q] exI [of _ ps2] exI [of _ d1] exI [of _ w1]
        exI [of _ d2] exI [of _ w2] exI [of _ res])
        (simp del: database_workerLoop.simps)
  qed
qed simp

end

section \<open>The property\<close>

text \<open>
  C9. No starvation in the database queue, when the database does not fail and no handler panics: while
  a worker keeps polling, a row that is due, be it pending or reserved by a process that died more than
  ten minutes ago, is claimed and its handler executed in the turn after at most as many turns as there
  are rows ahead of it, even if each of the other handlers fails at every attempt. For this no retry
  delay may have overflowed, which holds for limits of up to 33 attempts.
\<close>

theorem due_job_not_starved:
  assumes "reliable_job_store D table" and "table d i = Some j"
    and "delays_positive n (table d)" and "n + int (length ps) \<le> max_int64"
    and "\<forall>p \<in> set ps. \<not> poll_quit p \<and> eligible (dd_queueName drv) (poll_now1 p) j \<and>
      job_AvailableAt j \<le> poll_now1 p \<and> poll_now1 p \<le> poll_now2 p"
    and "card (ahead (table d) j) < length ps" and "no_panics (dd_registry drv)"
  shows "\<exists>ps1 p ps2 d1 w1 d2 w2 res. ps = ps1 @ p # ps2 \<and> length ps1 \<le> card (ahead (table d) j) \<and>
    database_workerLoop D drv ps1 (d, w) = ((d1, w1), length ps1, Ret False) \<and> table d1 i = Some j \<and>
    snd (claim D (dd_queueName drv) (poll_now1 p) d1) = Inr (reserve (poll_now1 p) j) \<and>
    processNextJob D drv (poll_now1 p) (poll_now2 p) (d1, w1) = ((d2, w2), Ret (True, None)) \<and>
    ExecuteJob job_context (dd_registry drv) (job_Name j) (job_Payload j) w1 = (w2, Ret res)"
  by (rule reliable_job_store.job_reached [OF assms])

text \<open>A job that succeeds, dispatched after one that always fails.\<close>

definition queued_store :: mem_table where
  "queued_store =
     fst (database_Dispatch mem_job_db sample_marshal sample_driver Background ''good'' (Str ''p'') 110 bad_store)"

lemma queued_rows:
  "mem_rows queued_store =
     [1 \<mapsto> (sample_job ''bad'' 100)\<lparr>job_ID := 1\<rparr>, 2 \<mapsto> (sample_job ''good'' 110)\<lparr>job_ID := 2\<rparr>]"
proof -
  have "mt_next bad_store = 2" by code_simp
  then show ?thesis unfolding queued_store_def dispatch_mem_rows bad_store_rows by simp
qed

lemma queued_ahead: "ahead (mem_rows queued_store) ((sample_job ''good'' 110)\<lparr>job_ID := 2\<rparr>) = {1}"
  by (auto simp: ahead_def queued_rows claim_key_def split: if_splits)

theorem due_job_not_starved_witness:
  "\<exists>ps1 p ps2 d1 w1 d2 w2 res. [sample_poll 120, sample_poll 130] = ps1 @ p # ps2 \<and> length ps1 \<le> 1 \<and>
    database_workerLoop mem_job_db sample_driver ps1 (queued_store, 0) = ((d1, w1), length ps1, Ret False) \<and>
    processNextJob mem_job_db sample_driver (poll_now1 p) (poll_now2 p) (d1, w1) = ((d2, w2), Ret (True, None)) \<and>
    ExecuteJob job_context (dd_registry sample_driver) ''good'' (job_Payload (sample_job ''good'' 110)) w1 =
      (w2, Ret res)"
proof -
  let ?j = "(sample_job ''good'' 110)\<lparr>job_ID := 2\<rparr>"
  have row: "mem_rows queued_store 2 = Some ?j" by (simp add: queued_rows)
  have "delays_positive 0 (mem_rows queued_store)"
    by (simp add: delays_positive_def job_table_ok_def job_ok_def queued_rows)
  moreover have "card (ahead (mem_rows queued_store) ?j) < length [sample_poll 120, sample_poll 130]"
    by (simp add: queued_ahead)
  moreover have "no_panics (dd_registry sample_driver)"
    by (auto simp: no_panics_def ExecuteJob_def sample_driver_def NewDatabaseDriver_def sample_registry_def
        good_handler_def bad_handler_def split: option.splits)
  ultimately show ?thesis
    using due_job_not_starved [OF mem.reliable_job_store_axioms row, of 0 "[sample_poll 120, sample_poll 130]"
        sample_driver 0]
    by (simp add: sample_poll_def max_int64_def queued_ahead) blast
qed

end
