(* ===== verification/Handler_Panic.thy ===== *)
theory Handler_Panic
  imports Queue_Properties Memory_Properties Database_Properties
begin

text \<open>
  A handler that panics. \<open>ExecuteJob\<close> does not recover, nor do the loops of the workers: the panic
  reaches the caller of the synchronous driver, and ends the process of a worker of every other driver
  and of the pool of \<open>pkg/worker\<close>. What is left of the job depends on where the driver keeps it.
\<close>

section \<open>One worker of each driver\<close>

lemma panic_result:
  assumes "\<forall>c raw w. snd (ExecuteJob c reg name raw w) = Panic msg"
  obtains w' where "ExecuteJob c reg name raw w = (w', Panic msg)"
  using assms by (metis prod.collapse)

lemma memory_panic:
  assumes "i < length (ms_workers s)" "worker_job (ms_workers s ! i) = Some j"
    "snd (ExecuteJob job_context (md_registry (ms_driver s)) (mj_name j) (mj_payload j) (ms_world s)) = Panic msg"
  obtains w' where "memory_worker_finish i s = Some (memory_crash (s\<lparr>ms_world := w'\<rparr>))"
  using assms by (cases "ExecuteJob job_context (md_registry (ms_driver s)) (mj_name j) (mj_payload j) (ms_world s)")
    (simp add: memory_worker_finish_def)

lemma memory_crashed_final: "ms_crashed s \<Longrightarrow> \<not> memory_step marshal s t"
  by (auto elim: memory_step.cases)

lemma pool_panic:
  assumes "i < length (wps_workers s)" "worker_job (wps_workers s ! i) = Some j"
    "snd (pj_Execute j (WithTimeout Background (60 * second)) (wps_world s)) = Panic msg"
  obtains w' where "pool_worker_finish i s = Some (pool_crash (s\<lparr>wps_world := w'\<rparr>))"
  using assms by (cases "pj_Execute j (WithTimeout Background (60 * second)) (wps_world s)")
    (simp add: pool_worker_finish_def pool_processJob_def)

lemma pool_crashed_final: "wps_crashed s \<Longrightarrow> \<not> wpool_step s t"
  by (auto elim: wpool_step.cases)

lemma redis_panic:
  assumes "Underlying (rd_client drv) = Some R" "IsEnabled (rd_client drv)"
    "ro_BRPop R (rs_server r) (rd_queueKey drv) = (d', Inr [k, b])" "dec b = Inr m"
    "\<forall>c raw w. snd (ExecuteJob c (rd_registry drv) (rjm_Name m) raw w) = Panic msg"
  shows "\<exists>w'. redis_poll enc dec drv uuid now r = (r\<lparr>rs_server := d', rs_world := w'\<rparr>, Panic msg)"
proof -
  obtain w' where "ExecuteJob job_context (rd_registry drv) (rjm_Name m) (rjm_Payload m) (rs_world r) = (w', Panic msg)"
    by (rule panic_result [OF assms(5)])
  with assms(1-4) show ?thesis
    by (intro exI [of _ w']) (simp add: redis_turn_defs redis_process_def rdb_def)
qed

lemma database_panic:
  assumes "job_store D table" "claim D (dd_queueName drv) now1 d = (d1, Inr job)"
    "\<forall>c raw w. snd (ExecuteJob c (dd_registry drv) (job_Name job) raw w) = Panic msg"
  obtains w' j where "processNextJob D drv now1 now2 (d, w) = ((d1, w'), Panic msg)"
    "table d (job_ID job) = Some j" "job = reserve now1 j" "table d1 = (table d)(job_ID job \<mapsto> job)"
    "\<forall>t. now1 + 10 * minute < t \<longrightarrow> eligible (dd_queueName drv) t job"
proof -
  obtain w' where w': "ExecuteJob job_context (dd_registry drv) (job_Name job) (job_Payload job) w = (w', Panic msg)"
    by (rule panic_result [OF assms(3)])
  obtain j where j: "job = reserve now1 j" "table d (job_ID j) = Some j" "eligible (dd_queueName drv) now1 j"
    "table d1 = (table d)(job_ID j \<mapsto> reserve now1 j)"
    by (rule job_store.claim_okE [OF assms(1,2)]) blast
  have "job_Queue j = dd_queueName drv" using j(3) by (simp add: eligible_def)
  then have "\<forall>t. now1 + 10 * minute < t \<longrightarrow> eligible (dd_queueName drv) t job"
    by (simp add: j(1) reserved_stale)
  with w' j assms(2) show ?thesis by (intro that [of w' j]) (simp_all add: processNextJob_def)
qed

section \<open>The drivers compared\<close>

text \<open>
  C14. A panic of a handler is not contained by any driver. Dispatched on the synchronous driver it
  reaches the caller of \<open>Dispatch\<close>. A worker of the database driver panics, and in the database that it
  leaves the claim is all that has changed: the row is there, as processing, and is due again after ten
  minutes. A worker of the Redis driver panics, and in the state that it leaves the message is gone
  from the list and no retry is scheduled. A worker of the memory driver ends the process, which takes
  no further step: neither its job nor any job still in the channel is ever finished. The same holds
  for the worker pool.
\<close>

theorem panicking_handler_per_driver:
  assumes panics: "\<forall>c raw w. snd (ExecuteJob c reg name raw w) = Panic msg"
    and reg: "sync_registry S = reg" "dd_registry drv = reg" "rd_registry rdrv = reg" "md_registry (ms_driver s) = reg"
    and sync: "MarshalPayload marshal p = Inr raw"
    and db: "job_store D table" "claim D (dd_queueName drv) now1 d = (d1, Inr job)" "job_Name job = name"
    and red: "redis_server R strs lsts" "Underlying (rd_client rdrv) = Some R" "IsEnabled (rd_client rdrv)"
      "ro_BRPop R (rs_server r) (rd_queueKey rdrv) = (e, Inr [k, b])" "dec b = Inr m" "rjm_Name m = name"
    and mem: "i < length (ms_workers s)" "worker_job (ms_workers s ! i) = Some j" "mj_name j = name"
    and pool: "l < length (wps_workers q)" "worker_job (wps_workers q ! l) = Some pj"
      "snd (pj_Execute pj (WithTimeout Background (60 * second)) (wps_world q)) = Panic msg"
  shows "snd (sync_Dispatch marshal S ctx name p w) = Panic msg \<and>
    (\<exists>d' w' j0. processNextJob D drv now1 now2 (d, w) = ((d', w'), Panic msg) \<and>
      table d (job_ID job) = Some j0 \<and> table d' = (table d)(job_ID job \<mapsto> reserve now1 j0) \<and>
      (\<forall>t. now1 + 10 * minute < t \<longrightarrow> eligible (dd_queueName drv) t (reserve now1 j0))) \<and>
    (\<exists>r'. redis_poll enc dec rdrv uuid now r = (r', Panic msg) \<and> rs_delayed r' = rs_delayed r \<and>
      lsts (rs_server r') = (lsts (rs_server r))(rd_queueKey rdrv := butlast (lsts (rs_server r) (rd_queueKey rdrv)))) \<and>
    (\<exists>t. memory_worker_finish i s = Some t \<and> ms_finished t = ms_finished s \<and> (\<forall>u. \<not> memory_step marshal t u)) \<and>
    (\<exists>t. pool_worker_finish l q = Some t \<and> wps_finished t = wps_finished q \<and> (\<forall>u. \<not> wpool_step t u))"
proof (intro conjI)
  show "snd (sync_Dispatch marshal S ctx name p w) = Panic msg"
    using panics by (simp add: sync_Dispatch_def sync reg)
  have pj: "\<forall>c raw w. snd (ExecuteJob c (dd_registry drv) (job_Name job) raw w) = Panic msg"
    using panics db(3) reg by simp
  obtain w0 j0 where "processNextJob D drv now1 now2 (d, w) = ((d1, w0), Panic msg)"
    "table d (job_ID job) = Some j0" "job = reserve now1 j0" "table d1 = (table d)(job_ID job \<mapsto> job)"
    "\<forall>t. now1 + 10 * minute < t \<longrightarrow> eligible (dd_queueName drv) t job"
    by (rule database_panic [where w = w and ?now2.0 = now2, OF db(1,2) pj])
  then show "\<exists>d' w' j0. processNextJob D drv now1 now2 (d, w) = ((d', w'), Panic msg) \<and>
      table d (job_ID job) = Some j0 \<and> table d' = (table d)(job_ID job \<mapsto> reserve now1 j0) \<and>
      (\<forall>t. now1 + 10 * minute < t \<longrightarrow> eligible (dd_queueName drv) t (reserve now1 j0))"
    by blast
  obtain w3 where "redis_poll enc dec rdrv uuid now r = (r\<lparr>rs_server := e, rs_world := w3\<rparr>, Panic msg)"
    using redis_panic [where dec = dec and enc = enc and uuid = uuid and now = now, OF red(2-5)] panics red(6) reg
    by auto
  then show "\<exists>r'. redis_poll enc dec rdrv uuid now r = (r', Panic msg) \<and> rs_delayed r' = rs_delayed r \<and>
      lsts (rs_server r') = (lsts (rs_server r))(rd_queueKey rdrv := butlast (lsts (rs_server r) (rd_queueKey rdrv)))"
    using redis_server.brpop_ok [OF red(1,4)] by simp
  obtain w1 where "memory_worker_finish i s = Some (memory_crash (s\<lparr>ms_world := w1\<rparr>))"
    by (rule memory_panic [OF mem(1,2)]) (use panics mem(3) reg in simp)
  then show "\<exists>t. memory_worker_finish i s = Some t \<and> ms_finished t = ms_finished s \<and> (\<forall>u. \<not> memory_step marshal t u)"
    by (simp add: memory_crash_def memory_crashed_final)
  obtain w2 where "pool_worker_finish l q = Some (pool_crash (q\<lparr>wps_world := w2\<rparr>))"
    by (rule pool_panic [OF pool])
  then show "\<exists>t. pool_worker_finish l q = Some t \<and> wps_finished t = wps_finished q \<and> (\<forall>u. \<not> wpool_step t u)"
    by (simp add: pool_crash_def pool_crashed_final)
qed

section \<open>A concrete panic\<close>

definition panic_registry :: "nat registry" where
  "panic_registry = Register NewRegistry ''bad'' panic_handler"

definition panic_database :: "nat database_driver" where
  "panic_database = NewDatabaseDriver
     \<lparr>dc_QueueName = [], dc_Concurrency = 1, dc_MaxAttempts = 2, dc_PollInterval = 0\<rparr> (Some panic_registry)"

definition panic_redis :: "(mem_server, nat) redis_driver" where
  "panic_redis = NewRedisDriver (Some \<lparr>rc_rdb = Some mem_redis, rc_enabled = True\<rparr>)
     \<lparr>rdc_QueueName = [], rdc_Concurrency = 1, rdc_MaxAttempts = 3\<rparr> (Some panic_registry)"

text \<open>One worker has taken the job, a second job waits in the channel.\<close>

definition panic_memory :: "nat memory_system" where
  "panic_memory = the (memory_run [EStart, EDispatch ''bad'' ''1'', EDispatch ''bad'' ''2'', ESelect RecvCase 0]
     (memory_boot (NewMemoryDriver 1 2 (Some panic_registry)) 0 0))"

definition panic_message :: redis_job_message where
  "panic_message = new_message panic_redis ''bad'' ''{}'' ''m'' 0"

definition panic_redis_state :: "(mem_server, nat) redis_state" where
  "panic_redis_state =
     \<lparr>rs_server = mem_server_empty\<lparr>mrs_lists := (\<lambda>k. [''msg''])\<rparr>, rs_delayed = [], rs_world = 0\<rparr>"

definition panic_pool :: "nat pool_system" where
  "panic_pool = (pool_boot (NewPool 1 2) 0)
     \<lparr>wps_workers := [Running \<lparr>pj_Name = ''bad'', pj_Execute = (\<lambda>c. panic_handler c [])\<rparr>]\<rparr>"

lemma panic_executes: "ExecuteJob c panic_registry ''bad'' raw w = (Suc w, Panic ''nil map'')"
  by (simp add: ExecuteJob_def panic_registry_def panic_handler_def)

lemma panic_always: "\<forall>c raw w. snd (ExecuteJob c panic_registry ''bad'' raw w) = Panic ''nil map''"
  by (simp add: panic_executes)

lemma panic_registries:
  "sync_registry (NewSyncDriver (Some panic_registry)) = panic_registry"
  "dd_registry panic_database = panic_registry" "rd_registry panic_redis = panic_registry"
  by (simp_all add: NewSyncDriver_def panic_database_def NewDatabaseDriver_def panic_redis_def NewRedisDriver_def)

lemma panic_sync: "MarshalPayload Inr (Str ''{}'') = (Inr ''{}'' :: err + string)"
  by (simp add: MarshalPayload_def)

lemma panic_message_name: "rjm_Name panic_message = ''bad''"
  by (simp add: panic_message_def)

lemma panic_memory_boot:
  "memory_run [EStart, EDispatch ''bad'' ''1'', EDispatch ''bad'' ''2'', ESelect RecvCase 0]
    (memory_boot (NewMemoryDriver 1 2 (Some panic_registry)) 0 0) = Some panic_memory"
  "ms_workers panic_memory = [Running \<lparr>mj_name = ''bad'', mj_payload = ''1''\<rparr>]" "ms_finished panic_memory = []"
  "md_registry (ms_driver panic_memory) = panic_registry"
  by (simp_all add: panic_memory_def memory_boot_def NewMemoryDriver_def memory_sys_start_def memory_Start_def
      memory_sys_dispatch_def memory_Dispatch_def MarshalPayload_def memory_worker_select_def Let_def numeral_eq_Suc)

lemma panic_memory_busy:
  "0 < length (ms_workers panic_memory)"
  "worker_job (ms_workers panic_memory ! 0) = Some \<lparr>mj_name = ''bad'', mj_payload = ''1''\<rparr>"
  "mj_name \<lparr>mj_name = ''bad'', mj_payload = ''1''\<rparr> = ''bad''"
  by (simp_all add: panic_memory_boot(2))

lemma panic_redis_up:
  "Underlying (rd_client panic_redis) = Some mem_redis" "IsEnabled (rd_client panic_redis)"
  by (simp_all add: panic_redis_def NewRedisDriver_def Underlying_def IsEnabled_def)

lemma panic_pool_busy:
  "0 < length (wps_workers panic_pool)"
  "worker_job (wps_workers panic_pool ! 0) = Some \<lparr>pj_Name = ''bad'', pj_Execute = (\<lambda>c. panic_handler c [])\<rparr>"
  "snd (pj_Execute \<lparr>pj_Name = ''bad'', pj_Execute = (\<lambda>c. panic_handler c [])\<rparr>
    (WithTimeout Background (60 * second)) (wps_world panic_pool)) = Panic ''nil map''"
  by (simp_all add: panic_pool_def panic_handler_def)

theorem panicking_handler_per_driver_witness:
  "(\<exists>d' w' j0. processNextJob mem_job_db panic_database 120 121 (bad_store, 0) = ((d', w'), Panic ''nil map'') \<and>
      mem_rows bad_store 1 = Some j0 \<and> mem_rows d' = [1 \<mapsto> reserve 120 j0]) \<and>
   (\<exists>r'. redis_poll enc_redis_message (\<lambda>b. Inr panic_message) panic_redis ''u'' 1 panic_redis_state =
      (r', Panic ''nil map'') \<and> mrs_lists (rs_server r') (rd_queueKey panic_redis) = []) \<and>
   (\<exists>t. memory_worker_finish 0 panic_memory = Some t \<and> ms_finished t = []) \<and>
   (\<exists>t. pool_worker_finish 0 panic_pool = Some t \<and> (\<forall>u. \<not> wpool_step t u))"
proof -
  have q: "dd_queueName panic_database = dd_queueName sample_driver"
    by (simp add: panic_database_def sample_driver_def NewDatabaseDriver_def)
  have el: "eligible (dd_queueName panic_database) 120 ((sample_job ''bad'' 100)\<lparr>job_ID := 1\<rparr>)" by (simp add: q)
  obtain d1 where cl: "claim mem_job_db (dd_queueName panic_database) 120 bad_store =
      (d1, Inr (reserve 120 ((sample_job ''bad'' 100)\<lparr>job_ID := 1\<rparr>)))"
    by (rule mem.claim_only [OF bad_store_row el bad_store_only])
  obtain d' where pop: "ro_BRPop mem_redis (rs_server panic_redis_state) (rd_queueKey panic_redis) =
      (d', Inr [rd_queueKey panic_redis, ''msg''])"
    by (simp add: mem_redis_def panic_redis_state_def)
  have lst: "butlast (mrs_lists (rs_server panic_redis_state) (rd_queueKey panic_redis)) = []"
    by (simp add: panic_redis_state_def)
  have db: "job_Name (reserve 120 ((sample_job ''bad'' 100)\<lparr>job_ID := 1\<rparr>)) = ''bad''"
    "job_ID (reserve 120 ((sample_job ''bad'' 100)\<lparr>job_ID := 1\<rparr>)) = 1"
    by simp_all
  note all = panicking_handler_per_driver [where dec = "\<lambda>b. Inr panic_message", OF panic_always panic_registries panic_memory_boot(4) panic_sync
      mem.job_store_axioms cl db(1) mem_redis.redis_server_axioms panic_redis_up pop refl panic_message_name
      panic_memory_busy panic_pool_busy]
  note all = all [where w = 0 and ?now2.0 = 121 and uuid = "''u''" and now = 1 and enc = enc_redis_message and
      ctx = Background, unfolded panic_memory_boot(3) db(2) bad_store_upd]
  from all lst show ?thesis by fastforce
qed

end
