(* ===== verification/Bounds_Properties.thy ===== *)
theory Bounds_Properties
  imports User_Read_Properties
begin

text \<open>
  Where the \<open>int\<close> and \<open>time.Duration\<close> arithmetic of the listing (\<open>user_usecase.go\<close>) and of the
  tokens (\<open>pkg/security/jwt.go\<close>) is exact, and what happens beyond.
\<close>

section \<open>Pages\<close>

lemma page_offset_in_range:
  assumes "(clamp_page p - 1) * clamp_size n < 2 ^ 63"
  shows "page_offset p n = (clamp_page p - 1) * clamp_size n"
proof -
  let ?p = "clamp_page p - 1" and ?n = "clamp_size n"
  have n: "1 \<le> ?n" and p: "0 \<le> ?p" using clamp_bounds [of n] clamp_bounds(1) [of p] by auto
  have "?p * 1 \<le> ?p * ?n" using n p by (intro mult_left_mono) auto
  then have "wrap64 ?p = ?p" using assms p by (intro wrap64_id) auto
  moreover have "0 \<le> ?p * ?n" using p n by simp
  then have "wrap64 (?p * ?n) = ?p * ?n" using assms by (intro wrap64_id) auto
  ultimately show ?thesis by (simp add: page_offset_def)
qed

text \<open>
  The offset of a page is \<open>(page - 1) * page_size\<close> as long as that fits into 63 bits. Beyond it wraps
  around: it is zero for page 2^60 + 1 of size 16, so this page is answered with the users
  of the first one, and negative for page 2^60 + 1 of size 8.
\<close>

theorem page_offset_wraps:
  "((clamp_page p - 1) * clamp_size n < 2 ^ 63 \<longrightarrow>
      page_offset p n = (clamp_page p - 1) * clamp_size n \<and> 0 \<le> page_offset p n) \<and>
   usecase_GetAll uc (2 ^ 60 + 1) 16 s = usecase_GetAll uc 1 16 s \<and>
   page_offset (2 ^ 60 + 1) 8 = - (2 ^ 63)"
proof (intro conjI impI)
  assume "(clamp_page p - 1) * clamp_size n < 2 ^ 63"
  from page_offset_in_range [OF this] show e: "page_offset p n = (clamp_page p - 1) * clamp_size n" .
  show "0 \<le> page_offset p n" using clamp_bounds [of n] clamp_bounds(1) [of p] by (simp add: e)
next
  have "page_offset (2 ^ 60 + 1) 16 = page_offset 1 16"
    by (simp add: page_offset_def clamp_page_def clamp_size_def wrap64_def)
  then show "usecase_GetAll uc (2 ^ 60 + 1) 16 s = usecase_GetAll uc 1 16 s"
    by (simp add: usecase_GetAll_def)
  show "page_offset (2 ^ 60 + 1) 8 = - (2 ^ 63)"
    by (simp add: page_offset_def clamp_page_def clamp_size_def wrap64_def)
qed

theorem page_offset_wraps_witness:
  "page_offset (10 ^ 17) 50 = (10 ^ 17 - 1) * 50 \<and>
   usecase_GetAll sample_usecase (2 ^ 60 + 1) 16 sample_registered = usecase_GetAll sample_usecase 1 16 sample_registered"
  using page_offset_wraps [of "10 ^ 17" 50 sample_usecase sample_registered]
  by (simp add: clamp_page_def clamp_size_def)

section \<open>The life of a token\<close>

lemma hours_exact:
  assumes "0 \<le> h" "h \<le> 2562047"
  shows "duration_of h hour = h * hour"
  unfolding duration_of_def by (rule wrap64_id) (use assms in \<open>auto simp: hour_def minute_def second_def\<close>)

lemma hours_overflow:
  assumes "2562047 < h" "h \<le> 5124095"
  shows "duration_of h hour < 0"
proof -
  have hour: "hour = 3600000000000" by (simp add: hour_def minute_def second_def)
  have "wrap64 (h * hour) = wrap64 (h * hour - 2 ^ 64)" using wrap64_shift [of "h * hour - 2 ^ 64"] by simp
  also have "\<dots> = h * hour - 2 ^ 64" by (rule wrap64_id) (use assms in \<open>simp_all add: hour\<close>)
  also have "\<dots> < 0" using assms by (simp add: hour)
  finally show ?thesis by (simp add: duration_of_def)
qed

lemma numeric_date_le: "numeric_date t \<le> t"
  by (simp add: numeric_date_def second_def)

text \<open>
  C16. A token of \<open>Login\<close> validates until the configured number of hours has passed, in whole seconds, and is
  expired from then on, for every setting up to 2,562,047 hours. With a larger one, up to twice
  that, the expiry has overflowed into the past: every token the service issues is expired when it
  is issued. And whatever the setting, a token that validates is unexpired and was signed by an HMAC method
  under the secret of the service: one signed otherwise, or under another key, is refused.
\<close>

theorem token_lifetime:
  assumes J: "jwt_ok J V" and svc: "svc = NewJWTService secret h"
    and tok: "GenerateToken J svc i e now = Inr tok"
  shows "(0 \<le> h \<and> h \<le> 2562047 \<longrightarrow>
      (\<forall>t. ValidateToken J svc t tok =
        (if t < numeric_date (now + h * hour) then Inr (token_claims svc i e now) else Inl ErrExpiredToken))) \<and>
    (2562047 < h \<and> h \<le> 5124095 \<longrightarrow> (\<forall>t. now \<le> t \<longrightarrow> ValidateToken J svc t tok = Inl ErrExpiredToken)) \<and>
    (\<forall>t tok' c. ValidateToken J svc t tok' = Inr c \<longrightarrow> unexpired t c \<and> (\<exists>alg. V (HMAC alg) secret tok' c))"
proof (intro conjI impI allI)
  note v = ValidateToken_generated [OF J tok]
  have exp: "js_expiryHours svc = duration_of h hour" "js_secretKey svc = secret"
    by (simp_all add: svc NewJWTService_def)
  show "ValidateToken J svc t tok =
      (if t < numeric_date (now + h * hour) then Inr (token_claims svc i e now) else Inl ErrExpiredToken)"
    if "0 \<le> h \<and> h \<le> 2562047" for t
    using v [of t] that by (simp add: exp hours_exact)
  show "ValidateToken J svc t tok = Inl ErrExpiredToken" if "2562047 < h \<and> h \<le> 5124095" "now \<le> t" for t
    using v [of t] hours_overflow [of h] numeric_date_le [of "now + duration_of h hour"] that by (simp add: exp)
  show "unexpired t c" "\<exists>alg. V (HMAC alg) secret tok' c" if "ValidateToken J svc t tok' = Inr c" for t tok' c
    using ValidateToken_sound [OF J that] by (simp_all add: exp)
qed

theorem token_lifetime_witness:
  "\<exists>tok. GenerateToken mem_jwt (NewJWTService ''secret'' 3000000) ''id1'' ''ada@x.org'' 100 = Inr tok \<and>
     ValidateToken mem_jwt (NewJWTService ''secret'' 3000000) 100 tok = Inl ErrExpiredToken"
proof -
  obtain tok where "GenerateToken mem_jwt (NewJWTService ''secret'' 3000000) ''id1'' ''ada@x.org'' 100 = Inr tok"
    using GenerateToken_ok [OF mem_jwt_ok] by blast
  with token_lifetime [OF mem_jwt_ok refl this] show ?thesis by auto
qed

end
