(* ===== verification/Spec2Isabelle.thy ===== *)
theory Spec2Isabelle
  imports Database_Properties Database_Workers Memory_Properties Queue_Properties Mail_Properties
    Route_Reports Reply_Properties Setup_Properties Log_Setup Seeder Application_Properties
    User_Exclusion User_Service Http_Service Welcome_Delivery Driver_Agreement Redis_Workers Job_Life Job_Progress Handler_Panic Bounds_Properties
begin

text \<open>
  A model of gin-starter-kit, a REST API in Go with users, tokens, a cache, mail and background jobs,
  and the properties that make it correct.

  The program. A request enters at the router (\<open>internal/delivery/http\<close>): request identifier, access
  log, panic recovery, security headers, CORS, rate limit, then for most routes the token, then the
  handler; only a path that is off by a trailing slash is redirected by gin before all of these. The handlers call the use case of the users (\<open>internal/usecase\<close>), which works on the table of
  users through the repository (\<open>internal/repository/gorm\<close>), on a cache in Redis (\<open>pkg/redis\<close>), on
  password hashes and tokens (\<open>pkg/hash\<close>, \<open>pkg/jwt\<close>), and hands the welcome mail to a queue
  (\<open>pkg/queue\<close>). The queue has four drivers (a SQL table, a buffered channel, a Redis list, and one that
  runs the job at once) behind one interface; its workers execute the handler that sends the mail
  (\<open>pkg/mail\<close>). \<open>cmd\<close> holds the programs: the API, the worker, the migration and the seeder. An older
  worker pool (\<open>pkg/worker\<close>) is still there.

  Style of the model. Structs are records and every function or method is one definition that takes the
  state and returns the new one; an error result is the sum \<open>err + 'a\<close> or \<open>err option\<close>, a panic the
  constructor \<open>Panic\<close> of \<open>outcome\<close>; where state outlives a panic (a committed claim, a popped message, the
  world of a handler) it is beside the outcome. Goroutines are step relations over the state they share. The clock,
  drawn identifiers and salts, and the libraries (GORM, Redis, gin's route lookup, bcrypt, JWT, SMTP,
  templates, JSON codecs, the token bucket, viper) are arguments: records of their operations, with
  locales that state the documented laws. Each locale is interpreted, and each library has an instance in
  memory, on which the witnesses run. Integers are unbounded; where the code can leave 64 bits the model
  goes through \<open>wrap64\<close>.

  The theories.

  \<^item> \<open>Go_Prelude\<close>: strings, errors, outcomes, 64-bit integers and durations of Go. \<open>Domain\<close>:
    \<open>internal/domain\<close>. \<open>Lifecycle\<close>, \<open>Driver_Registry\<close>: locales for \<open>Start\<close>/\<open>Stop\<close> and for the registries of
    drivers. \<open>Json_Strings\<close>: JSON arrays of strings. \<open>Sample_Codec\<close>: a codec for witnesses.
  \<^item> \<open>Queue_Core\<close>: \<open>queue.go\<close>, the locale \<open>queue_driver\<close>, and \<open>driver_sync.go\<close>. \<open>Job_Store\<close>: the
    locale of the table of jobs. \<open>Database_Driver\<close>, \<open>Database_Properties\<close>: \<open>driver_database.go\<close>, one
    worker at a time. \<open>Database_Workers\<close>: several workers, interleaved, with serialised and with
    read-committed transactions. \<open>Channel_Pool\<close>: workers on a buffered channel, the machine that
    \<open>Memory_Driver\<close> (\<open>driver_memory.go\<close>) and \<open>Worker_Pool\<close> (\<open>pkg/worker\<close>) refine;
    \<open>Memory_Properties\<close>. \<open>Redis_Driver\<close>: \<open>driver_redis.go\<close>; \<open>Redis_Workers\<close>: its
    workers, sleeping retries and other processes, interleaved. \<open>Queue_Factory\<close>: \<open>factory.go\<close>.
    \<open>Queue_Properties\<close>: what holds across drivers.
  \<^item> \<open>User_Repository\<close>, \<open>Credentials\<close>, \<open>Redis_Client\<close>, \<open>User_Usecase\<close>: the packages of the same
    names. \<open>User_Coherence\<close>: the cache against the table. \<open>User_Properties\<close>, \<open>User_Read_Properties\<close>.
    \<open>User_Interleaving\<close>: the use cases cut into steps, and any number of them overlapping;
    \<open>User_Exclusion\<close>: overlapping calls of which no update or removal meets another call on its user.
  \<^item> \<open>Http_Core\<close>: gin's context and \<open>pkg/response\<close>. \<open>Middleware\<close>, \<open>Handlers\<close>, \<open>Router\<close>.
    \<open>Request_Outcomes\<close>: a rule per middleware, so that a property of a route is one of its handler.
    \<open>Http_Properties\<close>, \<open>Middleware_Properties\<close>, \<open>Reply_Properties\<close>: every request.
    \<open>Route_Properties\<close>, \<open>Route_Effects\<close>, \<open>Route_Reports\<close>: single routes, from the request to the reply
    and the state behind it.
  \<^item> \<open>Mail\<close>, \<open>Mail_Properties\<close>: \<open>pkg/mail\<close>, and its messages as a receiver reads them.
  \<^item> \<open>Config\<close>, \<open>Database_Connection\<close>, \<open>Log_Setup\<close>, \<open>Setup_Properties\<close>: the configuration, the
    connection and the log. \<open>Seeder\<close>: \<open>database/seeder\<close>. \<open>Application\<close>, \<open>Application_Properties\<close>: the
    programs under \<open>cmd\<close>.
  \<^item> What components do together. \<open>User_Service\<close>: an abstract service, a table of users and the welcome
    jobs it handed out, that the use cases over repository, cache and queue refine. \<open>Http_Service\<close>: the
    same for histories of requests through router, middlewares and handlers. \<open>Dispatched_Job\<close>: a job from
    its dispatch to its settled row. \<open>Welcome_Delivery\<close>: from the request that registers a user, on the
    API as \<open>main\<close> wires it, to the SMTP transaction in a worker. \<open>Driver_Agreement\<close>: the same jobs on all
    four drivers. \<open>Job_Life\<close>: the abstract life of a row, that the cluster of workers refines.
    \<open>Job_Progress\<close>: no row starves. \<open>Handler_Panic\<close>: a panicking handler on each driver.
    \<open>Bounds_Properties\<close>: the arithmetic of pages and token lifetimes.

  What the properties show. For the whole: the server, cache and queue included, answers every history of
  requests as the abstract service does; a registration leads to one mail to the registered address; the
  drivers run the same jobs once each in the same order; rows of the queue live as the abstract row does
  under every interleaving of workers, crashes and failed writes, and every due one is reached; a
  handler's panic ends the process on every driver, and where the job is kept decides what is left of it. For
  the database queue: which job a worker claims and what becomes of it on
  every outcome; an invariant of the table; how often a job is executed, at most, and exactly for a job
  that always fails; that workers with serialised claims exclude each other, and that they do not under
  read-committed isolation, for handlers over ten minutes, or for jobs that kill their worker. For the
  channel drivers: refinement of the abstract machine, hence conservation and order of the jobs, a bounded
  number of moves to shut down, and where they panic. For the Redis driver: messages leave the queue in order
  and each is handed out once, under every interleaving; a failing job is retried for ever. For the users:
  registration, login, the listing and the cached reads against the table, with the interleavings that break
  the cache, what clients may rely on under all of them and when reads are current, the lifetime of tokens and the pages of a listing,
  each with the values where the arithmetic overflows. For HTTP: exactly one well-formed reply for each request (a redirect or that of the chain), its
  headers and its line in the log unless it was redirected, refusal without a valid token, the limit per client, the rules for other
  origins, and what some routes report and change. For the rest: messages read back from what is written,
  settings read back from their formats, seeds that lose nothing, and programs that start, or exit, and
  shut down.

  Bounds. Worker loops of the database and Redis drivers run over a list of turns, each with what the worker
  sees in it, so a property about all runs quantifies over the lists. No definition has a fuel argument: the
  recursion of the parsers and of the line reader ends by the length of the text.

  Not modelled: the HTTP transport of \<open>net/http\<close> (the listener is the error it ends with, a signal is an
  event, timeouts are settings); the validity of an email address, which is a predicate argument; the effect
  of cancelling a context, of which only the deadline is kept; what \<open>slog\<close> and Lumberjack do with a line, and
  the creation of the log directory; the generated \<open>docs\<close> and the embedded \<open>templates\<close>, which are data;
  data races: what the code guards by a mutex is one step here.
\<close>

end
